(* ===== verification/Prelude.thy ===== *)
theory Prelude
  imports Main "HOL-Library.Sublist" "HOL-Library.Code_Target_Nat"
begin

text \<open>
  The shared ground of the development: the string operations of JavaScript that the
  bridge uses, on the model's strings, and the collections of rewrite rules the component
  proofs use.

  A JavaScript string is modelled by its UTF-8 bytes, a \<^typ>\<open>string\<close> (Isabelle's
  \<^typ>\<open>char\<close> is a byte). Concatenation, equality, prefixes and substring search mean
  the same on a string and on its UTF-8 bytes, \<open>Buffer.from(s, 'utf8')\<close> is the identity,
  and \<open>length\<close> agrees with JavaScript's for ASCII strings; where the code bounds a length
  it also demands ASCII in almost every place, and the others count bytes here.
\<close>

type_synonym bytes = string

named_theorems js_defs \<open>definitions of the string operations\<close>

named_theorems guard_simps \<open>what an accepted value satisfies\<close>

subsection \<open>Character classes\<close>

definition code :: "char \<Rightarrow> nat" where
  "code c = of_char c"

definition is_digit :: "char \<Rightarrow> bool" where
  "is_digit c \<longleftrightarrow> 48 \<le> code c \<and> code c \<le> 57"

definition is_lower :: "char \<Rightarrow> bool" where
  "is_lower c \<longleftrightarrow> 97 \<le> code c \<and> code c \<le> 122"

definition is_upper :: "char \<Rightarrow> bool" where
  "is_upper c \<longleftrightarrow> 65 \<le> code c \<and> code c \<le> 90"

definition is_alpha :: "char \<Rightarrow> bool" where
  "is_alpha c \<longleftrightarrow> is_lower c \<or> is_upper c"

definition is_lower_hex :: "char \<Rightarrow> bool" where
  "is_lower_hex c \<longleftrightarrow> is_digit c \<or> (97 \<le> code c \<and> code c \<le> 102)"

definition is_hex :: "char \<Rightarrow> bool" where
  "is_hex c \<longleftrightarrow> is_lower_hex c \<or> (65 \<le> code c \<and> code c \<le> 70)"

definition is_printable_ascii :: "char \<Rightarrow> bool" where
  "is_printable_ascii c \<longleftrightarrow> 32 \<le> code c \<and> code c \<le> 126"

definition is_space :: "char \<Rightarrow> bool" where
  "is_space c \<longleftrightarrow> code c = 32 \<or> (9 \<le> code c \<and> code c \<le> 13)"

lemmas char_class_defs = is_digit_def is_lower_def is_upper_def is_alpha_def
  is_lower_hex_def is_hex_def is_printable_ascii_def is_space_def

definition lower_char :: "char \<Rightarrow> char" where
  "lower_char c = (if is_upper c then char_of (code c + 32) else c)"

definition toLowerCase :: "string \<Rightarrow> string" where
  "toLowerCase s = map lower_char s"

lemma code_less [simp]: "code c < 256"
  by (simp add: code_def)

lemma code_inj: "code c = code d \<longleftrightarrow> c = d"
  by (simp add: code_def)

lemma code_char_of [simp]: "n < 256 \<Longrightarrow> code (char_of n) = n"
  by (simp add: code_def)

lemma char_of_code [simp]: "char_of (code c) = c"
  by (simp add: code_def)

lemma length_toLowerCase [simp]: "length (toLowerCase s) = length s"
  by (simp add: toLowerCase_def)

lemma toLowerCase_append [simp]: "toLowerCase (s @ t) = toLowerCase s @ toLowerCase t"
  by (simp add: toLowerCase_def)

lemma lower_char_idem [simp]: "lower_char (lower_char c) = lower_char c"
  by (simp add: lower_char_def is_upper_def)

lemma toLowerCase_idem [simp]: "toLowerCase (toLowerCase s) = toLowerCase s"
  by (simp add: toLowerCase_def o_def)

subsection \<open>Searching and replacing\<close>

definition startsWith :: "'a list \<Rightarrow> 'a list \<Rightarrow> bool" where
  "startsWith s p = prefix p s"

definition endsWith :: "'a list \<Rightarrow> 'a list \<Rightarrow> bool" where
  "endsWith s p = suffix p s"

fun contains :: "'a list \<Rightarrow> 'a list \<Rightarrow> bool" where
  "contains [] v = (v = [])"
| "contains (c # cs) v = (prefix v (c # cs) \<or> contains cs v)"

lemma contains_iff: "contains t v \<longleftrightarrow> (\<exists>a b. t = a @ v @ b)"
proof (induction t)
  case Nil
  then show ?case by simp
next
  case (Cons c cs)
  show ?case
  proof
    assume "contains (c # cs) v"
    then consider "prefix v (c # cs)" | "contains cs v" by auto
    then show "\<exists>a b. c # cs = a @ v @ b"
    proof cases
      case 1
      then obtain b where "c # cs = [] @ v @ b" by (auto simp: prefix_def)
      then show ?thesis by blast
    next
      case 2
      with Cons.IH obtain a b where "c # cs = (c # a) @ v @ b" by auto
      then show ?thesis by blast
    qed
  next
    assume "\<exists>a b. c # cs = a @ v @ b"
    then obtain a b where eq: "c # cs = a @ v @ b" by blast
    show "contains (c # cs) v"
    proof (cases a)
      case Nil
      with eq have "prefix v (c # cs)" by simp
      then show ?thesis by simp
    next
      case (Cons d a')
      with eq have "cs = a' @ v @ b" by simp
      with Cons.IH show ?thesis by auto
    qed
  qed
qed

lemma contains_self [simp]: "contains s s"
  by (cases s) auto

lemma contains_Nil [simp]: "contains s []"
  by (cases s) auto

lemma contains_appendI1: "contains s v \<Longrightarrow> contains (s @ t) v"
  by (metis append.assoc contains_iff)

lemma contains_appendI2: "contains t v \<Longrightarrow> contains (s @ t) v"
  by (metis append.assoc contains_iff)

lemma contains_prefixI: "prefix v t \<Longrightarrow> contains t v"
  by (cases t) auto

lemma contains_set: "contains t v \<Longrightarrow> set v \<subseteq> set t"
  by (auto simp: contains_iff)

lemma contains_trans: "contains s t \<Longrightarrow> contains t u \<Longrightarrow> contains s u"
  by (metis append.assoc contains_iff)

lemma contains_drop: "contains (drop n s) v \<Longrightarrow> contains s v"
  by (metis append_take_drop_id contains_appendI2)

lemma contains_length: "contains t v \<Longrightarrow> length v \<le> length t"
  by (auto simp: contains_iff)

fun indexOf :: "'a list \<Rightarrow> 'a \<Rightarrow> nat option" where
  "indexOf [] x = None"
| "indexOf (c # cs) x = (if c = x then Some 0 else map_option Suc (indexOf cs x))"

lemma indexOf_None: "indexOf s x = None \<longleftrightarrow> x \<notin> set s"
  by (induction s) auto

lemma indexOf_Some:
  "indexOf s x = Some i \<Longrightarrow> i < length s \<and> s = take i s @ x # drop (Suc i) s \<and> x \<notin> set (take i s)"
  by (induction s arbitrary: i) (auto split: if_splits)

text \<open>\<open>s.split(sep)\<close> for a one-character separator, and \<open>parts.join(sep)\<close>.\<close>

fun splitOn :: "'a \<Rightarrow> 'a list \<Rightarrow> 'a list list" where
  "splitOn sep [] = [[]]"
| "splitOn sep (c # cs) =
     (if c = sep then [] # splitOn sep cs
      else (case splitOn sep cs of [] \<Rightarrow> [[c]] | p # ps \<Rightarrow> (c # p) # ps))"

fun joinWith :: "'a list \<Rightarrow> 'a list list \<Rightarrow> 'a list" where
  "joinWith sep [] = []"
| "joinWith sep [p] = p"
| "joinWith sep (p # q # ps) = p @ sep @ joinWith sep (q # ps)"

lemma splitOn_nonempty [simp]: "splitOn sep s \<noteq> []"
  by (induction s) (auto split: list.splits)

lemma joinWith_splitOn: "joinWith [sep] (splitOn sep s) = s"
proof (induction s)
  case Nil
  then show ?case by simp
next
  case (Cons c cs)
  obtain p ps where "splitOn sep cs = p # ps" by (cases "splitOn sep cs") auto
  with Cons show ?case by (cases ps) auto
qed

lemma splitOn_no_sep: "p \<in> set (splitOn sep s) \<Longrightarrow> sep \<notin> set p"
proof (induction s arbitrary: p)
  case Nil
  then show ?case by simp
next
  case (Cons c cs)
  obtain q qs where "splitOn sep cs = q # qs" by (cases "splitOn sep cs") auto
  with Cons show ?case by (auto split: if_splits)
qed

text \<open>\<open>s.split(v).join(m)\<close> for a non-empty string \<open>v\<close>: every occurrence, from the left,
  without overlap. The code guards every call by a length test.\<close>

function replaceAll :: "'a list \<Rightarrow> 'a list \<Rightarrow> 'a list \<Rightarrow> 'a list" where
  "replaceAll v m [] = []"
| "replaceAll v m (c # cs) =
     (if v \<noteq> [] \<and> prefix v (c # cs)
      then m @ replaceAll v m (drop (length v) (c # cs))
      else c # replaceAll v m cs)"
  by pat_completeness auto
termination
  by (relation "measure (\<lambda>(v, m, s). length s)") auto

fun trimStart :: "string \<Rightarrow> string" where
  "trimStart [] = []"
| "trimStart (c # cs) = (if is_space c then trimStart cs else c # cs)"

definition trim :: "string \<Rightarrow> string" where
  "trim s = rev (trimStart (rev (trimStart s)))"

text \<open>\<open>s.replace(/\/$/, '')\<close>\<close>

definition dropTrailingSlash :: "string \<Rightarrow> string" where
  "dropTrailingSlash s = (if s \<noteq> [] \<and> last s = CHR ''/'' then butlast s else s)"

lemma dropTrailingSlash_append [simp]: "dropTrailingSlash (s @ ''/'') = s"
  by (simp add: dropTrailingSlash_def)

text \<open>The insertion-ordered \<open>new Set(xs)\<close>, as a list without repetition.\<close>

fun jsSetFrom :: "'a list \<Rightarrow> 'a list \<Rightarrow> 'a list" where
  "jsSetFrom acc [] = acc"
| "jsSetFrom acc (x # xs) = jsSetFrom (if x \<in> set acc then acc else acc @ [x]) xs"

definition jsSet :: "'a list \<Rightarrow> 'a list" where
  "jsSet xs = jsSetFrom [] xs"

lemma set_jsSetFrom: "set (jsSetFrom acc xs) = set acc \<union> set xs"
  by (induction xs arbitrary: acc) auto

lemma set_jsSet [simp]: "set (jsSet xs) = set xs"
  by (simp add: jsSet_def set_jsSetFrom)

lemma distinct_jsSetFrom: "distinct acc \<Longrightarrow> distinct (jsSetFrom acc xs)"
  by (induction xs arbitrary: acc) auto

lemma distinct_jsSet [simp]: "distinct (jsSet xs)"
  by (simp add: jsSet_def distinct_jsSetFrom)

subsection \<open>Name patterns\<close>

text \<open>The regular expressions \<open>^[head][tail]{0,n}$\<close> and \<open>^[cls]{n}$\<close>.\<close>

fun name_pattern :: "(char \<Rightarrow> bool) \<Rightarrow> (char \<Rightarrow> bool) \<Rightarrow> nat \<Rightarrow> string \<Rightarrow> bool" where
  "name_pattern hd_ok tl_ok n [] = False"
| "name_pattern hd_ok tl_ok n (c # cs) = (hd_ok c \<and> list_all tl_ok cs \<and> length cs \<le> n)"

definition exact_pattern :: "(char \<Rightarrow> bool) \<Rightarrow> nat \<Rightarrow> string \<Rightarrow> bool" where
  "exact_pattern cls n s \<longleftrightarrow> length s = n \<and> list_all cls s"

lemma name_pattern_length: "name_pattern h t n s \<Longrightarrow> 0 < length s \<and> length s \<le> Suc n"
  by (cases s) auto

lemma name_pattern_set:
  "name_pattern h t n s \<Longrightarrow> c \<in> set s \<Longrightarrow> h c \<or> t c"
  by (cases s) (auto simp: list_all_iff)

subsection \<open>Decimal numerals\<close>

definition digit_char :: "nat \<Rightarrow> char" where
  "digit_char n = char_of (48 + n mod 10)"

fun show_nat :: "nat \<Rightarrow> string" where
  "show_nat n = (if n < 10 then [digit_char n] else show_nat (n div 10) @ [digit_char n])"

declare show_nat.simps [simp del]

fun read_nat :: "string \<Rightarrow> nat \<Rightarrow> nat" where
  "read_nat [] acc = acc"
| "read_nat (c # cs) acc = read_nat cs (10 * acc + (code c - 48))"

text \<open>\<open>/^\d+$/\<close>\<close>

definition all_digits :: "string \<Rightarrow> bool" where
  "all_digits s \<longleftrightarrow> s \<noteq> [] \<and> list_all is_digit s"

definition parse_digits :: "string \<Rightarrow> nat option" where
  "parse_digits s = (if all_digits s then Some (read_nat s 0) else None)"

lemma code_digit_char [simp]: "code (digit_char n) = 48 + n mod 10"
proof -
  have "n mod 10 < 10" by simp
  then have "48 + n mod 10 < 256" by linarith
  then show ?thesis unfolding digit_char_def by (rule code_char_of)
qed

lemma is_digit_digit_char [simp]: "is_digit (digit_char n)"
proof -
  have "n mod 10 < 10" by simp
  then show ?thesis unfolding is_digit_def code_digit_char by linarith
qed

lemma read_nat_append: "read_nat (s @ t) acc = read_nat t (read_nat s acc)"
  by (induction s arbitrary: acc) auto

lemma read_show_nat [simp]: "read_nat (show_nat n) 0 = n"
proof (induction n rule: show_nat.induct)
  case (1 n)
  show ?case
  proof (cases "n < 10")
    case True
    then show ?thesis by (simp add: show_nat.simps [of n])
  next
    case False
    with 1 show ?thesis by (simp add: show_nat.simps [of n] read_nat_append)
  qed
qed

lemma show_nat_nonempty [simp]: "show_nat n \<noteq> []"
  by (subst show_nat.simps) simp

lemma show_nat_digits: "list_all is_digit (show_nat n)"
proof (induction n rule: show_nat.induct)
  case (1 n)
  then show ?case by (subst show_nat.simps) simp
qed

lemma all_digits_show_nat [simp]: "all_digits (show_nat n)"
  by (simp add: all_digits_def show_nat_digits)

lemma parse_digits_show_nat [simp]: "parse_digits (show_nat n) = Some n"
  by (simp add: parse_digits_def)

lemma show_nat_inj [simp]: "show_nat m = show_nat n \<longleftrightarrow> m = n"
  by (metis read_show_nat)

definition show_int :: "int \<Rightarrow> string" where
  "show_int i = (if i < 0 then ''-'' @ show_nat (nat (- i)) else show_nat (nat i))"

subsection \<open>Errors as values\<close>

text \<open>A \<open>throw\<close> is \<open>Inl\<close> of the error. The rules below take an accepted result apart,
  guard by guard.\<close>

lemma guard_Inr [guard_simps]:
  "(if b then Inl e else x) = Inr y \<longleftrightarrow> \<not> b \<and> x = Inr y"
  by simp

lemma call_Inr [guard_simps]:
  "(case m of Inl e \<Rightarrow> Inl (h e) | Inr x \<Rightarrow> f x) = Inr y \<longleftrightarrow> (\<exists>x. m = Inr x \<and> f x = Inr y)"
  by (cases m) auto

lemma check_Inr [guard_simps]:
  "(case m of Some e \<Rightarrow> Inl (h e) | None \<Rightarrow> x) = Inr y \<longleftrightarrow> m = None \<and> x = Inr y"
  by (cases m) auto

lemma present_Inr [guard_simps]:
  "(case m of None \<Rightarrow> Inl e | Some x \<Rightarrow> f x) = Inr y \<longleftrightarrow> (\<exists>x. m = Some x \<and> f x = Inr y)"
  by (cases m) auto

lemma guard_None_Some [guard_simps]:
  "(if b then Some e else x) = None \<longleftrightarrow> \<not> b \<and> x = None"
  by simp

fun fails :: "'e + 'a \<Rightarrow> bool" where
  "fails (Inl e) = True"
| "fails (Inr a) = False"

lemma fails_iff: "fails m \<longleftrightarrow> (\<exists>e. m = Inl e)"
  by (cases m) auto

text \<open>The loop \<open>for (v of vs) { x = f(v); if (seen.includes(x)) throw dup; seen.push(x) }\<close>.\<close>

fun collect :: "('v \<Rightarrow> 'e + 'x) \<Rightarrow> 'e \<Rightarrow> 'x list \<Rightarrow> 'v list \<Rightarrow> 'e + 'x list" where
  "collect f dup seen [] = Inr seen"
| "collect f dup seen (v # vs) =
     (case f v of
        Inl e \<Rightarrow> Inl e
      | Inr x \<Rightarrow> if x \<in> set seen then Inl dup else collect f dup (seen @ [x]) vs)"

lemma collect_Inr:
  "collect f dup seen vs = Inr ys \<Longrightarrow> distinct seen \<Longrightarrow>
   distinct ys \<and> (\<exists>xs. ys = seen @ xs \<and> list_all2 (\<lambda>v x. f v = Inr x) vs xs)"
proof (induction f dup seen vs arbitrary: ys rule: collect.induct)
  case (1 f dup seen)
  then show ?case by simp
next
  case (2 f dup seen v vs)
  from "2.prems"(1) obtain x where x: "f v = Inr x" "x \<notin> set seen"
      "collect f dup (seen @ [x]) vs = Inr ys"
    by (auto split: sum.splits if_splits)
  with "2.prems"(2) have "distinct (seen @ [x])" by simp
  with 2 x obtain xs where "distinct ys" "ys = (seen @ [x]) @ xs"
      "list_all2 (\<lambda>v x. f v = Inr x) vs xs" by blast
  with x show ?case by (intro conjI exI [of _ "x # xs"]) auto
qed

lemma collect_result:
  assumes "collect f dup [] vs = Inr ys"
  shows "distinct ys" "length ys = length vs" "list_all2 (\<lambda>v x. f v = Inr x) vs ys"
  using collect_Inr [OF assms] by (auto dest: list_all2_lengthD)

lemma collect_all:
  "\<lbrakk>\<And>y. y \<in> set ys \<Longrightarrow> f (g y) = Inr y; distinct (seen @ ys)\<rbrakk> \<Longrightarrow>
   collect f dup seen (map g ys) = Inr (seen @ ys)"
  by (induction ys arbitrary: seen) auto

lemma list_all2_range: "list_all2 R vs xs \<Longrightarrow> x \<in> set xs \<Longrightarrow> \<exists>v \<in> set vs. R v x"
  by (induction rule: list_all2_induct) auto

end
