(* ===== verification/Encoding.thy ===== *)
theory Encoding
  imports Prelude
begin

text \<open>
  The encoders of the platform that the bridge relies on: base64 and base64url of a Buffer,
  \<open>encodeURIComponent\<close>, and the \<open>application/x-www-form-urlencoded\<close> serializer and
  parser behind \<open>URLSearchParams\<close>. Each has its decoder and the round trip between them.
  Strings are their UTF-8 bytes, so each encoder works byte by byte.
\<close>

subsection \<open>Base64\<close>

definition b64_char :: "char \<Rightarrow> char \<Rightarrow> nat \<Rightarrow> char" where
  "b64_char c62 c63 n =
     (if n < 26 then char_of (65 + n)
      else if n < 52 then char_of (71 + n)
      else if n < 62 then char_of (n - 4)
      else if n = 62 then c62 else c63)"

fun b64_with :: "char \<Rightarrow> char \<Rightarrow> string \<Rightarrow> bytes \<Rightarrow> string" where
  "b64_with p q pad [] = []"
| "b64_with p q pad [a] =
     [b64_char p q (code a div 4), b64_char p q (code a mod 4 * 16)] @ pad @ pad"
| "b64_with p q pad [a, b] =
     [b64_char p q (code a div 4), b64_char p q (code a mod 4 * 16 + code b div 16),
      b64_char p q (code b mod 16 * 4)] @ pad"
| "b64_with p q pad (a # b # c # cs) =
     b64_char p q (code a div 4) # b64_char p q (code a mod 4 * 16 + code b div 16) #
     b64_char p q (code b mod 16 * 4 + code c div 64) # b64_char p q (code c mod 64) #
     b64_with p q pad cs"

definition base64 :: "bytes \<Rightarrow> string" where
  "base64 = b64_with (CHR ''+'') (CHR ''/'') ''=''"

definition base64url :: "bytes \<Rightarrow> string" where
  "base64url = b64_with (CHR ''-'') (CHR ''_'') []"

definition b64_val :: "char \<Rightarrow> nat" where
  "b64_val c =
     (if is_upper c then code c - 65
      else if is_lower c then code c - 71
      else if is_digit c then code c + 4
      else if c = CHR ''+'' then 62 else 63)"

text \<open>A decoder for the padded alphabet; \<open>b64_val\<close> is defined on the alphabet only, which
  is all the round trip needs.\<close>

fun base64_decode :: "string \<Rightarrow> bytes" where
  "base64_decode (w # x # y # z # rest) =
     (if y = CHR ''='' then [char_of (b64_val w * 4 + b64_val x div 16)]
      else if z = CHR ''='' then
        [char_of (b64_val w * 4 + b64_val x div 16),
         char_of (b64_val x mod 16 * 16 + b64_val y div 4)]
      else char_of (b64_val w * 4 + b64_val x div 16) #
           char_of (b64_val x mod 16 * 16 + b64_val y div 4) #
           char_of (b64_val y mod 4 * 64 + b64_val z) # base64_decode rest)"
| "base64_decode _ = []"

lemma code_b64_char:
  "n < 64 \<Longrightarrow> code (b64_char p q n) =
     (if n < 26 then 65 + n else if n < 52 then 71 + n else if n < 62 then n - 4
      else if n = 62 then code p else code q)"
  by (simp add: b64_char_def)

lemma code_plus_slash [simp]:
  "code CHR ''+'' = 43" "code CHR ''/'' = 47" "code CHR ''='' = 61"
  "code CHR ''-'' = 45" "code CHR ''_'' = 95" "code CHR '':'' = 58" "code CHR ''%'' = 37"
  by (simp_all add: code_def)

lemma eq_by_code: "code c = n \<Longrightarrow> code d = m \<Longrightarrow> c = d \<longleftrightarrow> n = m"
  using code_inj by auto

lemma b64_val_char [simp]:
  assumes "n < 64"
  shows "b64_val (b64_char (CHR ''+'') (CHR ''/'') n) = n"
proof -
  let ?c = "b64_char (CHR ''+'') (CHR ''/'') n"
  from assms have k: "code ?c = (if n < 26 then 65 + n else if n < 52 then 71 + n
      else if n < 62 then n - 4 else if n = 62 then 43 else 47)"
    by (simp add: code_b64_char)
  consider "n < 26" | "26 \<le> n" "n < 52" | "52 \<le> n" "n < 62" | "n = 62" | "n = 63"
    using assms by linarith
  then show ?thesis
    by cases (use k in \<open>auto simp: b64_val_def is_upper_def is_lower_def is_digit_def
      code_inj [symmetric]\<close>)
qed

lemma b64_char_not_pad: "n < 64 \<Longrightarrow> b64_char (CHR ''+'') (CHR ''/'') n \<noteq> CHR ''=''"
  by (simp add: code_inj [symmetric] code_b64_char, arith)

lemma sextet_bounds [simp]:
  "code a div 4 < 64" "code a mod 4 * 16 < 64" "code a mod 4 * 16 + code b div 16 < 64"
  "code b mod 16 * 4 < 64" "code b mod 16 * 4 + code c div 64 < 64" "code c mod 64 < 64"
proof -
  have a: "code a < 256" and b: "code b < 256" and c: "code c < 256" by simp_all
  from a show "code a div 4 < 64" by linarith
  from b have "code b div 16 < 16" and "code b mod 16 < 16" by linarith+
  moreover from c have "code c div 64 < 4" by linarith
  moreover have "code a mod 4 < 4" by simp
  ultimately show "code a mod 4 * 16 < 64" "code a mod 4 * 16 + code b div 16 < 64"
    "code b mod 16 * 4 < 64" "code b mod 16 * 4 + code c div 64 < 64" by linarith+
  show "code c mod 64 < 64" by simp
qed

lemma digits_div [simp]: "x < k \<Longrightarrow> (y * k + x) div k = (y::nat)"
  by simp

lemma digits_mod [simp]: "x < k \<Longrightarrow> (y * k + x) mod k = (x::nat)"
  by simp

lemma byte1: "x < 16 \<Longrightarrow> code a div 4 * 4 + (code a mod 4 * 16 + x) div 16 = code a"
  by simp

lemma byte2:
  assumes "x < 4"
  shows "(code a mod 4 * 16 + code b div 16) mod 16 * 16 + (code b mod 16 * 4 + x) div 4 = code b"
proof -
  have "code b div 16 < 16" using code_less [of b] by linarith
  with assms show ?thesis by simp
qed

lemma byte3: "(code b mod 16 * 4 + code c div 64) mod 4 * 64 + code c mod 64 = code c"
proof -
  have "code c div 64 < 4" using code_less [of c] by linarith
  then show ?thesis by simp
qed

lemma code_div_bounds: "code b div 16 < 16" "code c div 64 < 4"
  using code_less [of b] code_less [of c] by linarith+

abbreviation std64 :: "nat \<Rightarrow> char" where
  "std64 \<equiv> b64_char (CHR ''+'') (CHR ''/'')"

lemma decode_quad:
  "w < 64 \<Longrightarrow> x < 64 \<Longrightarrow> y < 64 \<Longrightarrow> z < 64 \<Longrightarrow>
   base64_decode (std64 w # std64 x # std64 y # std64 z # rest) =
     char_of (w * 4 + x div 16) # char_of (x mod 16 * 16 + y div 4) #
     char_of (y mod 4 * 64 + z) # base64_decode rest"
  by (simp add: b64_char_not_pad)

lemma base64_decode_base64 [simp]: "base64_decode (base64 bs) = bs"
proof -
  have "base64_decode (b64_with (CHR ''+'') (CHR ''/'') ''='' bs) = bs"
  proof (induction "CHR ''+''" "CHR ''/''" "''=''" bs rule: b64_with.induct)
    case 1
    then show ?case by simp
  next
    case (2 a)
    then show ?case using byte1 [of 0 a] by simp
  next
    case (3 a b)
    then show ?case
      using byte1 [OF code_div_bounds(1), of b a] byte2 [of 0 a b] b64_char_not_pad
      by simp
  next
    case (4 a b c cs)
    have "base64_decode (b64_with (CHR ''+'') (CHR ''/'') ''='' (a # b # c # cs)) =
        char_of (code a) # char_of (code b) # char_of (code c) #
        base64_decode (b64_with (CHR ''+'') (CHR ''/'') ''='' cs)"
      by (simp only: b64_with.simps decode_quad sextet_bounds byte1 [OF code_div_bounds(1)]
          byte2 [OF code_div_bounds(2)] byte3)
    with 4 show ?case by simp
  qed
  then show ?thesis by (simp add: base64_def)
qed

lemma base64_inj [simp]: "base64 x = base64 y \<longleftrightarrow> x = y"
  by (metis base64_decode_base64)

lemma b64_with_nonempty: "bs \<noteq> [] \<Longrightarrow> b64_with p q pad bs \<noteq> []"
  by (induction p q pad bs rule: b64_with.induct) auto

lemma base64_nonempty: "bs \<noteq> [] \<Longrightarrow> base64 bs \<noteq> []"
  by (simp add: base64_def b64_with_nonempty)

lemma length_base64: "length (base64 bs) = (length bs + 2) div 3 * 4"
proof -
  have step: "(5 + n) div 3 = Suc (Suc (Suc n) div 3)" for n :: nat by presburger
  have "length (b64_with p q [x] bs) = (length bs + 2) div 3 * 4" for p q x
    by (induction p q "[x]" bs rule: b64_with.induct) (simp_all add: step)
  then show ?thesis by (simp add: base64_def)
qed

subsection \<open>Percent encoding\<close>

definition upper_hex :: "nat \<Rightarrow> char" where
  "upper_hex n = (if n < 10 then char_of (48 + n) else char_of (55 + n))"

definition hex_val :: "char \<Rightarrow> nat" where
  "hex_val c = (if is_digit c then code c - 48
                else if is_upper c then code c - 55 else code c - 87)"

definition pct :: "char \<Rightarrow> string" where
  "pct c = [CHR ''%'', upper_hex (code c div 16), upper_hex (code c mod 16)]"

definition is_uri_unreserved :: "char \<Rightarrow> bool" where
  "is_uri_unreserved c \<longleftrightarrow> is_alpha c \<or> is_digit c \<or> c \<in> set ''-_.!~*'' \<or> code c = 39 \<or> c \<in> set ''()''"

definition encodeURIComponent :: "string \<Rightarrow> string" where
  "encodeURIComponent s = concat (map (\<lambda>c. if is_uri_unreserved c then [c] else pct c) s)"

fun percent_decode :: "string \<Rightarrow> string" where
  "percent_decode (p # a # b # cs) =
     (if p = CHR ''%'' \<and> is_hex a \<and> is_hex b
      then char_of (hex_val a * 16 + hex_val b) # percent_decode cs
      else p # percent_decode (a # b # cs))"
| "percent_decode cs = cs"

lemma code_upper_hex: "n < 16 \<Longrightarrow> code (upper_hex n) = (if n < 10 then 48 + n else 55 + n)"
  by (simp add: upper_hex_def)

lemma is_hex_upper_hex [simp]: "n < 16 \<Longrightarrow> is_hex (upper_hex n)"
  by (auto simp: is_hex_def is_lower_hex_def is_digit_def code_upper_hex)

lemma hex_val_upper_hex [simp]: "n < 16 \<Longrightarrow> hex_val (upper_hex n) = n"
  by (auto simp: hex_val_def is_digit_def is_upper_def code_upper_hex)

lemma nibbles [simp]: "code c div 16 < 16" "code c mod 16 < 16"
  using code_less [of c] by linarith+

lemma percent_decode_pct [simp]: "percent_decode (pct c @ s) = c # percent_decode s"
proof -
  have "code c div 16 * 16 + code c mod 16 = code c" by simp
  then show ?thesis by (simp add: pct_def)
qed

lemma percent_decode_plain: "c \<noteq> CHR ''%'' \<Longrightarrow> percent_decode (c # s) = c # percent_decode s"
proof (cases s)
  case (Cons a t)
  assume "c \<noteq> CHR ''%''"
  then show ?thesis using Cons by (cases t) auto
qed simp

lemma percent_not_unreserved: "\<not> is_uri_unreserved CHR ''%''"
  by (simp add: is_uri_unreserved_def is_alpha_def is_lower_def is_upper_def is_digit_def)

lemma percent_decode_encodeURIComponent [simp]: "percent_decode (encodeURIComponent s) = s"
proof (induction s)
  case (Cons c s)
  then show ?case
    using percent_not_unreserved percent_decode_plain [of c "encodeURIComponent s"]
    by (cases "c = CHR ''%''") (auto simp: encodeURIComponent_def)
qed (simp add: encodeURIComponent_def)

lemma encodeURIComponent_inj [simp]: "encodeURIComponent x = encodeURIComponent y \<longleftrightarrow> x = y"
  by (metis percent_decode_encodeURIComponent)

lemma encodeURIComponent_nonempty: "s \<noteq> [] \<Longrightarrow> encodeURIComponent s \<noteq> []"
  by (cases s) (auto simp: encodeURIComponent_def pct_def)

subsection \<open>Form encoding\<close>

definition is_form_safe :: "char \<Rightarrow> bool" where
  "is_form_safe c \<longleftrightarrow> is_alpha c \<or> is_digit c \<or> c \<in> set ''*-._''"

definition form_char :: "char \<Rightarrow> string" where
  "form_char c = (if c = CHR '' '' then ''+'' else if is_form_safe c then [c] else pct c)"

definition form_encode :: "string \<Rightarrow> string" where
  "form_encode s = concat (map form_char s)"

text \<open>\<open>params.toString()\<close> for the given name-value pairs.\<close>

definition serialize_params :: "(string \<times> string) list \<Rightarrow> string" where
  "serialize_params ps = joinWith ''&'' (map (\<lambda>(n, v). form_encode n @ ''='' @ form_encode v) ps)"

definition plus_to_space :: "string \<Rightarrow> string" where
  "plus_to_space s = map (\<lambda>c. if c = CHR ''+'' then CHR '' '' else c) s"

definition form_decode :: "string \<Rightarrow> string" where
  "form_decode s = percent_decode (plus_to_space s)"

definition parse_pair :: "string \<Rightarrow> string \<times> string" where
  "parse_pair s = (case indexOf s (CHR ''='') of
       None \<Rightarrow> (form_decode s, [])
     | Some i \<Rightarrow> (form_decode (take i s), form_decode (drop (Suc i) s)))"

text \<open>\<open>new URLSearchParams(s)\<close>, \<open>s\<close> without its leading question mark.\<close>

definition parse_params :: "string \<Rightarrow> (string \<times> string) list" where
  "parse_params s = map parse_pair (filter (\<lambda>p. p \<noteq> []) (splitOn (CHR ''&'') s))"

lemma upper_hex_not_special: "n < 16 \<Longrightarrow> upper_hex n \<notin> set ''+&= #?/%''"
  by (auto simp: code_inj [symmetric] code_upper_hex) (auto simp: code_def)

lemma form_char_no_special: "c \<in> set ''&=#?/'' \<Longrightarrow> c \<notin> set (form_char d)"
proof -
  assume c: "c \<in> set ''&=#?/''"
  have hex: "upper_hex (code d div 16) \<noteq> c" "upper_hex (code d mod 16) \<noteq> c"
    using c upper_hex_not_special [of "code d div 16"] upper_hex_not_special [of "code d mod 16"]
    by auto
  have "\<not> is_form_safe c" and "c \<noteq> CHR ''%''" and "c \<noteq> CHR ''+''"
    using c by (auto simp: is_form_safe_def char_class_defs code_def)
  with hex show ?thesis by (auto simp: form_char_def pct_def)
qed

lemma form_encode_no_special: "c \<in> set ''&=#?/'' \<Longrightarrow> c \<notin> set (form_encode s)"
  using form_char_no_special by (auto simp: form_encode_def)

lemma plus_to_space_append: "plus_to_space (s @ t) = plus_to_space s @ plus_to_space t"
  by (simp add: plus_to_space_def)

lemma form_decode_char: "form_decode (form_char c @ s) = c # form_decode s"
proof -
  consider (space) "c = CHR '' ''" | (safe) "c \<noteq> CHR '' ''" "is_form_safe c"
    | (pct) "c \<noteq> CHR '' ''" "\<not> is_form_safe c" by blast
  then show ?thesis
  proof cases
    case space
    then show ?thesis
      by (simp add: form_char_def form_decode_def plus_to_space_def percent_decode_plain)
  next
    case safe
    then have "c \<noteq> CHR ''+''" "c \<noteq> CHR ''%''"
      by (auto simp: is_form_safe_def char_class_defs code_def)
    with safe show ?thesis
      by (simp add: form_char_def form_decode_def plus_to_space_def percent_decode_plain)
  next
    case pct
    have "plus_to_space (pct c) = pct c"
      using upper_hex_not_special [of "code c div 16"] upper_hex_not_special [of "code c mod 16"]
      by (auto simp: pct_def plus_to_space_def)
    with pct show ?thesis
      by (simp add: form_char_def form_decode_def plus_to_space_append)
  qed
qed

lemma form_decode_encode [simp]: "form_decode (form_encode s) = s"
proof (induction s)
  case Nil
  then show ?case by (simp add: form_encode_def form_decode_def plus_to_space_def)
next
  case (Cons c s)
  then show ?case using form_decode_char [of c "form_encode s"] by (simp add: form_encode_def)
qed

lemma splitOn_absent: "sep \<notin> set s \<Longrightarrow> splitOn sep s = [s]"
  by (induction s) auto

lemma indexOf_append_absent: "x \<notin> set s \<Longrightarrow> indexOf (s @ x # t) x = Some (length s)"
  by (induction s) auto

lemma parse_serialize_one [simp]: "parse_params (serialize_params [(n, v)]) = [(n, v)]"
proof -
  let ?s = "form_encode n @ CHR ''='' # form_encode v"
  have "CHR ''&'' \<notin> set ?s" using form_encode_no_special by simp
  then have "splitOn (CHR ''&'') ?s = [?s]" by (rule splitOn_absent)
  moreover have "indexOf ?s (CHR ''='') = Some (length (form_encode n))"
    by (rule indexOf_append_absent) (simp add: form_encode_no_special)
  ultimately show ?thesis
    by (simp add: parse_params_def serialize_params_def parse_pair_def)
qed

end
