(* ===== verification/JsValue.thy ===== *)
theory JsValue
  imports Encoding
begin

text \<open>
  JavaScript values as the bridge meets them: the results of \<open>JSON.parse\<close> and
  \<open>undefined\<close>, with property lookup, \<open>JSON.stringify\<close> and \<open>JSON.parse\<close>.

  An object is the list of its own enumerable string-keyed data properties, in property
  order, with \<open>Object.prototype\<close> as its prototype. Proxies, accessors, symbol keys and
  other prototypes do not occur in such values, so the guards of the code against them
  hold for every value of the model and are not written out. A number is an integer
  \<open>JNum\<close> or, when it is not integral (a fraction, or an infinity out of the range of
  doubles), a \<open>JDec\<close> with its text; integers are not rounded to 53 bits.
\<close>

datatype jsval =
    JUndef
  | JNull
  | JBool bool
  | JNum int
  | JDec string
  | JStr string
  | JArr "jsval list"
  | JObj "(string \<times> jsval) list"

subsection \<open>Properties\<close>

text \<open>\<open>v.key\<close> and \<open>v?.key\<close> for the keys the code reads, none of which is inherited.\<close>

fun getProp :: "jsval \<Rightarrow> string \<Rightarrow> jsval" where
  "getProp (JObj ps) k = (case map_of ps k of Some v \<Rightarrow> v | None \<Rightarrow> JUndef)"
| "getProp _ k = JUndef"

fun hasProp :: "jsval \<Rightarrow> string \<Rightarrow> bool" where
  "hasProp (JObj ps) k = (k \<in> fst ` set ps)"
| "hasProp _ k = False"

fun own_keys :: "jsval \<Rightarrow> string list" where
  "own_keys (JObj ps) = map fst ps"
| "own_keys _ = []"

text \<open>\<open>v !== null && typeof v === 'object' && !Array.isArray(v)\<close>\<close>

fun is_object :: "jsval \<Rightarrow> bool" where
  "is_object (JObj ps) = True"
| "is_object _ = False"

fun str_of :: "jsval \<Rightarrow> string option" where
  "str_of (JStr s) = Some s"
| "str_of _ = None"

fun int_of :: "jsval \<Rightarrow> int option" where
  "int_of (JNum i) = Some i"
| "int_of _ = None"

fun arr_of :: "jsval \<Rightarrow> jsval list option" where
  "arr_of (JArr vs) = Some vs"
| "arr_of _ = None"

lemma str_of_Some [simp]: "str_of v = Some s \<longleftrightarrow> v = JStr s"
  by (cases v) auto

lemma int_of_Some [simp]: "int_of v = Some i \<longleftrightarrow> v = JNum i"
  by (cases v) auto

lemma arr_of_Some [simp]: "arr_of v = Some vs \<longleftrightarrow> v = JArr vs"
  by (cases v) auto

lemma is_object_iff: "is_object v \<longleftrightarrow> (\<exists>ps. v = JObj ps)"
  by (cases v) auto

text \<open>Defining a property: an existing key keeps its place. \<open>out[key] = v\<close> on an object
  literal is \<open>obj_assign\<close>: the key \<open>__proto__\<close> runs the inherited setter and defines
  no own property.\<close>

fun obj_define :: "(string \<times> 'v) list \<Rightarrow> string \<Rightarrow> 'v \<Rightarrow> (string \<times> 'v) list" where
  "obj_define [] k v = [(k, v)]"
| "obj_define ((k', v') # ps) k v =
     (if k' = k then (k, v) # ps else (k', v') # obj_define ps k v)"

definition obj_assign :: "(string \<times> 'v) list \<Rightarrow> string \<Rightarrow> 'v \<Rightarrow> (string \<times> 'v) list" where
  "obj_assign ps k v = (if k = ''__proto__'' then ps else obj_define ps k v)"

text \<open>\<open>{ ...obj, key: v }\<close>\<close>

fun withProp :: "jsval \<Rightarrow> string \<Rightarrow> jsval \<Rightarrow> jsval" where
  "withProp (JObj ps) k v = JObj (obj_define ps k v)"
| "withProp _ k v = JObj [(k, v)]"

lemma keys_obj_define:
  "map fst (obj_define ps k v) = (if k \<in> fst ` set ps then map fst ps else map fst ps @ [k])"
  by (induction ps k v rule: obj_define.induct) auto

lemma obj_define_fresh: "k \<notin> fst ` set ps \<Longrightarrow> obj_define ps k v = ps @ [(k, v)]"
  by (induction ps k v rule: obj_define.induct) auto

lemma map_of_obj_define: "map_of (obj_define ps k v) = (map_of ps)(k \<mapsto> v)"
  by (induction ps k v rule: obj_define.induct) (auto simp: fun_eq_iff)

text \<open>Property order: array-index keys first, ascending, then the others as inserted.\<close>

definition is_array_index :: "string \<Rightarrow> bool" where
  "is_array_index k \<longleftrightarrow> all_digits k \<and> (k = ''0'' \<or> hd k \<noteq> CHR ''0'') \<and> read_nat k 0 < 4294967295"

definition js_order :: "(string \<times> jsval) list \<Rightarrow> (string \<times> jsval) list" where
  "js_order ps = sort_key (\<lambda>(k, _). read_nat k 0) (filter (is_array_index \<circ> fst) ps)
                   @ filter (Not \<circ> is_array_index \<circ> fst) ps"

lemma js_order_no_index:
  "\<forall>k \<in> fst ` set ps. \<not> is_array_index k \<Longrightarrow> js_order ps = ps"
proof -
  assume "\<forall>k \<in> fst ` set ps. \<not> is_array_index k"
  then have "filter (is_array_index \<circ> fst) ps = []" "filter (Not \<circ> is_array_index \<circ> fst) ps = ps"
    by (auto simp: filter_empty_conv filter_id_conv)
  then show ?thesis by (simp add: js_order_def)
qed

lemma js_order_named:
  "list_all (\<lambda>p. fst p \<noteq> [] \<and> \<not> is_digit (hd (fst p))) ps \<Longrightarrow> js_order ps = ps"
  by (rule js_order_no_index)
     (auto simp: list_all_iff is_array_index_def all_digits_def dest!: bspec dest: hd_in_set)

subsection \<open>JSON.stringify\<close>

definition lower_hex :: "nat \<Rightarrow> char" where
  "lower_hex n = (if n < 10 then char_of (48 + n) else char_of (87 + n))"

definition json_char :: "char \<Rightarrow> string" where
  "json_char c =
     (if c = CHR 0x22 then [CHR 0x5C, CHR 0x22]
      else if code c = 92 then [CHR 0x5C, CHR 0x5C]
      else if code c = 8 then [CHR 0x5C, CHR ''b'']
      else if code c = 9 then [CHR 0x5C, CHR ''t'']
      else if code c = 10 then [CHR 0x5C, CHR ''n'']
      else if code c = 12 then [CHR 0x5C, CHR ''f'']
      else if code c = 13 then [CHR 0x5C, CHR ''r'']
      else if code c < 32 then [CHR 0x5C, CHR ''u'', CHR ''0'', CHR ''0'',
                                lower_hex (code c div 16), lower_hex (code c mod 16)]
      else [c])"

definition json_escape :: "string \<Rightarrow> string" where
  "json_escape s = concat (map json_char s)"

definition json_quote :: "string \<Rightarrow> string" where
  "json_quote s = [CHR 0x22] @ json_escape s @ [CHR 0x22]"

fun stringify :: "jsval \<Rightarrow> string"
  and stringify_elems :: "jsval list \<Rightarrow> string list"
  and stringify_members :: "(string \<times> jsval) list \<Rightarrow> string list" where
  "stringify JUndef = ''null''"
| "stringify JNull = ''null''"
| "stringify (JBool b) = (if b then ''true'' else ''false'')"
| "stringify (JNum i) = show_int i"
| "stringify (JDec t) = t"
| "stringify (JStr s) = json_quote s"
| "stringify (JArr vs) = ''['' @ joinWith '','' (stringify_elems vs) @ '']''"
| "stringify (JObj ps) = ''{'' @ joinWith '','' (stringify_members ps) @ ''}''"
| "stringify_elems [] = []"
| "stringify_elems (v # vs) = stringify v # stringify_elems vs"
| "stringify_members [] = []"
| "stringify_members ((k, v) # ps) =
     (if v = JUndef then stringify_members ps
      else (json_quote k @ '':'' @ stringify v) # stringify_members ps)"

subsection \<open>JSON.parse\<close>

fun skip_ws :: "string \<Rightarrow> string" where
  "skip_ws [] = []"
| "skip_ws (c # cs) = (if code c \<in> {32, 9, 10, 13} then skip_ws cs else c # cs)"

text \<open>The UTF-8 bytes of a code point; a lone surrogate takes three bytes.\<close>

definition utf8_of :: "nat \<Rightarrow> string" where
  "utf8_of n =
     (if n < 128 then [char_of n]
      else if n < 2048 then [char_of (192 + n div 64), char_of (128 + n mod 64)]
      else if n < 65536 then
        [char_of (224 + n div 4096), char_of (128 + n div 64 mod 64), char_of (128 + n mod 64)]
      else [char_of (240 + n div 262144), char_of (128 + n div 4096 mod 64),
            char_of (128 + n div 64 mod 64), char_of (128 + n mod 64)])"

fun hex4 :: "string \<Rightarrow> (nat \<times> string) option" where
  "hex4 (a # b # c # d # cs) =
     (if is_hex a \<and> is_hex b \<and> is_hex c \<and> is_hex d
      then Some (((hex_val a * 16 + hex_val b) * 16 + hex_val c) * 16 + hex_val d, cs) else None)"
| "hex4 _ = None"

definition low_surrogate :: "string \<Rightarrow> (nat \<times> string) option" where
  "low_surrogate s = (case s of
       b # u # cs \<Rightarrow> if code b = 92 \<and> u = CHR ''u'' then
           (case hex4 cs of Some (n, r) \<Rightarrow> if 56320 \<le> n \<and> n < 57344 then Some (n, r) else None
            | None \<Rightarrow> None) else None
     | _ \<Rightarrow> None)"

definition unicode_escape :: "string \<Rightarrow> (string \<times> string) option" where
  "unicode_escape s = (case hex4 s of
       None \<Rightarrow> None
     | Some (n, r) \<Rightarrow>
         (if 55296 \<le> n \<and> n < 56320 then
            (case low_surrogate r of
               Some (m, r') \<Rightarrow> Some (utf8_of (65536 + (n - 55296) * 1024 + (m - 56320)), r')
             | None \<Rightarrow> Some (utf8_of n, r))
          else Some (utf8_of n, r)))"

definition simple_escape :: "char \<Rightarrow> char option" where
  "simple_escape e =
     (if e = CHR 0x22 \<or> code e = 92 \<or> e = CHR ''/'' then Some e
      else if e = CHR ''b'' then Some (CHR 0x08) else if e = CHR ''f'' then Some (CHR 0x0C)
      else if e = CHR ''n'' then Some (CHR 0x0A) else if e = CHR ''r'' then Some (CHR 0x0D)
      else if e = CHR ''t'' then Some (CHR 0x09) else None)"

lemma hex4_length: "hex4 s = Some (n, r) \<Longrightarrow> length r < length s"
  by (cases s rule: hex4.cases) (auto split: if_splits)

lemma unicode_escape_length: "unicode_escape s = Some (u, r) \<Longrightarrow> length r < length s"
  by (auto simp: unicode_escape_def low_surrogate_def dest!: hex4_length
      split: option.splits if_splits list.splits prod.splits)

text \<open>The rest of a string literal, after its opening quote.\<close>

function parse_chars :: "string \<Rightarrow> (string \<times> string) option" where
  "parse_chars [] = None"
| "parse_chars (c # cs) =
     (if c = CHR 0x22 then Some ([], cs)
      else if code c < 32 then None
      else if code c = 92 then
        (case cs of
           [] \<Rightarrow> None
         | e # es \<Rightarrow>
             (if e = CHR ''u'' then
                (case unicode_escape es of
                   None \<Rightarrow> None
                 | Some (u, r) \<Rightarrow> map_option (\<lambda>(s, t). (u @ s, t)) (parse_chars r))
              else (case simple_escape e of
                   None \<Rightarrow> None
                 | Some d \<Rightarrow> map_option (\<lambda>(s, t). (d # s, t)) (parse_chars es))))
      else map_option (\<lambda>(s, t). (c # s, t)) (parse_chars cs))"
  by pat_completeness auto
termination
  by (relation "measure length") (auto dest: unicode_escape_length)

definition number_value :: "bool \<Rightarrow> string \<Rightarrow> string \<Rightarrow> int \<Rightarrow> string \<Rightarrow> jsval" where
  "number_value neg ds fs ex txt =
     (let m = int (read_nat (ds @ fs) 0); e = ex - int (length fs);
          s = (if neg then - 1 else 1 :: int)
      in if 0 \<le> e then
           (if (if int (length ds) + ex \<le> 308 then True else m * 10 ^ nat e < 2 ^ 1024)
            then JNum (s * m * 10 ^ nat e)
            else JDec (if neg then ''-Infinity'' else ''Infinity''))
         else if m mod 10 ^ nat (- e) = 0 then JNum (s * (m div 10 ^ nat (- e)))
         else JDec txt)"

definition parse_exponent :: "string \<Rightarrow> (int \<times> string) option" where
  "parse_exponent s = (case s of
       c # cs \<Rightarrow>
         if c = CHR ''e'' \<or> c = CHR ''E'' then
           (let (neg, t) = (case cs of
                  d # ds \<Rightarrow> if d = CHR ''-'' then (True, ds)
                            else if d = CHR ''+'' then (False, ds) else (False, cs)
                | [] \<Rightarrow> (False, cs));
                n = takeWhile is_digit t
            in if n = [] then None
               else Some ((if neg then - 1 else 1) * int (read_nat n 0), dropWhile is_digit t))
         else Some (0, s)
     | [] \<Rightarrow> Some (0, s))"

definition parse_number :: "string \<Rightarrow> (jsval \<times> string) option" where
  "parse_number s =
     (let neg = (s \<noteq> [] \<and> hd s = CHR ''-''); s1 = (if neg then tl s else s);
          ds = takeWhile is_digit s1; s2 = dropWhile is_digit s1
      in if ds = [] \<or> (hd ds = CHR ''0'' \<and> length ds > 1) then None
         else (case (case s2 of
                  c # cs \<Rightarrow> if c = CHR ''.'' then
                      (if takeWhile is_digit cs = [] then None
                       else Some (takeWhile is_digit cs, dropWhile is_digit cs))
                    else Some ([], s2)
                | [] \<Rightarrow> Some ([], s2)) of
            None \<Rightarrow> None
          | Some (fs, s3) \<Rightarrow>
              (case parse_exponent s3 of
                 None \<Rightarrow> None
               | Some (ex, s4) \<Rightarrow>
                   Some (number_value neg ds fs ex (take (length s - length s4) s), s4))))"

definition parse_literal :: "string \<Rightarrow> jsval \<Rightarrow> string \<Rightarrow> (jsval \<times> string) option" where
  "parse_literal lit v s = (if prefix lit s then Some (v, drop (length lit) s) else None)"

fun define_all :: "(string \<times> jsval) list \<Rightarrow> (string \<times> jsval) list \<Rightarrow> (string \<times> jsval) list" where
  "define_all acc [] = acc"
| "define_all acc ((k, v) # ps) = define_all (obj_define acc k v) ps"

fun parse_value :: "nat \<Rightarrow> string \<Rightarrow> (jsval \<times> string) option"
  and parse_elems :: "nat \<Rightarrow> string \<Rightarrow> (jsval list \<times> string) option"
  and parse_members :: "nat \<Rightarrow> string \<Rightarrow> ((string \<times> jsval) list \<times> string) option" where
  "parse_value 0 s = None"
| "parse_value (Suc n) s =
     (case skip_ws s of
        [] \<Rightarrow> None
      | c # cs \<Rightarrow>
          (if c = CHR ''{'' then
             (case skip_ws cs of
                [] \<Rightarrow> None
              | d # ds \<Rightarrow>
                  (if d = CHR ''}'' then Some (JObj [], ds)
                   else map_option (\<lambda>(ps, r). (JObj (js_order (define_all [] ps)), r))
                          (parse_members n (d # ds))))
           else if c = CHR ''['' then
             (case skip_ws cs of
                [] \<Rightarrow> None
              | d # ds \<Rightarrow>
                  (if d = CHR '']'' then Some (JArr [], ds)
                   else map_option (\<lambda>(vs, r). (JArr vs, r)) (parse_elems n (d # ds))))
           else if c = CHR 0x22 then map_option (\<lambda>(t, r). (JStr t, r)) (parse_chars cs)
           else if c = CHR ''t'' then parse_literal ''true'' (JBool True) (c # cs)
           else if c = CHR ''f'' then parse_literal ''false'' (JBool False) (c # cs)
           else if c = CHR ''n'' then parse_literal ''null'' JNull (c # cs)
           else parse_number (c # cs)))"
| "parse_elems 0 s = None"
| "parse_elems (Suc n) s =
     (case parse_value n s of
        None \<Rightarrow> None
      | Some (v, r) \<Rightarrow>
          (case skip_ws r of
             [] \<Rightarrow> None
           | c # cs \<Rightarrow>
               (if c = CHR '','' then map_option (\<lambda>(vs, t). (v # vs, t)) (parse_elems n cs)
                else if c = CHR '']'' then Some ([v], cs) else None)))"
| "parse_members 0 s = None"
| "parse_members (Suc n) s =
     (case skip_ws s of
        [] \<Rightarrow> None
      | q # qs \<Rightarrow>
          (if q \<noteq> CHR 0x22 then None
           else (case parse_chars qs of
                   None \<Rightarrow> None
                 | Some (k, r) \<Rightarrow>
                     (case skip_ws r of
                        [] \<Rightarrow> None
                      | d # ds \<Rightarrow>
                          (if d \<noteq> CHR '':'' then None
                           else (case parse_value n ds of
                                   None \<Rightarrow> None
                                 | Some (v, t) \<Rightarrow>
                                     (case skip_ws t of
                                        [] \<Rightarrow> None
                                      | c # cs \<Rightarrow>
                                          (if c = CHR '','' then
                                             map_option (\<lambda>(ps, u). ((k, v) # ps, u)) (parse_members n cs)
                                           else if c = CHR ''}'' then Some ([(k, v)], cs)
                                           else None)))))))) "

text \<open>\<open>None\<close> is the \<open>SyntaxError\<close>. Every recursive call either consumes a character or
  starts the next value, so twice the length is enough fuel (\<open>parse_fuel\<close> below).\<close>

definition json_parse :: "string \<Rightarrow> jsval option" where
  "json_parse s =
     (case parse_value (2 * length s + 1) s of
        Some (v, r) \<Rightarrow> if skip_ws r = [] then Some v else None
      | None \<Rightarrow> None)"

end
