(* ===== verification/CredentialClasses.thy ===== *)
theory CredentialClasses
  imports JsValue
begin

text \<open>
  The registry of credential classes (\<open>credential-classes.js\<close>) and the placeholder and
  response constants (\<open>constants.js\<close>) every other part of the bridge refers to.
\<close>

subsection \<open>The registry\<close>

definition SUPPORTED_CREDENTIAL_CLASSES :: "string list" where
  "SUPPORTED_CREDENTIAL_CLASSES =
     [''http_bearer'', ''http_api_key_header'', ''http_basic'', ''onecli_proxy'',
      ''browser_form_login'', ''http_api_key_query'', ''ssh'', ''ftp'']"

definition REJECTED_CREDENTIAL_CLASSES :: "string list" where
  "REJECTED_CREDENTIAL_CLASSES = [''oauth'', ''mfa_interactive'', ''sms'', ''email'', ''env_inject'']"

definition CREDENTIAL_CLASS_BY_VERSION :: "int \<Rightarrow> string option" where
  "CREDENTIAL_CLASS_BY_VERSION = map_of
     [(1, ''http_bearer''), (2, ''http_api_key_header''), (3, ''http_basic''),
      (4, ''onecli_proxy''), (5, ''browser_form_login''), (6, ''http_api_key_query''),
      (7, ''ssh''), (8, ''ftp'')]"

definition HTTP_INJECTION_CREDENTIAL_CLASSES :: "string list" where
  "HTTP_INJECTION_CREDENTIAL_CLASSES =
     [''http_bearer'', ''http_api_key_header'', ''http_basic'', ''http_api_key_query'']"

definition SENTINEL_CREDENTIAL_CLASSES :: "string list" where
  "SENTINEL_CREDENTIAL_CLASSES = [''http_bearer'', ''http_api_key_header'', ''http_api_key_query'']"

definition BASIC_SHAPED_CREDENTIAL_CLASSES :: "string list" where
  "BASIC_SHAPED_CREDENTIAL_CLASSES = [''http_basic'', ''browser_form_login'', ''ssh'', ''ftp'']"

definition SESSION_BROKER_CREDENTIAL_CLASSES :: "string list" where
  "SESSION_BROKER_CREDENTIAL_CLASSES = [''browser_form_login'', ''ssh'', ''ftp'']"

fun isRejectedCredentialClass :: "jsval \<Rightarrow> bool" where
  "isRejectedCredentialClass (JStr s) = (s \<in> set REJECTED_CREDENTIAL_CLASSES)"
| "isRejectedCredentialClass _ = False"

fun isSupportedCredentialClass :: "jsval \<Rightarrow> bool" where
  "isSupportedCredentialClass (JStr s) = (s \<in> set SUPPORTED_CREDENTIAL_CLASSES)"
| "isSupportedCredentialClass _ = False"

lemmas class_list_defs = SUPPORTED_CREDENTIAL_CLASSES_def REJECTED_CREDENTIAL_CLASSES_def
  CREDENTIAL_CLASS_BY_VERSION_def HTTP_INJECTION_CREDENTIAL_CLASSES_def
  SENTINEL_CREDENTIAL_CLASSES_def BASIC_SHAPED_CREDENTIAL_CLASSES_def
  SESSION_BROKER_CREDENTIAL_CLASSES_def

subsection \<open>Constants\<close>

definition CREDENTIAL_PLACEHOLDER :: string where
  "CREDENTIAL_PLACEHOLDER = ''{{credential}}''"

definition USERNAME_PLACEHOLDER :: string where
  "USERNAME_PLACEHOLDER = ''{{username}}''"

definition PASSWORD_PLACEHOLDER :: string where
  "PASSWORD_PLACEHOLDER = ''{{password}}''"

definition FAKE_API_CONSTANT_BODY :: jsval where
  "FAKE_API_CONSTANT_BODY = JObj
     [(''ok'', JBool True), (''service'', JStr ''fake-sample-api''),
      (''message'', JStr ''constant-response-from-fake-sample-api'')]"

text \<open>The 32 random bytes are an argument.\<close>

definition generateFakeSentinel :: "bytes \<Rightarrow> string" where
  "generateFakeSentinel random = ''bw-fake-'' @ base64url random"

end
