(* ===== verification/Url.thy ===== *)
theory Url
  imports Encoding
begin

text \<open>
  The \<open>URL\<close> class of the platform for the schemes the bridge uses, \<open>http\<close> and \<open>https\<close>:
  an executable model of the WHATWG parser (input clean-up, user information, ports, IPv4
  hosts in all their spellings, dot segments, the backslash as a slash, resolution against a
  base) and of the attributes the code reads. A URL of another scheme is kept by its scheme
  only, which is all the code looks at. IPv6 literals and non-ASCII host names are rejected
  here, where the platform would serialize them; no host the bridge accepts is one.
\<close>

record url =
  u_scheme :: string
  u_username :: string
  u_password :: string
  u_host :: string
  u_port :: "nat option"
  u_path :: "string list"
  u_query :: "string option"
  u_fragment :: "string option"

subsection \<open>Percent-encode sets\<close>

definition in_c0_set :: "char \<Rightarrow> bool" where
  "in_c0_set c \<longleftrightarrow> code c < 32 \<or> 126 < code c"

definition in_fragment_set :: "char \<Rightarrow> bool" where
  "in_fragment_set c \<longleftrightarrow> in_c0_set c \<or> code c \<in> {32, 34, 60, 62, 96}"

definition in_query_set :: "char \<Rightarrow> bool" where
  "in_query_set c \<longleftrightarrow> in_c0_set c \<or> code c \<in> {32, 34, 35, 60, 62, 39}"

definition in_path_set :: "char \<Rightarrow> bool" where
  "in_path_set c \<longleftrightarrow> in_c0_set c \<or> code c \<in> {32, 34, 35, 60, 62, 63, 94, 96, 123, 125}"

definition in_userinfo_set :: "char \<Rightarrow> bool" where
  "in_userinfo_set c \<longleftrightarrow> in_path_set c \<or> code c \<in> {47, 58, 59, 61, 64, 91, 92, 93, 124}"

definition encode_set :: "(char \<Rightarrow> bool) \<Rightarrow> string \<Rightarrow> string" where
  "encode_set P s = concat (map (\<lambda>c. if P c then pct c else [c]) s)"

lemma encode_set_plain: "\<forall>c \<in> set s. \<not> P c \<Longrightarrow> encode_set P s = s"
  by (induction s) (auto simp: encode_set_def)

subsection \<open>Hosts\<close>

definition ipv4_number :: "string \<Rightarrow> nat option" where
  "ipv4_number s =
     (if s = [] then None
      else if prefix ''0x'' s \<or> prefix ''0X'' s then
        (if list_all is_hex (drop 2 s) then Some (foldl (\<lambda>a c. 16 * a + hex_val c) 0 (drop 2 s)) else None)
      else if 2 \<le> length s \<and> hd s = CHR ''0'' then
        (if list_all (\<lambda>c. 48 \<le> code c \<and> code c \<le> 55) (tl s)
         then Some (foldl (\<lambda>a c. 8 * a + (code c - 48)) 0 (tl s)) else None)
      else if list_all is_digit s then Some (read_nat s 0) else None)"

definition host_labels :: "string \<Rightarrow> string list" where
  "host_labels s = (let ps = splitOn (CHR ''.'') s
                    in if last ps = [] \<and> 1 < length ps then butlast ps else ps)"

definition ends_in_number :: "string \<Rightarrow> bool" where
  "ends_in_number s = (let l = last (host_labels s)
                       in (l \<noteq> [] \<and> list_all is_digit l) \<or> ipv4_number l \<noteq> None)"

fun show_dotted :: "nat list \<Rightarrow> string" where
  "show_dotted ns = joinWith ''.'' (map show_nat ns)"

definition ipv4_parse :: "string \<Rightarrow> string option" where
  "ipv4_parse s =
     (let ns = map ipv4_number (host_labels s); n = length ns
      in if 4 < n \<or> None \<in> set ns then None
         else (let vs = map the ns; lst = last vs; ini = butlast vs
               in if list_ex (\<lambda>v. 255 < v) ini \<or> 256 ^ (5 - n) \<le> lst then None
                  else (let tot = lst + sum_list (map2 (\<lambda>v i. v * 256 ^ (3 - i)) ini [0..<n - 1])
                        in Some (show_dotted [tot div 16777216, tot div 65536 mod 256,
                                              tot div 256 mod 256, tot mod 256]))))"

definition forbidden_domain_char :: "char \<Rightarrow> bool" where
  "forbidden_domain_char c \<longleftrightarrow>
     code c \<le> 32 \<or> 127 \<le> code c \<or> c \<in> set ''#/:<>?@[]^|%'' \<or> code c = 92"

definition host_parse :: "string \<Rightarrow> string option" where
  "host_parse s =
     (let d = toLowerCase (percent_decode s)
      in if d = [] \<or> list_ex forbidden_domain_char d then None
         else if ends_in_number d then ipv4_parse d else Some d)"

subsection \<open>Paths\<close>

definition single_dot :: "string \<Rightarrow> bool" where
  "single_dot s \<longleftrightarrow> s = ''.'' \<or> toLowerCase s = ''%2e''"

definition double_dot :: "string \<Rightarrow> bool" where
  "double_dot s \<longleftrightarrow> s = ''..'' \<or> toLowerCase s \<in> {''.%2e'', ''%2e.'', ''%2e%2e''}"

definition is_slash :: "char \<Rightarrow> bool" where
  "is_slash c \<longleftrightarrow> c = CHR ''/'' \<or> code c = 92"

definition path_split :: "string \<Rightarrow> string list" where
  "path_split s = splitOn (CHR ''/'') (map (\<lambda>c. if is_slash c then CHR ''/'' else c) s)"

fun add_segments :: "string list \<Rightarrow> string list \<Rightarrow> string list" where
  "add_segments acc [] = acc"
| "add_segments acc (s # rest) =
     (if double_dot s then
        (if rest = [] then butlast acc @ [[]] else add_segments (butlast acc) rest)
      else if single_dot s then
        (if rest = [] then acc @ [[]] else add_segments acc rest)
      else add_segments (acc @ [encode_set in_path_set s]) rest)"

definition skip_slash :: "string \<Rightarrow> string" where
  "skip_slash s = (case s of c # cs \<Rightarrow> if is_slash c then cs else s | [] \<Rightarrow> s)"

subsection \<open>The parser\<close>

definition url_input :: "string \<Rightarrow> string" where
  "url_input s = filter (\<lambda>c. code c \<notin> {9, 10, 13})
     (rev (dropWhile (\<lambda>c. code c \<le> 32) (rev (dropWhile (\<lambda>c. code c \<le> 32) s))))"

definition scheme_char :: "char \<Rightarrow> bool" where
  "scheme_char c \<longleftrightarrow> is_alpha c \<or> is_digit c \<or> c \<in> set ''+-.''"

definition split_scheme :: "string \<Rightarrow> (string \<times> string) option" where
  "split_scheme s =
     (let a = takeWhile scheme_char s; r = dropWhile scheme_char s
      in if a \<noteq> [] \<and> is_alpha (hd a) \<and> prefix '':'' r then Some (toLowerCase a, tl r) else None)"

definition default_port :: "string \<Rightarrow> nat" where
  "default_port sch = (if sch = ''https'' then 443 else 80)"

text \<open>\<open>path?query#fragment\<close>, the path resolved against the segments \<open>acc\<close>.\<close>

definition parse_tail :: "url \<Rightarrow> string list \<Rightarrow> string \<Rightarrow> url" where
  "parse_tail u acc s =
     (let nf = takeWhile (\<lambda>c. c \<noteq> CHR ''#'') s; f = dropWhile (\<lambda>c. c \<noteq> CHR ''#'') s;
          p = takeWhile (\<lambda>c. c \<noteq> CHR ''?'') nf; q = dropWhile (\<lambda>c. c \<noteq> CHR ''?'') nf
      in u\<lparr>u_path := add_segments acc (path_split p),
           u_query := (if q = [] then None else Some (encode_set in_query_set (tl q))),
           u_fragment := (if f = [] then None else Some (encode_set in_fragment_set (tl f)))\<rparr>)"

definition parse_port :: "string \<Rightarrow> string \<Rightarrow> nat option option" where
  "parse_port sch s =
     (if s = [] then Some None
      else if list_all is_digit s \<and> read_nat s 0 \<le> 65535 then
        Some (if read_nat s 0 = default_port sch then None else Some (read_nat s 0))
      else None)"

text \<open>The user information ends at the last at-sign of the authority.\<close>

definition split_userinfo :: "string \<Rightarrow> string option \<times> string" where
  "split_userinfo a =
     (if CHR ''@'' \<in> set a then
        (Some (joinWith ''@'' (butlast (splitOn (CHR ''@'') a))), last (splitOn (CHR ''@'') a))
      else (None, a))"

definition parse_authority :: "string \<Rightarrow> string \<Rightarrow> url option" where
  "parse_authority sch s0 =
     (let s = dropWhile is_slash s0;
          a = takeWhile (\<lambda>c. \<not> is_slash c \<and> c \<noteq> CHR ''?'' \<and> c \<noteq> CHR ''#'') s;
          (ui, hp) = split_userinfo a;
          user = (case ui of None \<Rightarrow> [] | Some t \<Rightarrow> takeWhile (\<lambda>c. c \<noteq> CHR '':'') t);
          pass = (case ui of None \<Rightarrow> [] | Some t \<Rightarrow> drop 1 (dropWhile (\<lambda>c. c \<noteq> CHR '':'') t));
          h = takeWhile (\<lambda>c. c \<noteq> CHR '':'') hp;
          pt = drop 1 (dropWhile (\<lambda>c. c \<noteq> CHR '':'') hp)
      in case host_parse h of
           None \<Rightarrow> None
         | Some host \<Rightarrow>
             (case parse_port sch pt of
                None \<Rightarrow> None
              | Some port \<Rightarrow>
                  Some (parse_tail
                    \<lparr>u_scheme = sch, u_username = encode_set in_userinfo_set user,
                     u_password = encode_set in_userinfo_set pass, u_host = host, u_port = port,
                     u_path = [], u_query = None, u_fragment = None\<rparr>
                    [] (skip_slash (drop (length a) s)))))"

definition parse_relative :: "url \<Rightarrow> string \<Rightarrow> url option" where
  "parse_relative b s =
     (case s of
        [] \<Rightarrow> Some (b\<lparr>u_fragment := None\<rparr>)
      | c # cs \<Rightarrow>
          (if is_slash c then
             (if cs \<noteq> [] \<and> is_slash (hd cs) then parse_authority (u_scheme b) s
              else Some (parse_tail b [] cs))
           else if c = CHR ''?'' then Some ((parse_tail b [] s)\<lparr>u_path := u_path b\<rparr>)
           else if c = CHR ''#'' then
             Some ((parse_tail b [] s)\<lparr>u_path := u_path b, u_query := u_query b\<rparr>)
           else Some (parse_tail b (butlast (u_path b)) s)))"

definition other_scheme :: "string \<Rightarrow> url" where
  "other_scheme sch =
     \<lparr>u_scheme = sch, u_username = [], u_password = [], u_host = [], u_port = None,
      u_path = [], u_query = None, u_fragment = None\<rparr>"

text \<open>\<open>new URL(s)\<close> and \<open>new URL(s, base)\<close>; \<open>None\<close> is the \<open>TypeError\<close>.\<close>

definition url_parse :: "url option \<Rightarrow> string \<Rightarrow> url option" where
  "url_parse base s0 =
     (let s = url_input s0
      in case split_scheme s of
           Some (sch, rest) \<Rightarrow>
             (if sch = ''http'' \<or> sch = ''https'' then
                (case base of
                   Some b \<Rightarrow> if u_scheme b = sch \<and> \<not> prefix ''//'' rest
                             then parse_relative b rest else parse_authority sch rest
                 | None \<Rightarrow> parse_authority sch rest)
              else Some (other_scheme sch))
         | None \<Rightarrow> (case base of None \<Rightarrow> None | Some b \<Rightarrow> parse_relative b s))"

definition newURL :: "string \<Rightarrow> url option" where
  "newURL s = url_parse None s"

definition newURL_at :: "string \<Rightarrow> string \<Rightarrow> url option" where
  "newURL_at s base = (case newURL base of None \<Rightarrow> None | Some b \<Rightarrow> url_parse (Some b) s)"

subsection \<open>Attributes\<close>

definition protocol :: "url \<Rightarrow> string" where
  "protocol u = u_scheme u @ '':''"

definition port_str :: "url \<Rightarrow> string" where
  "port_str u = (case u_port u of None \<Rightarrow> [] | Some n \<Rightarrow> show_nat n)"

definition host_port :: "url \<Rightarrow> string" where
  "host_port u = u_host u @ (case u_port u of None \<Rightarrow> [] | Some n \<Rightarrow> '':'' @ show_nat n)"

definition origin :: "url \<Rightarrow> string" where
  "origin u = u_scheme u @ ''://'' @ host_port u"

definition pathname :: "url \<Rightarrow> string" where
  "pathname u = concat (map (\<lambda>s. ''/'' @ s) (u_path u))"

definition search :: "url \<Rightarrow> string" where
  "search u = (case u_query u of None \<Rightarrow> [] | Some q \<Rightarrow> if q = [] then [] else ''?'' @ q)"

definition hash :: "url \<Rightarrow> string" where
  "hash u = (case u_fragment u of None \<Rightarrow> [] | Some f \<Rightarrow> if f = [] then [] else ''#'' @ f)"

definition href :: "url \<Rightarrow> string" where
  "href u = u_scheme u @ ''://'' @
     (if u_username u \<noteq> [] \<or> u_password u \<noteq> [] then
        u_username u @ (if u_password u \<noteq> [] then '':'' @ u_password u else []) @ ''@''
      else []) @
     host_port u @ pathname u @
     (case u_query u of None \<Rightarrow> [] | Some q \<Rightarrow> ''?'' @ q) @
     (case u_fragment u of None \<Rightarrow> [] | Some f \<Rightarrow> ''#'' @ f)"

subsection \<open>Loopback origins survive serialization\<close>

text \<open>The policies store an origin as \<open>url.href.replace(/\/$/, '')\<close> and parse it again later.\<close>

lemma url_input_id: "\<forall>c \<in> set s. 32 < code c \<Longrightarrow> url_input s = s"
proof -
  assume a: "\<forall>c \<in> set s. 32 < code c"
  have d: "dropWhile (\<lambda>c. code c \<le> 32) t = t" if "\<forall>c \<in> set t. 32 < code c" for t
    using that by (cases t) auto
  have "filter (\<lambda>c. code c \<notin> {9, 10, 13}) s = s"
    using a by (auto simp: filter_id_conv)
  with a show ?thesis by (simp add: url_input_def d)
qed

lemma show_nat_chars: "c \<in> set (show_nat n) \<Longrightarrow> 48 \<le> code c \<and> code c \<le> 57"
  using show_nat_digits [of n] by (auto simp: list_all_iff is_digit_def)

definition loopback_url :: "string \<Rightarrow> nat \<Rightarrow> string option \<Rightarrow> string option \<Rightarrow> url" where
  "loopback_url h p q f =
     \<lparr>u_scheme = ''http'', u_username = [], u_password = [], u_host = h, u_port = Some p,
      u_path = [[]], u_query = q, u_fragment = f\<rparr>"

lemma split_scheme_http: "split_scheme (''http://'' @ s) = Some (''http'', ''//'' @ s)"
  by (simp add: split_scheme_def scheme_char_def is_alpha_def is_lower_def is_upper_def is_digit_def
      toLowerCase_def lower_char_def code_def)

definition plain_authority :: "string \<Rightarrow> bool" where
  "plain_authority a \<longleftrightarrow> (\<forall>c \<in> set a. is_alpha c \<or> is_digit c \<or> c = CHR ''.'' \<or> c = CHR ''-'' \<or> c = CHR '':'')"

lemma plain_char:
  assumes "is_alpha c \<or> is_digit c \<or> c = CHR ''.'' \<or> c = CHR ''-'' \<or> c = CHR '':''"
  shows "\<not> is_slash c" "c \<noteq> CHR ''?''" "c \<noteq> CHR ''#''" "c \<noteq> CHR ''@''" "32 < code c" "c \<noteq> CHR ''/''"
  using assms by (auto simp: is_slash_def is_alpha_def is_lower_def is_upper_def is_digit_def code_def)

lemma parse_authority_plain:
  assumes "plain_authority h" "h \<noteq> []" "CHR '':'' \<notin> set h" "host_parse h = Some host"
    "p \<le> 65535" "p \<noteq> default_port sch" "t = [] \<or> is_slash (hd t) \<or> hd t = CHR ''?'' \<or> hd t = CHR ''#''"
  shows "parse_authority sch (''//'' @ h @ '':'' @ show_nat p @ t) =
     Some (parse_tail
        \<lparr>u_scheme = sch, u_username = [], u_password = [], u_host = host, u_port = Some p,
         u_path = [], u_query = None, u_fragment = None\<rparr> [] (skip_slash t))"
proof -
  let ?a = "h @ '':'' @ show_nat p"
  have pa: "plain_authority ?a"
    using assms(1) show_nat_chars [of _ p] by (auto simp: plain_authority_def is_digit_def)
  have no: "\<not> is_slash c \<and> c \<noteq> CHR ''?'' \<and> c \<noteq> CHR ''#''" "c \<noteq> CHR ''@''" if "c \<in> set ?a" for c
  proof -
    have "is_alpha c \<or> is_digit c \<or> c = CHR ''.'' \<or> c = CHR ''-'' \<or> c = CHR '':''"
      using pa that unfolding plain_authority_def by blast
    note plain_char [OF this]
    then show "\<not> is_slash c \<and> c \<noteq> CHR ''?'' \<and> c \<noteq> CHR ''#''" "c \<noteq> CHR ''@''" by simp_all
  qed
  have "\<not> is_slash (hd h)" using no(1) [of "hd h"] assms(2) by simp
  then have s: "dropWhile is_slash (''//'' @ ?a @ t) = ?a @ t"
    using assms(2) by (cases h) (auto simp: is_slash_def)
  have tw: "takeWhile (\<lambda>c. \<not> is_slash c \<and> c \<noteq> CHR ''?'' \<and> c \<noteq> CHR ''#'') (?a @ t) = ?a"
  proof -
    have "takeWhile (\<lambda>c. \<not> is_slash c \<and> c \<noteq> CHR ''?'' \<and> c \<noteq> CHR ''#'') t = []"
      using assms(7) by (cases t) auto
    moreover have "takeWhile (\<lambda>c. \<not> is_slash c \<and> c \<noteq> CHR ''?'' \<and> c \<noteq> CHR ''#'') (?a @ t)
        = ?a @ takeWhile (\<lambda>c. \<not> is_slash c \<and> c \<noteq> CHR ''?'' \<and> c \<noteq> CHR ''#'') t"
      by (rule takeWhile_append2) (rule no(1))
    ultimately show ?thesis by (simp only: append_Nil2)
  qed
  have ui: "split_userinfo ?a = (None, ?a)"
    using no(2) by (auto simp: split_userinfo_def)
  have h: "takeWhile (\<lambda>c. c \<noteq> CHR '':'') ?a = h" "dropWhile (\<lambda>c. c \<noteq> CHR '':'') ?a = '':'' @ show_nat p"
    using assms(3) by (auto simp: takeWhile_append dropWhile_append)
  have port: "parse_port sch (show_nat p) = Some (Some p)"
    using assms(5,6) show_nat_digits by (simp add: parse_port_def)
  have "''//'' @ h @ '':'' @ show_nat p @ t = ''//'' @ ?a @ t" by simp
  show ?thesis
    unfolding parse_authority_def \<open>''//'' @ h @ '':'' @ show_nat p @ t = ''//'' @ ?a @ t\<close> Let_def s tw ui
    using assms(4) port h by (simp add: encode_set_def)
qed

lemma parse_tail_origin:
  "u_path u = [] \<Longrightarrow> parse_tail u [] (skip_slash []) = u\<lparr>u_path := [[]], u_query := None, u_fragment := None\<rparr>"
  "parse_tail u [] (skip_slash ''/?'') = u\<lparr>u_path := [[]], u_query := Some [], u_fragment := None\<rparr>"
  "parse_tail u [] (skip_slash ''/#'') = u\<lparr>u_path := [[]], u_query := None, u_fragment := Some []\<rparr>"
  "parse_tail u [] (skip_slash ''/?#'') = u\<lparr>u_path := [[]], u_query := Some [], u_fragment := Some []\<rparr>"
  by (simp_all add: parse_tail_def skip_slash_def is_slash_def path_split_def encode_set_def
      double_dot_def single_dot_def toLowerCase_def)

lemma host_parse_loopback [simp]:
  "host_parse ''127.0.0.1'' = Some ''127.0.0.1''" "host_parse ''localhost'' = Some ''localhost''"
  by code_simp+

lemma plain_hosts: "plain_authority ''127.0.0.1''" "plain_authority ''localhost''"
  by code_simp+

lemma newURL_loopback:
  assumes "h \<in> {''127.0.0.1'', ''localhost''}" "p \<le> 65535" "p \<noteq> 80"
    "q \<in> {None, Some []}" "f \<in> {None, Some []}"
  shows "newURL (dropTrailingSlash (href (loopback_url h p q f))) = Some (loopback_url h p q f)"
proof -
  obtain t where t: "dropTrailingSlash (href (loopback_url h p q f)) = ''http://'' @ h @ '':'' @ show_nat p @ t"
    and tt: "t \<in> {[], ''/?'', ''/#'', ''/?#''}"
    and tail: "parse_tail \<lparr>u_scheme = ''http'', u_username = [], u_password = [], u_host = h, u_port = Some p,
         u_path = [], u_query = None, u_fragment = None\<rparr> [] (skip_slash t) = loopback_url h p q f"
  proof -
    let ?t = "if q = None \<and> f = None then [] else ''/'' @ (if q = None then [] else ''?'') @ (if f = None then [] else ''#'')"
    have hr: "href (loopback_url h p q f) = ''http://'' @ h @ '':'' @ show_nat p @ ''/'' @ (if q = None then [] else ''?'') @ (if f = None then [] else ''#'')"
      using assms(4,5) by (auto simp: href_def loopback_url_def host_port_def pathname_def)
    have "dropTrailingSlash (href (loopback_url h p q f)) = ''http://'' @ h @ '':'' @ show_nat p @ ?t"
    proof (cases "q = None \<and> f = None")
      case True
      then show ?thesis
        unfolding hr using dropTrailingSlash_append [of "''http://'' @ h @ '':'' @ show_nat p"]
        by (simp only: append_assoc append_Nil2 if_True refl simp_thms)
    next
      case False
      let ?r = "(if q = None then [] else ''?'') @ (if f = None then [] else ''#'')"
      have "?r \<noteq> [] \<and> last ?r \<noteq> CHR ''/''" using False by auto
      then have "dropTrailingSlash (x @ ?r) = x @ ?r" for x
        by (simp add: dropTrailingSlash_def)
      from this [of "''http://'' @ h @ '':'' @ show_nat p @ ''/''"] show ?thesis
        unfolding hr using False by (simp only: append_assoc if_False)
    qed
    moreover have "parse_tail \<lparr>u_scheme = ''http'', u_username = [], u_password = [], u_host = h, u_port = Some p,
         u_path = [], u_query = None, u_fragment = None\<rparr> [] (skip_slash ?t) = loopback_url h p q f"
      using assms(4,5) by (auto simp: parse_tail_origin loopback_url_def)
    ultimately show thesis using that [of ?t] by simp
  qed
  have plain: "plain_authority h" "h \<noteq> []" "CHR '':'' \<notin> set h" "host_parse h = Some h"
    using assms(1) plain_hosts by auto
  have gt: "32 < code c" if "c \<in> set (''http://'' @ h @ '':'' @ show_nat p @ t)" for c
  proof -
    from that consider "c \<in> set (''http://'')" | "c \<in> set h" | "c = CHR '':''" | "c \<in> set (show_nat p)" | "c \<in> set t"
      by auto
    then show ?thesis
    proof cases
      case 2
      then show ?thesis using plain(1) plain_char(5) [of c] by (auto simp: plain_authority_def)
    next
      case 4
      then show ?thesis using show_nat_chars [of c p] by simp
    next
      case 5
      then show ?thesis using tt by (auto simp: code_def)
    qed (auto simp: code_def)
  qed
  have "newURL (''http://'' @ h @ '':'' @ show_nat p @ t) = parse_authority ''http'' (''//'' @ h @ '':'' @ show_nat p @ t)"
    using split_scheme_http [of "h @ '':'' @ show_nat p @ t"]
    by (simp add: newURL_def url_parse_def url_input_id gt del: append_Cons)
  also have "\<dots> = Some (loopback_url h p q f)"
    using parse_authority_plain [OF plain assms(2), of "''http''" t] tt tail assms(3)
    by (auto simp: default_port_def is_slash_def)
  finally show ?thesis by (simp only: t)
qed
end
