(* ===== verification/LiveGate.thy ===== *)
theory LiveGate
  imports CredentialClasses Url
begin

text \<open>
  The operator gate for live browser login (\<open>browser-form-login-live-gate.mjs\<close>). The code
  brands the gates it builds in a \<open>WeakSet\<close>; here a branded gate is a \<open>live_gate\<close> and any
  other value is \<open>Unbranded\<close>, so a forged copy is never a gate.
\<close>

record live_gate =
  g_schema_version :: int
  g_mode :: string
  pinned_hostname :: string
  personal_vault_forbidden :: bool
  company_vault_forbidden :: bool
  helper_vault_free :: bool
  playwright_default_absent :: bool
  mutation_authorized :: bool
  live_test_executed :: bool
  g_authorization_ready :: bool

datatype gate_value = Branded live_gate | Unbranded jsval

datatype gate_error =
    InvalidHostname
  | UnbrandedGate
  | InvalidOrigin
  | HttpsRequired
  | HostnameMismatch
  | OriginPathForbidden

definition is_label_char :: "char \<Rightarrow> bool" where
  "is_label_char c \<longleftrightarrow> is_lower c \<or> is_digit c \<or> c = CHR ''-''"

definition dns_label :: "string \<Rightarrow> bool" where
  "dns_label s \<longleftrightarrow> s \<noteq> [] \<and> length s \<le> 63 \<and> list_all is_label_char s
                 \<and> hd s \<noteq> CHR ''-'' \<and> last s \<noteq> CHR ''-''"

text \<open>\<open>/^(?=.{1,253}$)[a-z0-9](?:[a-z0-9-]{0,61}[a-z0-9])?(?:\.[a-z0-9](...)?)*$/\<close>\<close>

definition DNS_HOSTNAME :: "string \<Rightarrow> bool" where
  "DNS_HOSTNAME s \<longleftrightarrow> s \<noteq> [] \<and> length s \<le> 253 \<and> list_all dns_label (splitOn (CHR ''.'') s)"

definition buildBrowserFormLoginLiveGate :: "jsval \<Rightarrow> gate_error + live_gate" where
  "buildBrowserFormLoginLiveGate v =
     (case str_of v of
        None \<Rightarrow> Inl InvalidHostname
      | Some h \<Rightarrow>
          if \<not> DNS_HOSTNAME h \<or> CHR ''*'' \<in> set h \<or> startsWith h ''xn--'' then Inl InvalidHostname
          else Inr
            \<lparr>g_schema_version = 1, g_mode = ''browser_form_login_live'', pinned_hostname = h,
             personal_vault_forbidden = True, company_vault_forbidden = True,
             helper_vault_free = True, playwright_default_absent = True,
             mutation_authorized = False, live_test_executed = False,
             g_authorization_ready = False\<rparr>)"

fun isBrowserFormLoginLiveGate :: "gate_value \<Rightarrow> bool" where
  "isBrowserFormLoginLiveGate (Branded g) = True"
| "isBrowserFormLoginLiveGate (Unbranded v) = False"

definition parseLiveHttpsLoginOrigin :: "jsval \<Rightarrow> gate_value \<Rightarrow> gate_error + url" where
  "parseLiveHttpsLoginOrigin v gate =
     (case gate of
        Unbranded _ \<Rightarrow> Inl UnbrandedGate
      | Branded g \<Rightarrow>
          (case str_of v of
             None \<Rightarrow> Inl InvalidOrigin
           | Some s \<Rightarrow>
               if trim s = [] then Inl InvalidOrigin
               else (case newURL s of
                  None \<Rightarrow> Inl InvalidOrigin
                | Some u \<Rightarrow>
                    if protocol u \<noteq> ''https:'' then Inl HttpsRequired
                    else if u_host u \<noteq> pinned_hostname g then Inl HostnameMismatch
                    else if u_username u \<noteq> [] \<or> u_password u \<noteq> [] \<or> search u \<noteq> [] \<or> hash u \<noteq> []
                    then Inl InvalidOrigin
                    else if pathname u \<noteq> ''/'' \<and> pathname u \<noteq> [] then Inl OriginPathForbidden
                    else Inr u)))"

fun assertBrandedBrowserLiveGate :: "gate_value \<Rightarrow> gate_error + live_gate" where
  "assertBrandedBrowserLiveGate (Branded g) = Inr g"
| "assertBrandedBrowserLiveGate (Unbranded v) = Inl UnbrandedGate"

lemma DNS_HOSTNAME_chars:
  assumes "DNS_HOSTNAME s" "c \<in> set s"
  shows "is_label_char c \<or> c = CHR ''.''"
proof (rule ccontr)
  assume n: "\<not> (is_label_char c \<or> c = CHR ''.'')"
  have "\<exists>p \<in> set (splitOn sep s). c \<in> set p" if "c \<in> set s" "c \<noteq> sep" for sep s
    using that
  proof (induction s)
    case (Cons d s)
    obtain q qs where "splitOn sep s = q # qs" by (cases "splitOn sep s") auto
    with Cons show ?case by auto
  qed simp
  with n assms(2) obtain p where "p \<in> set (splitOn (CHR ''.'') s)" "c \<in> set p" by blast
  with assms(1) n show False by (auto simp: DNS_HOSTNAME_def dns_label_def list_all_iff)
qed

end
