(* ===== verification/Policy.thy ===== *)
theory Policy
  imports LiveGate
begin

text \<open>
  Declarative policies (\<open>policy.js\<close>): the validator of the eight policy versions, the
  rewriting helpers that put a concrete origin or target into a policy, and the live
  browser policy. A rejected policy is \<open>Inl\<close> of the error its \<open>throw\<close> raises; an accepted
  one is a \<open>policy\<close>, one constructor per version, and \<open>policy_json\<close> is the plain object
  the code returns for it.
\<close>

subsection \<open>Policies and errors\<close>

record http_fields =
  hf_service :: string
  hf_bind :: string
  hf_method :: string
  hf_path :: string

record browser_policy =
  bp_service :: string
  bp_bind :: string
  login_origin :: string
  login_path :: string
  form_action :: string
  username_field :: string
  password_field :: string
  hidden_fields :: "string list"
  success_path :: string
  bp_allowed_paths :: "string list"
  replay_method :: string
  replay_path :: string
  max_redirect_hops :: int
  bp_session_ttl_ms :: int
  bp_idle_ttl_ms :: int

record ssh_policy =
  sp_service :: string
  sp_bind :: string
  sp_target_host :: string
  sp_target_port :: int
  allowed_commands :: "string list"
  sp_session_ttl_ms :: int
  sp_idle_ttl_ms :: int

record ftp_policy =
  fp_service :: string
  fp_bind :: string
  fp_target_host :: string
  fp_target_port :: int
  allowed_ops :: "string list"
  fp_allowed_paths :: "string list"
  fp_session_ttl_ms :: int
  fp_idle_ttl_ms :: int

text \<open>The upstream origin is the second argument of the four HTTP classes.\<close>

datatype policy =
    BearerPolicy http_fields string
  | ApiKeyHeaderPolicy http_fields string (header_name: string)
  | ApiKeyQueryPolicy http_fields string (query_name: string)
  | BasicPolicy http_fields string
  | OneCliProxyPolicy http_fields (gateway: string) (target_host: string)
  | BrowserFormLoginPolicy browser_policy
  | SshPolicy ssh_policy
  | FtpPolicy ftp_policy

datatype url_error =
    UrlNotString | UrlInvalid | UrlScheme | UrlNotLoopback | UrlNoPort | UrlBadPort
  | UrlCredentials | UrlQuery | UrlHasPath

datatype form_error =
    BadReplayMethod | BadUsernameField | BadPasswordField | SameFields | HiddenArray | HiddenName
  | HiddenCredential | HiddenDuplicate | SuccessNotAllowed | ReplayNotAllowed | BadRedirectHops

datatype session_policy_error =
    BadSessionTtl | BadIdleTtl | TargetNotLoopback | TargetPortRange | CommandsArray | CommandName
  | CommandDuplicate | OpsArray | OpName | OpDuplicate | PathsArray | PathsDuplicate

datatype live_error =
    LiveGateError gate_error | LiveVersion | LiveOriginInvalid | LiveHttps | LiveHost | LiveBare | LivePath

datatype name_error = HeaderNameShape | HeaderNameLength | HeaderNameForbidden | QueryNameShape

datatype (plugins only: code size) policy_error =
    PolicyNotObject | BadVersion | UnknownFields "string list" | BadService | BadClass
  | RejectedClass | UnsupportedClass | ClassMismatch int string
  | UrlError string url_error | BadMethod | BadPath | PathQuery
  | GatewayZeroPort | BadTargetHost | BadTargetPort
  | PlaceholderUnsupported string | PlaceholderLiteral string | ValueNotString string | MatchTypeError
  | NameError name_error | OriginPath string
  | FormError form_error | SessionError session_policy_error | LiveError live_error
  | NeedsVersion4 | NeedsVersion5 | NeedsSessionVersion | ReadFailed | NotJson

subsection \<open>Tables\<close>

definition LOOPBACK_HOSTS :: "string set" where
  "LOOPBACK_HOSTS = {''127.0.0.1'', ''localhost''}"

definition HTTP_METHODS :: "string set" where
  "HTTP_METHODS = {''GET'', ''HEAD'', ''POST'', ''PUT'', ''PATCH'', ''DELETE'', ''OPTIONS''}"

definition COMMON_POLICY_FIELDS :: "string list" where
  "COMMON_POLICY_FIELDS =
     [''version'', ''service'', ''credential_class'', ''bind'', ''upstream'', ''method'', ''path'']"

definition policy_fields :: "int \<Rightarrow> string list" where
  "policy_fields v =
     (if v = 1 then COMMON_POLICY_FIELDS @ [''authorization'']
      else if v = 2 then COMMON_POLICY_FIELDS @ [''header_name'', ''header_value'']
      else if v = 3 then COMMON_POLICY_FIELDS @ [''username_value'', ''password_value'']
      else if v = 4 then
        [''version'', ''service'', ''credential_class'', ''bind'', ''gateway'', ''target_host'',
         ''target_port'', ''method'', ''path'', ''agent_token'']
      else if v = 5 then
        [''version'', ''service'', ''credential_class'', ''bind'', ''login_origin'', ''login_path'',
         ''form_action'', ''username_field'', ''password_field'', ''hidden_fields'',
         ''success_path'', ''allowed_paths'', ''replay_method'', ''replay_path'',
         ''username_value'', ''password_value'', ''max_redirect_hops'', ''session_ttl_ms'',
         ''idle_ttl_ms'']
      else if v = 6 then COMMON_POLICY_FIELDS @ [''query_name'', ''query_value'']
      else if v = 7 then
        [''version'', ''service'', ''credential_class'', ''bind'', ''target_host'', ''target_port'',
         ''allowed_commands'', ''username_value'', ''password_value'', ''session_ttl_ms'',
         ''idle_ttl_ms'']
      else
        [''version'', ''service'', ''credential_class'', ''bind'', ''target_host'', ''target_port'',
         ''allowed_ops'', ''allowed_paths'', ''username_value'', ''password_value'',
         ''session_ttl_ms'', ''idle_ttl_ms''])"

definition MAX_SSH_COMMANDS :: nat where "MAX_SSH_COMMANDS = 8"
definition MAX_FTP_PATHS :: nat where "MAX_FTP_PATHS = 16"
definition MAX_HIDDEN_FIELDS :: nat where "MAX_HIDDEN_FIELDS = 16"
definition MAX_ALLOWED_PATHS :: nat where "MAX_ALLOWED_PATHS = 32"
definition MAX_API_KEY_HEADER_NAME_LENGTH :: nat where "MAX_API_KEY_HEADER_NAME_LENGTH = 128"
definition FTP_OPS :: "string list" where "FTP_OPS = [''list'', ''retr'']"

lemmas policy_bounds = MAX_SSH_COMMANDS_def MAX_FTP_PATHS_def MAX_HIDDEN_FIELDS_def
  MAX_ALLOWED_PATHS_def MAX_API_KEY_HEADER_NAME_LENGTH_def FTP_OPS_def

definition FORBIDDEN_API_KEY_HEADER_NAMES :: "string list" where
  "FORBIDDEN_API_KEY_HEADER_NAMES =
     [''authorization'', ''connection'', ''cookie'', ''expect'', ''host'', ''http2-settings'',
      ''keep-alive'', ''max-forwards'', ''proxy-authenticate'', ''proxy-authorization'',
      ''proxy-connection'', ''set-cookie'', ''te'', ''trailer'', ''transfer-encoding'',
      ''upgrade'', ''via'', ''www-authenticate'']"

definition FORBIDDEN_API_KEY_HEADER_PREFIXES :: "string list" where
  "FORBIDDEN_API_KEY_HEADER_PREFIXES =
     [''access-control-'', ''content-'', ''forwarded'', ''proxy-'', ''sec-'', ''x-forwarded-'']"

subsection \<open>Names\<close>

text \<open>\<open>/^[a-z][a-z0-9_-]{0,31}$/\<close>, \<open>/^[A-Za-z][A-Za-z0-9_-]{0,63}$/\<close>,
  \<open>/^[a-z][a-z0-9_-]{0,63}$/\<close> and \<open>/^[!#$%&'*+\-.^_`|~0-9a-z]+$/\<close>.\<close>

definition is_name_tail :: "char \<Rightarrow> bool" where
  "is_name_tail c \<longleftrightarrow> is_lower c \<or> is_digit c \<or> c = CHR ''_'' \<or> c = CHR ''-''"

definition SSH_COMMAND_NAME :: "string \<Rightarrow> bool" where
  "SSH_COMMAND_NAME = name_pattern is_lower is_name_tail 31"

definition FIELD_NAME :: "string \<Rightarrow> bool" where
  "FIELD_NAME = name_pattern is_alpha (\<lambda>c. is_upper c \<or> is_name_tail c) 63"

definition QUERY_PARAM_NAME :: "string \<Rightarrow> bool" where
  "QUERY_PARAM_NAME = name_pattern is_lower is_name_tail 63"

definition is_header_char :: "char \<Rightarrow> bool" where
  "is_header_char c \<longleftrightarrow>
     is_lower c \<or> is_digit c \<or> code c \<in> {33, 35, 36, 37, 38, 39, 42, 43, 45, 46, 94, 95, 96, 124, 126}"

definition LOWERCASE_ASCII_HEADER_NAME :: "string \<Rightarrow> bool" where
  "LOWERCASE_ASCII_HEADER_NAME s \<longleftrightarrow> s \<noteq> [] \<and> list_all is_header_char s"

text \<open>\<open>/\{\{[^}]*\}\}/\<close>\<close>

fun has_placeholder :: "string \<Rightarrow> bool" where
  "has_placeholder [] = False"
| "has_placeholder (c # cs) =
     ((prefix ''{{'' (c # cs) \<and> prefix ''}}'' (dropWhile (\<lambda>d. d \<noteq> CHR ''}'') (drop 1 cs)))
      \<or> has_placeholder cs)"

text \<open>\<open>/:(\d+)(?:\/|$)/\<close>\<close>

fun has_explicit_port :: "string \<Rightarrow> bool" where
  "has_explicit_port [] = False"
| "has_explicit_port (c # cs) =
     ((c = CHR '':'' \<and> takeWhile is_digit cs \<noteq> []
         \<and> (dropWhile is_digit cs = [] \<or> hd (dropWhile is_digit cs) = CHR ''/''))
      \<or> has_explicit_port cs)"

text \<open>The version 4 case of \<open>isIP\<close>; a host that passed \<open>DNS_HOSTNAME\<close> has no colon, so it
  is no IPv6 address.\<close>

definition isIPv4 :: "string \<Rightarrow> bool" where
  "isIPv4 s \<longleftrightarrow> (let ps = splitOn (CHR ''.'') s
     in length ps = 4 \<and> list_all (\<lambda>p. all_digits p \<and> length p \<le> 3 \<and> read_nat p 0 \<le> 255
          \<and> (length p = 1 \<or> hd p \<noteq> CHR ''0'')) ps)"

subsection \<open>Field validators\<close>

definition parseLoopbackHttpUrl :: "jsval \<Rightarrow> string \<Rightarrow> policy_error + url" where
  "parseLoopbackHttpUrl v name =
     (case str_of v of
        None \<Rightarrow> Inl (UrlError name UrlNotString)
      | Some s \<Rightarrow>
          if trim s = [] then Inl (UrlError name UrlNotString)
          else (case newURL s of
             None \<Rightarrow> Inl (UrlError name UrlInvalid)
           | Some u \<Rightarrow>
               if protocol u \<noteq> ''http:'' then Inl (UrlError name UrlScheme)
               else if u_host u \<notin> LOOPBACK_HOSTS then Inl (UrlError name UrlNotLoopback)
               else if \<not> has_explicit_port s \<or> port_str u = [] then Inl (UrlError name UrlNoPort)
               else if read_nat (port_str u) 0 > 65535 then Inl (UrlError name UrlBadPort)
               else if u_username u \<noteq> [] \<or> u_password u \<noteq> [] then Inl (UrlError name UrlCredentials)
               else if search u \<noteq> [] \<or> hash u \<noteq> [] then Inl (UrlError name UrlQuery)
               else if pathname u \<noteq> ''/'' \<and> pathname u \<noteq> [] then Inl (UrlError name UrlHasPath)
               else Inr u))"

definition origin_text :: "url \<Rightarrow> string" where
  "origin_text u = dropTrailingSlash (href u)"

text \<open>\<open>extras.sort()\<close>, by code units.\<close>

fun str_le :: "string \<Rightarrow> string \<Rightarrow> bool" where
  "str_le [] t = True"
| "str_le (c # cs) [] = False"
| "str_le (c # cs) (d # ds) = (code c < code d \<or> (c = d \<and> str_le cs ds))"

fun insert_str :: "string \<Rightarrow> string list \<Rightarrow> string list" where
  "insert_str s [] = [s]"
| "insert_str s (t # ts) = (if str_le s t then s # t # ts else t # insert_str s ts)"

definition sort_strs :: "string list \<Rightarrow> string list" where
  "sort_strs ss = foldr insert_str ss []"

definition validateExactFields :: "jsval \<Rightarrow> string list \<Rightarrow> policy_error option" where
  "validateExactFields v allowed =
     (let extras = filter (\<lambda>k. k \<notin> set allowed) (own_keys v)
      in if extras \<noteq> [] then Some (UnknownFields (sort_strs extras)) else None)"

definition validateQueryParamName :: "jsval \<Rightarrow> policy_error + string" where
  "validateQueryParamName v =
     (case str_of v of
        None \<Rightarrow> Inl (NameError QueryNameShape)
      | Some s \<Rightarrow> if \<not> QUERY_PARAM_NAME s then Inl (NameError QueryNameShape) else Inr s)"

definition validateApiKeyHeaderName :: "jsval \<Rightarrow> policy_error + string" where
  "validateApiKeyHeaderName v =
     (case str_of v of
        None \<Rightarrow> Inl (NameError HeaderNameShape)
      | Some s \<Rightarrow>
          if s = [] \<or> \<not> LOWERCASE_ASCII_HEADER_NAME s then Inl (NameError HeaderNameShape)
          else if MAX_API_KEY_HEADER_NAME_LENGTH < length s then Inl (NameError HeaderNameLength)
          else if s \<in> set FORBIDDEN_API_KEY_HEADER_NAMES
                  \<or> list_ex (\<lambda>p. s = p \<or> startsWith s p) FORBIDDEN_API_KEY_HEADER_PREFIXES
          then Inl (NameError HeaderNameForbidden)
          else Inr s)"

definition validateCredentialPlaceholder :: "jsval \<Rightarrow> string \<Rightarrow> policy_error option" where
  "validateCredentialPlaceholder v name =
     (if v = JStr CREDENTIAL_PLACEHOLDER then None
      else case str_of v of
             None \<Rightarrow> Some MatchTypeError
           | Some s \<Rightarrow> if has_placeholder s then Some (PlaceholderUnsupported name)
                      else Some (PlaceholderLiteral name))"

definition validateExactPlaceholder :: "jsval \<Rightarrow> string \<Rightarrow> string \<Rightarrow> policy_error option" where
  "validateExactPlaceholder v placeholder name =
     (if v = JStr placeholder then None
      else case str_of v of
             Some s \<Rightarrow> if has_placeholder s then Some (PlaceholderUnsupported name)
                      else Some (PlaceholderLiteral name)
           | None \<Rightarrow> Some (PlaceholderLiteral name))"

definition origin_path :: "string \<Rightarrow> bool" where
  "origin_path s \<longleftrightarrow> startsWith s ''/'' \<and> \<not> startsWith s ''//'' \<and>
     CHR ''?'' \<notin> set s \<and> CHR ''#'' \<notin> set s \<and> CHR ''*'' \<notin> set s"

definition requireOriginPath :: "jsval \<Rightarrow> string \<Rightarrow> policy_error + string" where
  "requireOriginPath v name =
     (case str_of v of
        None \<Rightarrow> Inl (OriginPath name)
      | Some s \<Rightarrow> if \<not> origin_path s then Inl (OriginPath name) else Inr s)"

definition parseLoopbackTarget :: "jsval \<Rightarrow> jsval \<Rightarrow> policy_error + (string \<times> int)" where
  "parseLoopbackTarget host port =
     (case str_of host of
        None \<Rightarrow> Inl (SessionError TargetNotLoopback)
      | Some h \<Rightarrow>
          if h \<notin> LOOPBACK_HOSTS then Inl (SessionError TargetNotLoopback)
          else (case int_of port of
             None \<Rightarrow> Inl (SessionError TargetPortRange)
           | Some p \<Rightarrow> if p < 0 \<or> 65535 < p then Inl (SessionError TargetPortRange) else Inr (h, p)))"

definition validateSessionTtls :: "jsval \<Rightarrow> policy_error + (int \<times> int)" where
  "validateSessionTtls obj =
     (case int_of (getProp obj ''session_ttl_ms'') of
        None \<Rightarrow> Inl (SessionError BadSessionTtl)
      | Some ttl \<Rightarrow>
          if ttl < 1000 \<or> 300000 < ttl then Inl (SessionError BadSessionTtl)
          else (case int_of (getProp obj ''idle_ttl_ms'') of
             None \<Rightarrow> Inl (SessionError BadIdleTtl)
           | Some idle \<Rightarrow> if idle < 1000 \<or> ttl < idle then Inl (SessionError BadIdleTtl) else Inr (ttl, idle)))"

definition validateUserPassPlaceholders :: "jsval \<Rightarrow> policy_error option" where
  "validateUserPassPlaceholders obj =
     (case validateExactPlaceholder (getProp obj ''username_value'') USERNAME_PLACEHOLDER
             ''policy.username_value'' of
        Some e \<Rightarrow> Some e
      | None \<Rightarrow> validateExactPlaceholder (getProp obj ''password_value'') PASSWORD_PLACEHOLDER
                  ''policy.password_value'')"

subsection \<open>The validators of the versions\<close>

definition fieldName :: "jsval \<Rightarrow> policy_error \<Rightarrow> policy_error + string" where
  "fieldName v e = (case str_of v of None \<Rightarrow> Inl e | Some s \<Rightarrow> if \<not> FIELD_NAME s then Inl e else Inr s)"

definition hiddenField :: "string \<Rightarrow> string \<Rightarrow> jsval \<Rightarrow> policy_error + string" where
  "hiddenField ufield pfield v =
     (case fieldName v (FormError HiddenName) of
        Inl e \<Rightarrow> Inl e
      | Inr s \<Rightarrow> if s = ufield \<or> s = pfield then Inl (FormError HiddenCredential) else Inr s)"

definition allowedPaths :: "jsval \<Rightarrow> nat \<Rightarrow> policy_error + string list" where
  "allowedPaths v bound =
     (case arr_of v of
        None \<Rightarrow> Inl (SessionError PathsArray)
      | Some vs \<Rightarrow>
          if length vs < 1 \<or> bound < length vs then Inl (SessionError PathsArray)
          else collect (\<lambda>p. requireOriginPath p ''policy.allowed_paths'') (SessionError PathsDuplicate) [] vs)"

definition httpMethod :: "jsval \<Rightarrow> policy_error \<Rightarrow> policy_error + string" where
  "httpMethod v e = (case str_of v of None \<Rightarrow> Inl e | Some s \<Rightarrow> if s \<notin> HTTP_METHODS then Inl e else Inr s)"

definition hiddenFields :: "jsval \<Rightarrow> string \<Rightarrow> string \<Rightarrow> policy_error + string list" where
  "hiddenFields v ufield pfield =
     (case arr_of v of
        None \<Rightarrow> Inl (FormError HiddenArray)
      | Some vs \<Rightarrow>
          if MAX_HIDDEN_FIELDS < length vs then Inl (FormError HiddenArray)
          else collect (hiddenField ufield pfield) (FormError HiddenDuplicate) [] vs)"

definition redirectHops :: "jsval \<Rightarrow> policy_error + int" where
  "redirectHops v =
     (if v \<noteq> JNum 1 \<and> v \<noteq> JNum 2 \<and> v \<noteq> JNum 3 then Inl (FormError BadRedirectHops)
      else Inr (the (int_of v)))"

text \<open>\<open>service\<close> is the string the caller has checked.\<close>

definition buildBrowserFormLoginPolicy :: "jsval \<Rightarrow> string \<Rightarrow> url \<Rightarrow> url \<Rightarrow> policy_error + browser_policy" where
  "buildBrowserFormLoginPolicy obj service bind_url loginOrigin =
    (case requireOriginPath (getProp obj ''login_path'') ''policy.login_path'' of Inl e \<Rightarrow> Inl e | Inr loginPath \<Rightarrow>
    (case requireOriginPath (getProp obj ''form_action'') ''policy.form_action'' of Inl e \<Rightarrow> Inl e | Inr formAction \<Rightarrow>
    (case requireOriginPath (getProp obj ''success_path'') ''policy.success_path'' of Inl e \<Rightarrow> Inl e | Inr successPath \<Rightarrow>
    (case requireOriginPath (getProp obj ''replay_path'') ''policy.replay_path'' of Inl e \<Rightarrow> Inl e | Inr replayPath \<Rightarrow>
    (case httpMethod (getProp obj ''replay_method'') (FormError BadReplayMethod) of Inl e \<Rightarrow> Inl e | Inr replayMethod \<Rightarrow>
    (case fieldName (getProp obj ''username_field'') (FormError BadUsernameField) of Inl e \<Rightarrow> Inl e | Inr ufield \<Rightarrow>
    (case fieldName (getProp obj ''password_field'') (FormError BadPasswordField) of Inl e \<Rightarrow> Inl e | Inr pfield \<Rightarrow>
     if ufield = pfield then Inl (FormError SameFields) else
    (case hiddenFields (getProp obj ''hidden_fields'') ufield pfield of Inl e \<Rightarrow> Inl e | Inr hidden \<Rightarrow>
    (case allowedPaths (getProp obj ''allowed_paths'') MAX_ALLOWED_PATHS of Inl e \<Rightarrow> Inl e | Inr paths \<Rightarrow>
     if successPath \<notin> set paths then Inl (FormError SuccessNotAllowed) else
     if replayPath \<notin> set paths then Inl (FormError ReplayNotAllowed) else
    (case redirectHops (getProp obj ''max_redirect_hops'') of Inl e \<Rightarrow> Inl e | Inr hops \<Rightarrow>
    (case validateSessionTtls obj of Inl e \<Rightarrow> Inl e | Inr (ttl, idle) \<Rightarrow>
    (case validateUserPassPlaceholders obj of Some e \<Rightarrow> Inl e | None \<Rightarrow>
       Inr \<lparr>bp_service = service, bp_bind = origin_text bind_url, login_origin = origin_text loginOrigin,
            login_path = loginPath, form_action = formAction, username_field = ufield,
            password_field = pfield, hidden_fields = hidden, success_path = successPath,
            bp_allowed_paths = paths, replay_method = replayMethod, replay_path = replayPath,
            max_redirect_hops = hops, bp_session_ttl_ms = ttl, bp_idle_ttl_ms = idle\<rparr>))))))))))))"

definition validateBrowserFormLoginPolicy :: "jsval \<Rightarrow> string \<Rightarrow> url \<Rightarrow> policy_error + policy" where
  "validateBrowserFormLoginPolicy obj service bind_url =
    (case parseLoopbackHttpUrl (getProp obj ''login_origin'') ''policy.login_origin'' of
       Inl e \<Rightarrow> Inl e
     | Inr loginOrigin \<Rightarrow>
         (case buildBrowserFormLoginPolicy obj service bind_url loginOrigin of
            Inl e \<Rightarrow> Inl e | Inr b \<Rightarrow> Inr (BrowserFormLoginPolicy b)))"

definition sshCommand :: "jsval \<Rightarrow> policy_error + string" where
  "sshCommand v = (case str_of v of None \<Rightarrow> Inl (SessionError CommandName)
     | Some s \<Rightarrow> if \<not> SSH_COMMAND_NAME s then Inl (SessionError CommandName) else Inr s)"

definition validateSshSessionPolicy :: "jsval \<Rightarrow> string \<Rightarrow> url \<Rightarrow> policy_error + policy" where
  "validateSshSessionPolicy obj service bind_url =
    (case parseLoopbackTarget (getProp obj ''target_host'') (getProp obj ''target_port'') of
       Inl e \<Rightarrow> Inl e
     | Inr (host, port) \<Rightarrow>
         (case arr_of (getProp obj ''allowed_commands'') of
            None \<Rightarrow> Inl (SessionError CommandsArray)
          | Some vs \<Rightarrow>
              if length vs < 1 \<or> MAX_SSH_COMMANDS < length vs then Inl (SessionError CommandsArray)
              else (case collect sshCommand (SessionError CommandDuplicate) [] vs of
                 Inl e \<Rightarrow> Inl e
               | Inr commands \<Rightarrow>
                   (case validateSessionTtls obj of
                      Inl e \<Rightarrow> Inl e
                    | Inr (ttl, idle) \<Rightarrow>
                        (case validateUserPassPlaceholders obj of
                           Some e \<Rightarrow> Inl e
                         | None \<Rightarrow> Inr (SshPolicy
                             \<lparr>sp_service = service, sp_bind = origin_text bind_url,
                              sp_target_host = host, sp_target_port = port,
                              allowed_commands = commands, sp_session_ttl_ms = ttl,
                              sp_idle_ttl_ms = idle\<rparr>))))))"

definition ftpOp :: "jsval \<Rightarrow> policy_error + string" where
  "ftpOp v = (case str_of v of None \<Rightarrow> Inl (SessionError OpName)
     | Some s \<Rightarrow> if s \<notin> set FTP_OPS then Inl (SessionError OpName) else Inr s)"

definition validateFtpSessionPolicy :: "jsval \<Rightarrow> string \<Rightarrow> url \<Rightarrow> policy_error + policy" where
  "validateFtpSessionPolicy obj service bind_url =
    (case parseLoopbackTarget (getProp obj ''target_host'') (getProp obj ''target_port'') of
       Inl e \<Rightarrow> Inl e
     | Inr (host, port) \<Rightarrow>
         (case arr_of (getProp obj ''allowed_ops'') of
            None \<Rightarrow> Inl (SessionError OpsArray)
          | Some vs \<Rightarrow>
              if length vs < 1 \<or> length FTP_OPS < length vs then Inl (SessionError OpsArray)
              else (case collect ftpOp (SessionError OpDuplicate) [] vs of
                 Inl e \<Rightarrow> Inl e
               | Inr ops \<Rightarrow>
                   (case allowedPaths (getProp obj ''allowed_paths'') MAX_FTP_PATHS of
                      Inl e \<Rightarrow> Inl e
                    | Inr paths \<Rightarrow>
                        (case validateSessionTtls obj of
                           Inl e \<Rightarrow> Inl e
                         | Inr (ttl, idle) \<Rightarrow>
                             (case validateUserPassPlaceholders obj of
                                Some e \<Rightarrow> Inl e
                              | None \<Rightarrow> Inr (FtpPolicy
                                  \<lparr>fp_service = service, fp_bind = origin_text bind_url,
                                   fp_target_host = host, fp_target_port = port,
                                   allowed_ops = ops, fp_allowed_paths = paths,
                                   fp_session_ttl_ms = ttl, fp_idle_ttl_ms = idle\<rparr>)))))))"

subsection \<open>validatePolicy\<close>

definition validService :: "jsval \<Rightarrow> policy_error + string" where
  "validService v =
     (case str_of v of None \<Rightarrow> Inl BadService | Some s \<Rightarrow> if trim s = [] then Inl BadService else Inr s)"

definition validateClass :: "int \<Rightarrow> jsval \<Rightarrow> policy_error option" where
  "validateClass version cls =
     (case str_of cls of
        None \<Rightarrow> Some BadClass
      | Some s \<Rightarrow>
          if trim s = [] then Some BadClass
          else if isRejectedCredentialClass cls then Some RejectedClass
          else if s \<notin> set SUPPORTED_CREDENTIAL_CLASSES then Some UnsupportedClass
          else if Some s \<noteq> CREDENTIAL_CLASS_BY_VERSION version
          then Some (ClassMismatch version (the (CREDENTIAL_CLASS_BY_VERSION version)))
          else None)"

definition policyVersion :: "jsval \<Rightarrow> policy_error + int" where
  "policyVersion obj =
     (case int_of (getProp obj ''version'') of
        None \<Rightarrow> Inl BadVersion
      | Some v \<Rightarrow> if v < 1 \<or> 8 < v then Inl BadVersion else Inr v)"

definition httpPath :: "jsval \<Rightarrow> policy_error + string" where
  "httpPath v =
     (case str_of v of
        None \<Rightarrow> Inl BadPath
      | Some s \<Rightarrow>
          if \<not> startsWith s ''/'' \<or> startsWith s ''//'' then Inl BadPath
          else if CHR ''?'' \<in> set s \<or> CHR ''#'' \<in> set s then Inl PathQuery
          else Inr s)"

definition targetHost :: "jsval \<Rightarrow> policy_error + string" where
  "targetHost v =
     (case str_of v of
        None \<Rightarrow> Inl BadTargetHost
      | Some s \<Rightarrow>
          if \<not> DNS_HOSTNAME s \<or> isIPv4 s \<or> startsWith s ''xn--'' \<or> contains s ''.xn--''
          then Inl BadTargetHost else Inr s)"

definition validateOneCliPolicy :: "jsval \<Rightarrow> http_fields \<Rightarrow> policy_error + policy" where
  "validateOneCliPolicy obj common =
     (case parseLoopbackHttpUrl (getProp obj ''gateway'') ''policy.gateway'' of
        Inl e \<Rightarrow> Inl e
      | Inr g \<Rightarrow>
          if read_nat (port_str g) 0 = 0 then Inl GatewayZeroPort
          else (case targetHost (getProp obj ''target_host'') of
             Inl e \<Rightarrow> Inl e
           | Inr host \<Rightarrow>
               if getProp obj ''target_port'' \<noteq> JNum 443 then Inl BadTargetPort
               else (case validateCredentialPlaceholder (getProp obj ''agent_token'') ''policy.agent_token'' of
                  Some e \<Rightarrow> Inl e
                | None \<Rightarrow> Inr (OneCliProxyPolicy common (origin_text g) host))))"

definition requireString :: "jsval \<Rightarrow> string \<Rightarrow> policy_error option" where
  "requireString v name = (case str_of v of None \<Rightarrow> Some (ValueNotString name) | Some _ \<Rightarrow> None)"

definition validateHttpInjectionPolicy :: "jsval \<Rightarrow> int \<Rightarrow> http_fields \<Rightarrow> string \<Rightarrow> policy_error + policy" where
  "validateHttpInjectionPolicy obj version common upstream =
     (if version = 1 then
        (case requireString (getProp obj ''authorization'') ''policy.authorization'' of Some e \<Rightarrow> Inl e | None \<Rightarrow>
        (case validateCredentialPlaceholder (getProp obj ''authorization'') ''policy.authorization'' of Some e \<Rightarrow> Inl e | None \<Rightarrow>
           Inr (BearerPolicy common upstream)))
      else if version = 2 then
        (case validateApiKeyHeaderName (getProp obj ''header_name'') of Inl e \<Rightarrow> Inl e | Inr h \<Rightarrow>
        (case requireString (getProp obj ''header_value'') ''policy.header_value'' of Some e \<Rightarrow> Inl e | None \<Rightarrow>
        (case validateCredentialPlaceholder (getProp obj ''header_value'') ''policy.header_value'' of Some e \<Rightarrow> Inl e | None \<Rightarrow>
           Inr (ApiKeyHeaderPolicy common upstream h))))
      else if version = 6 then
        (case validateQueryParamName (getProp obj ''query_name'') of Inl e \<Rightarrow> Inl e | Inr q \<Rightarrow>
        (case requireString (getProp obj ''query_value'') ''policy.query_value'' of Some e \<Rightarrow> Inl e | None \<Rightarrow>
        (case validateCredentialPlaceholder (getProp obj ''query_value'') ''policy.query_value'' of Some e \<Rightarrow> Inl e | None \<Rightarrow>
           Inr (ApiKeyQueryPolicy common upstream q))))
      else
        (case validateUserPassPlaceholders obj of Some e \<Rightarrow> Inl e | None \<Rightarrow>
           Inr (BasicPolicy common upstream)))"

text \<open>The upstream is \<open>null\<close> (\<open>None\<close>) for the versions that have none.\<close>

definition policyUpstream :: "jsval \<Rightarrow> int \<Rightarrow> policy_error + url option" where
  "policyUpstream obj version =
     (if version \<in> {4, 5, 7, 8} then Inr None
      else case parseLoopbackHttpUrl (getProp obj ''upstream'') ''policy.upstream'' of
             Inl e \<Rightarrow> Inl e | Inr u \<Rightarrow> Inr (Some u))"

definition validatePolicy :: "jsval \<Rightarrow> policy_error + policy" where
  "validatePolicy obj =
    (if \<not> is_object obj then Inl PolicyNotObject else
    (case policyVersion obj of Inl e \<Rightarrow> Inl e | Inr version \<Rightarrow>
    (case validateExactFields obj (policy_fields version) of Some e \<Rightarrow> Inl e | None \<Rightarrow>
    (case validService (getProp obj ''service'') of Inl e \<Rightarrow> Inl e | Inr service \<Rightarrow>
    (case validateClass version (getProp obj ''credential_class'') of Some e \<Rightarrow> Inl e | None \<Rightarrow>
    (case parseLoopbackHttpUrl (getProp obj ''bind'') ''policy.bind'' of Inl e \<Rightarrow> Inl e | Inr bind_url \<Rightarrow>
    (case policyUpstream obj version of Inl e \<Rightarrow> Inl e | Inr upstream \<Rightarrow>
     if version = 5 then validateBrowserFormLoginPolicy obj service bind_url
     else if version = 7 then validateSshSessionPolicy obj service bind_url
     else if version = 8 then validateFtpSessionPolicy obj service bind_url
     else
    (case httpMethod (getProp obj ''method'') BadMethod of Inl e \<Rightarrow> Inl e | Inr method \<Rightarrow>
    (case httpPath (getProp obj ''path'') of Inl e \<Rightarrow> Inl e | Inr path \<Rightarrow>
       let common = \<lparr>hf_service = service, hf_bind = origin_text bind_url,
                     hf_method = method, hf_path = path\<rparr>
       in (case upstream of
             None \<Rightarrow> validateOneCliPolicy obj common
           | Some u \<Rightarrow> validateHttpInjectionPolicy obj version common (origin_text u)))))))))))"

subsection \<open>The returned objects\<close>

definition common_json :: "int \<Rightarrow> http_fields \<Rightarrow> (string \<times> jsval) list" where
  "common_json version c =
     [(''version'', JNum version), (''service'', JStr (hf_service c)), (''bind'', JStr (hf_bind c)),
      (''method'', JStr (hf_method c)), (''path'', JStr (hf_path c))]"

definition strings :: "string list \<Rightarrow> jsval" where
  "strings ss = JArr (map JStr ss)"

definition placeholders_json :: "(string \<times> jsval) list" where
  "placeholders_json = [(''username_value'', JStr USERNAME_PLACEHOLDER),
                        (''password_value'', JStr PASSWORD_PLACEHOLDER)]"

definition browser_json :: "browser_policy \<Rightarrow> jsval" where
  "browser_json b = JObj
     ([(''version'', JNum 5), (''service'', JStr (bp_service b)),
       (''credential_class'', JStr ''browser_form_login''), (''bind'', JStr (bp_bind b)),
       (''login_origin'', JStr (login_origin b)), (''login_path'', JStr (login_path b)),
       (''form_action'', JStr (form_action b)), (''username_field'', JStr (username_field b)),
       (''password_field'', JStr (password_field b)), (''hidden_fields'', strings (hidden_fields b)),
       (''success_path'', JStr (success_path b)), (''allowed_paths'', strings (bp_allowed_paths b)),
       (''replay_method'', JStr (replay_method b)), (''replay_path'', JStr (replay_path b))]
      @ placeholders_json @
      [(''max_redirect_hops'', JNum (max_redirect_hops b)),
       (''session_ttl_ms'', JNum (bp_session_ttl_ms b)), (''idle_ttl_ms'', JNum (bp_idle_ttl_ms b))])"

fun policy_json :: "policy \<Rightarrow> jsval" where
  "policy_json (BearerPolicy c up) = JObj (common_json 1 c @
     [(''upstream'', JStr up), (''credential_class'', JStr ''http_bearer''),
      (''authorization'', JStr CREDENTIAL_PLACEHOLDER)])"
| "policy_json (ApiKeyHeaderPolicy c up h) = JObj (common_json 2 c @
     [(''upstream'', JStr up), (''credential_class'', JStr ''http_api_key_header''),
      (''header_name'', JStr h), (''header_value'', JStr CREDENTIAL_PLACEHOLDER)])"
| "policy_json (ApiKeyQueryPolicy c up q) = JObj (common_json 6 c @
     [(''upstream'', JStr up), (''credential_class'', JStr ''http_api_key_query''),
      (''query_name'', JStr q), (''query_value'', JStr CREDENTIAL_PLACEHOLDER)])"
| "policy_json (BasicPolicy c up) = JObj (common_json 3 c @
     [(''upstream'', JStr up), (''credential_class'', JStr ''http_basic'')] @ placeholders_json)"
| "policy_json (OneCliProxyPolicy c g host) = JObj (common_json 4 c @
     [(''credential_class'', JStr ''onecli_proxy''), (''gateway'', JStr g), (''target_host'', JStr host),
      (''target_port'', JNum 443), (''agent_token'', JStr CREDENTIAL_PLACEHOLDER)])"
| "policy_json (BrowserFormLoginPolicy b) = browser_json b"
| "policy_json (SshPolicy s) = JObj
     ([(''version'', JNum 7), (''service'', JStr (sp_service s)), (''credential_class'', JStr ''ssh''),
       (''bind'', JStr (sp_bind s)), (''target_host'', JStr (sp_target_host s)),
       (''target_port'', JNum (sp_target_port s)), (''allowed_commands'', strings (allowed_commands s))]
      @ placeholders_json @
      [(''session_ttl_ms'', JNum (sp_session_ttl_ms s)), (''idle_ttl_ms'', JNum (sp_idle_ttl_ms s))])"
| "policy_json (FtpPolicy f) = JObj
     ([(''version'', JNum 8), (''service'', JStr (fp_service f)), (''credential_class'', JStr ''ftp''),
       (''bind'', JStr (fp_bind f)), (''target_host'', JStr (fp_target_host f)),
       (''target_port'', JNum (fp_target_port f)), (''allowed_ops'', strings (allowed_ops f)),
       (''allowed_paths'', strings (fp_allowed_paths f))]
      @ placeholders_json @
      [(''session_ttl_ms'', JNum (fp_session_ttl_ms f)), (''idle_ttl_ms'', JNum (fp_idle_ttl_ms f))])"

fun version_of :: "policy \<Rightarrow> int" where
  "version_of (BearerPolicy _ _) = 1"
| "version_of (ApiKeyHeaderPolicy _ _ _) = 2"
| "version_of (BasicPolicy _ _) = 3"
| "version_of (OneCliProxyPolicy _ _ _) = 4"
| "version_of (BrowserFormLoginPolicy _) = 5"
| "version_of (ApiKeyQueryPolicy _ _ _) = 6"
| "version_of (SshPolicy _) = 7"
| "version_of (FtpPolicy _) = 8"

fun upstream_of :: "policy \<Rightarrow> string option" where
  "upstream_of (BearerPolicy _ up) = Some up"
| "upstream_of (ApiKeyHeaderPolicy _ up _) = Some up"
| "upstream_of (ApiKeyQueryPolicy _ up _) = Some up"
| "upstream_of (BasicPolicy _ up) = Some up"
| "upstream_of _ = None"

subsection \<open>Loading and rewriting\<close>

text \<open>The file's contents are an argument; \<open>None\<close> when reading fails.\<close>

definition loadPolicy :: "string option \<Rightarrow> policy_error + policy" where
  "loadPolicy contents =
     (case contents of
        None \<Rightarrow> Inl ReadFailed
      | Some text \<Rightarrow> (case json_parse text of None \<Rightarrow> Inl NotJson | Some raw \<Rightarrow> validatePolicy raw))"

definition withUpstream :: "policy \<Rightarrow> jsval \<Rightarrow> policy_error + policy" where
  "withUpstream p upstreamUrl =
     (case parseLoopbackHttpUrl upstreamUrl ''upstream'' of
        Inl e \<Rightarrow> Inl e
      | Inr u \<Rightarrow> validatePolicy (withProp (policy_json p) ''upstream'' (JStr (origin_text u))))"

definition withBind :: "policy \<Rightarrow> jsval \<Rightarrow> policy_error + policy" where
  "withBind p bindUrl =
     (case parseLoopbackHttpUrl bindUrl ''bind'' of
        Inl e \<Rightarrow> Inl e
      | Inr u \<Rightarrow> validatePolicy (withProp (policy_json p) ''bind'' (JStr (origin_text u))))"

definition withGateway :: "policy \<Rightarrow> jsval \<Rightarrow> policy_error + policy" where
  "withGateway p gatewayUrl =
     (if version_of p \<noteq> 4 then Inl NeedsVersion4
      else case parseLoopbackHttpUrl gatewayUrl ''gateway'' of
        Inl e \<Rightarrow> Inl e
      | Inr u \<Rightarrow> validatePolicy (withProp (policy_json p) ''gateway'' (JStr (origin_text u))))"

definition withLoginOrigin :: "policy \<Rightarrow> jsval \<Rightarrow> policy_error + policy" where
  "withLoginOrigin p loginOriginUrl =
     (if version_of p \<noteq> 5 then Inl NeedsVersion5
      else case parseLoopbackHttpUrl loginOriginUrl ''login_origin'' of
        Inl e \<Rightarrow> Inl e
      | Inr u \<Rightarrow> validatePolicy (withProp (policy_json p) ''login_origin'' (JStr (origin_text u))))"

definition withSessionTarget :: "policy \<Rightarrow> jsval \<Rightarrow> policy_error + policy" where
  "withSessionTarget p target =
     (if version_of p \<noteq> 7 \<and> version_of p \<noteq> 8 then Inl NeedsSessionVersion
      else let obj = policy_json p;
               host = (case str_of (getProp target ''host'') of
                         Some h \<Rightarrow> JStr h | None \<Rightarrow> getProp obj ''target_host'')
           in validatePolicy (withProp (withProp obj ''target_host'' host)
                ''target_port'' (getProp target ''port'')))"

text \<open>\<open>String(v)\<close>, which \<open>new URL\<close> applies to its argument.\<close>

fun to_string :: "jsval \<Rightarrow> string" where
  "to_string JUndef = ''undefined''"
| "to_string JNull = ''null''"
| "to_string (JBool b) = (if b then ''true'' else ''false'')"
| "to_string (JNum i) = show_int i"
| "to_string (JDec t) = t"
| "to_string (JStr s) = s"
| "to_string (JArr vs) =
     joinWith '','' (map (\<lambda>v. if v = JUndef \<or> v = JNull then [] else to_string v) vs)"
| "to_string (JObj ps) = ''[object Object]''"

definition validateLiveBrowserFormLoginPolicy :: "jsval \<Rightarrow> gate_value \<Rightarrow> policy_error + browser_policy" where
  "validateLiveBrowserFormLoginPolicy obj gate =
    (case assertBrandedBrowserLiveGate gate of Inl e \<Rightarrow> Inl (LiveError (LiveGateError e)) | Inr g \<Rightarrow>
     if \<not> is_object obj then Inl PolicyNotObject else
     if getProp obj ''version'' \<noteq> JNum 5 \<or> getProp obj ''credential_class'' \<noteq> JStr ''browser_form_login''
     then Inl (LiveError LiveVersion) else
    (case validateExactFields obj (policy_fields 5) of Some e \<Rightarrow> Inl e | None \<Rightarrow>
    (case validService (getProp obj ''service'') of Inl e \<Rightarrow> Inl e | Inr service \<Rightarrow>
    (case parseLoopbackHttpUrl (getProp obj ''bind'') ''policy.bind'' of Inl e \<Rightarrow> Inl e | Inr bind_url \<Rightarrow>
    (case newURL (to_string (getProp obj ''login_origin'')) of None \<Rightarrow> Inl (LiveError LiveOriginInvalid) | Some u \<Rightarrow>
     if protocol u \<noteq> ''https:'' then Inl (LiveError LiveHttps) else
     if u_host u \<noteq> pinned_hostname g then Inl (LiveError LiveHost) else
     if u_username u \<noteq> [] \<or> u_password u \<noteq> [] \<or> search u \<noteq> [] \<or> hash u \<noteq> [] then Inl (LiveError LiveBare) else
     if pathname u \<noteq> ''/'' \<and> pathname u \<noteq> [] then Inl (LiveError LivePath) else
     buildBrowserFormLoginPolicy obj service bind_url u)))))"

end
