(* ===== verification/BasicCredentials.thy ===== *)
theory BasicCredentials
  imports CredentialClasses
begin

text \<open>
  The two credential shapes: a user name with a password (\<open>basic-credentials.js\<close>) and the
  OneCLI agent token (\<open>agent-token.js\<close>), each with its validator and the
  \<open>Authorization\<close> value built from it.
\<close>

record basic_credentials =
  username :: string
  password :: string

datatype credential_error =
    CredentialsNotObject
  | CredentialsFields
  | FieldNotString string
  | FieldLength string
  | FieldNotPrintable string
  | ColonInUsername

definition BASIC_USERNAME_MIN_LENGTH :: nat where "BASIC_USERNAME_MIN_LENGTH = 8"
definition BASIC_USERNAME_MAX_LENGTH :: nat where "BASIC_USERNAME_MAX_LENGTH = 256"
definition BASIC_PASSWORD_MIN_LENGTH :: nat where "BASIC_PASSWORD_MIN_LENGTH = 8"
definition BASIC_PASSWORD_MAX_LENGTH :: nat where "BASIC_PASSWORD_MAX_LENGTH = 1024"

lemmas credential_bounds = BASIC_USERNAME_MIN_LENGTH_def BASIC_USERNAME_MAX_LENGTH_def
  BASIC_PASSWORD_MIN_LENGTH_def BASIC_PASSWORD_MAX_LENGTH_def

text \<open>\<open>/^[\x20-\x7e]+$/\<close>\<close>

definition PRINTABLE_ASCII :: "string \<Rightarrow> bool" where
  "PRINTABLE_ASCII s \<longleftrightarrow> s \<noteq> [] \<and> list_all is_printable_ascii s"

definition validateField :: "jsval \<Rightarrow> string \<Rightarrow> nat \<Rightarrow> nat \<Rightarrow> credential_error + string" where
  "validateField v name minLength maxLength =
     (case str_of v of
        None \<Rightarrow> Inl (FieldNotString name)
      | Some s \<Rightarrow>
          if length s < minLength \<or> maxLength < length s then Inl (FieldLength name)
          else if \<not> PRINTABLE_ASCII s then Inl (FieldNotPrintable name)
          else Inr s)"

definition validateBasicCredentials :: "jsval \<Rightarrow> credential_error + basic_credentials" where
  "validateBasicCredentials raw =
     (if \<not> is_object raw then Inl CredentialsNotObject
      else if length (own_keys raw) \<noteq> 2 \<or> ''username'' \<notin> set (own_keys raw)
              \<or> ''password'' \<notin> set (own_keys raw) then Inl CredentialsFields
      else case validateField (getProp raw ''username'') ''username''
                  BASIC_USERNAME_MIN_LENGTH BASIC_USERNAME_MAX_LENGTH of
        Inl e \<Rightarrow> Inl e
      | Inr u \<Rightarrow>
          (case validateField (getProp raw ''password'') ''password''
                  BASIC_PASSWORD_MIN_LENGTH BASIC_PASSWORD_MAX_LENGTH of
             Inl e \<Rightarrow> Inl e
           | Inr p \<Rightarrow> if CHR '':'' \<in> set u then Inl ColonInUsername
                     else Inr \<lparr>username = u, password = p\<rparr>))"

definition basicAuthorizationValue :: "basic_credentials \<Rightarrow> string" where
  "basicAuthorizationValue c = ''Basic '' @ base64 (username c @ '':'' @ password c)"

definition credentials_json :: "basic_credentials \<Rightarrow> jsval" where
  "credentials_json c = JObj [(''username'', JStr (username c)), (''password'', JStr (password c))]"

text \<open>What the validator promises of a bundle.\<close>

definition valid_credentials :: "basic_credentials \<Rightarrow> bool" where
  "valid_credentials c \<longleftrightarrow>
     8 \<le> length (username c) \<and> length (username c) \<le> 256 \<and> list_all is_printable_ascii (username c) \<and>
     8 \<le> length (password c) \<and> length (password c) \<le> 1024 \<and> list_all is_printable_ascii (password c) \<and>
     CHR '':'' \<notin> set (username c)"

lemma validateField_Inr:
  "validateField v name lo hi = Inr s \<longleftrightarrow>
     v = JStr s \<and> lo \<le> length s \<and> length s \<le> hi \<and> PRINTABLE_ASCII s"
  by (cases v) (auto simp: validateField_def)

lemma validateBasicCredentials_Inr:
  "validateBasicCredentials raw = Inr c \<longleftrightarrow>
     is_object raw \<and> length (own_keys raw) = 2 \<and> ''username'' \<in> set (own_keys raw) \<and>
     ''password'' \<in> set (own_keys raw) \<and> getProp raw ''username'' = JStr (username c) \<and>
     getProp raw ''password'' = JStr (password c) \<and> valid_credentials c"
proof -
  have ex: "(\<exists>u. A u \<and> B u \<and> (\<exists>p. C p \<and> D p \<and> E u \<and> c = \<lparr>username = u, password = p\<rparr>))
      \<longleftrightarrow> A (username c) \<and> B (username c) \<and> C (password c) \<and> D (password c) \<and> E (username c)"
    for A B C D E by (cases c) auto
  show ?thesis
    unfolding validateBasicCredentials_def guard_simps validateField_Inr de_Morgan_disj not_not
      credential_bounds valid_credentials_def PRINTABLE_ASCII_def sum.inject(2)
    by (cases c) (auto simp del: getProp.simps)
qed

lemma basic_value_inj:
  assumes "CHR '':'' \<notin> set (username a)" "CHR '':'' \<notin> set (username b)"
    "basicAuthorizationValue a = basicAuthorizationValue b"
  shows "a = b"
proof -
  from assms(3) have eq: "username a @ CHR '':'' # password a = username b @ CHR '':'' # password b"
    by (simp add: basicAuthorizationValue_def)
  then have "indexOf (username a @ CHR '':'' # password a) CHR '':'' =
      indexOf (username b @ CHR '':'' # password b) CHR '':''" by simp
  with assms(1,2) have "length (username a) = length (username b)"
    by (simp add: indexOf_append_absent)
  with eq show ?thesis by (cases a; cases b) simp
qed

subsection \<open>Agent tokens\<close>

datatype token_error = InvalidShape

definition MIN_AGENT_TOKEN_LENGTH :: nat where "MIN_AGENT_TOKEN_LENGTH = 16"
definition MAX_AGENT_TOKEN_LENGTH :: nat where "MAX_AGENT_TOKEN_LENGTH = 512"

definition is_token_char :: "char \<Rightarrow> bool" where
  "is_token_char c \<longleftrightarrow> 33 \<le> code c \<and> code c \<le> 126"

definition validateAgentToken :: "jsval \<Rightarrow> token_error + string" where
  "validateAgentToken v =
     (case str_of v of
        None \<Rightarrow> Inl InvalidShape
      | Some s \<Rightarrow>
          if length s < MIN_AGENT_TOKEN_LENGTH \<or> MAX_AGENT_TOKEN_LENGTH < length s
             \<or> \<not> list_all is_token_char s \<or> CHR '':'' \<in> set s
          then Inl InvalidShape else Inr s)"

definition oneCliProxyAuthorizationValue :: "jsval \<Rightarrow> token_error + string" where
  "oneCliProxyAuthorizationValue v =
     (case validateAgentToken v of
        Inl e \<Rightarrow> Inl e
      | Inr token \<Rightarrow> Inr (''Basic '' @ base64 (token @ '':'')))"

definition valid_token :: "string \<Rightarrow> bool" where
  "valid_token s \<longleftrightarrow> 16 \<le> length s \<and> length s \<le> 512 \<and> list_all is_token_char s \<and> CHR '':'' \<notin> set s"

lemma validateAgentToken_Inr: "validateAgentToken v = Inr s \<longleftrightarrow> v = JStr s \<and> valid_token s"
  by (cases v) (auto simp: validateAgentToken_def valid_token_def MIN_AGENT_TOKEN_LENGTH_def
      MAX_AGENT_TOKEN_LENGTH_def)

subsection \<open>Properties\<close>

text \<open>C26: a credential bundle is accepted exactly when it is an object whose two keys are the
  user name and the password, both printable ASCII within their length bounds, and the user
  name has no colon; the copy holds the same two strings.\<close>

theorem basic_bundle_accepted_exactly:
  "validateBasicCredentials raw = Inr c \<longleftrightarrow>
     is_object raw \<and> length (own_keys raw) = 2 \<and> ''username'' \<in> set (own_keys raw) \<and>
     ''password'' \<in> set (own_keys raw) \<and> getProp raw ''username'' = JStr (username c) \<and>
     getProp raw ''password'' = JStr (password c) \<and> valid_credentials c"
  by (rule validateBasicCredentials_Inr)

text \<open>C22: the Basic authorization value of an accepted bundle decodes to exactly
  \<open>username:password\<close>, and two accepted bundles with the same value are the same bundle:
  no user name can borrow a part of the password.\<close>

theorem basic_authorization_unambiguous:
  assumes "validateBasicCredentials r1 = Inr a" "validateBasicCredentials r2 = Inr b"
  shows "base64_decode (drop 6 (basicAuthorizationValue a)) = username a @ '':'' @ password a \<and>
         (basicAuthorizationValue a = basicAuthorizationValue b \<longleftrightarrow> a = b)"
proof -
  have "CHR '':'' \<notin> set (username a)" "CHR '':'' \<notin> set (username b)"
    using assms by (simp_all add: validateBasicCredentials_Inr valid_credentials_def)
  then have "basicAuthorizationValue a = basicAuthorizationValue b \<longleftrightarrow> a = b"
    using basic_value_inj by blast
  then show ?thesis by (simp add: basicAuthorizationValue_def)
qed

definition sample_bundle :: jsval where
  "sample_bundle = JObj [(''username'', JStr ''operator''), (''password'', JStr ''pass:word'')]"

theorem basic_authorization_unambiguous_witness:
  "basicAuthorizationValue \<lparr>username = ''operator'', password = ''pass:word''\<rparr> \<noteq>
     basicAuthorizationValue \<lparr>username = ''operator'', password = ''pass word''\<rparr>"
proof -
  have a: "validateBasicCredentials sample_bundle = Inr \<lparr>username = ''operator'', password = ''pass:word''\<rparr>"
    and b: "validateBasicCredentials (JObj [(''password'', JStr ''pass word''), (''username'', JStr ''operator'')]) =
        Inr \<lparr>username = ''operator'', password = ''pass word''\<rparr>"
    by code_simp+
  show ?thesis using basic_authorization_unambiguous [OF a b] by simp
qed

text \<open>The proxy authorization of an agent token exists exactly for a token of 16 to 512
  visible ASCII characters without a colon, and decodes to the token followed by one colon.\<close>

theorem proxy_authorization_decodes:
  "oneCliProxyAuthorizationValue v = Inr h \<longleftrightarrow>
     (\<exists>t. v = JStr t \<and> valid_token t \<and> h = ''Basic '' @ base64 (t @ '':'') \<and>
          base64_decode (drop 6 h) = t @ '':'')"
  unfolding oneCliProxyAuthorizationValue_def call_Inr validateAgentToken_Inr by auto

end
