(* ===== verification/Redaction.thy ===== *)
theory Redaction
  imports BasicCredentials
begin

text \<open>
  Credential redaction (\<open>broker.js\<close>): the encoded forms of a credential, the scan for them
  and their replacement in log text and nested log metadata. The contract every redactor of
  the bridge is held to is the locale \<open>text_redactor\<close>; the percent-insensitive redactor of
  the HTTP broker interprets it here, the literal redactors of the session brokers in their
  own theories.
\<close>

subsection \<open>Replacing by a marker\<close>

text \<open>The text of a scan: where the needle starts in \<open>ks\<close>, the aligned piece of \<open>ts\<close> is
  replaced by the marker. \<open>ks\<close> is a copy of \<open>ts\<close> of the same length.\<close>

function mark_scan :: "string \<Rightarrow> string \<Rightarrow> string \<Rightarrow> string \<Rightarrow> string" where
  "mark_scan mark n (k # ks) (t # ts) =
     (if n \<noteq> [] \<and> prefix n (k # ks)
      then mark @ mark_scan mark n (drop (length n) (k # ks)) (drop (length n) (t # ts))
      else t # mark_scan mark n ks ts)"
| "mark_scan mark n [] ts = []"
| "mark_scan mark n (k # ks) [] = []"
  by pat_completeness auto
termination
  by (relation "measure (\<lambda>(m, n, ks, ts). length ks)") auto

declare mark_scan.simps [simp del]

lemma mark_scan_simps:
  "mark_scan mark n [] [] = []"
  "n \<noteq> [] \<Longrightarrow> prefix n (k # ks) \<Longrightarrow> mark_scan mark n (k # ks) (t # ts) =
     mark @ mark_scan mark n (drop (length n) (k # ks)) (drop (length n) (t # ts))"
  "\<not> (n \<noteq> [] \<and> prefix n (k # ks)) \<Longrightarrow>
     mark_scan mark n (k # ks) (t # ts) = t # mark_scan mark n ks ts"
proof -
  show "mark_scan mark n [] [] = []" by (simp add: mark_scan.simps)
  show "n \<noteq> [] \<Longrightarrow> prefix n (k # ks) \<Longrightarrow> mark_scan mark n (k # ks) (t # ts) =
     mark @ mark_scan mark n (drop (length n) (k # ks)) (drop (length n) (t # ts))"
    by (subst mark_scan.simps) simp
  show "\<not> (n \<noteq> [] \<and> prefix n (k # ks)) \<Longrightarrow>
     mark_scan mark n (k # ks) (t # ts) = t # mark_scan mark n ks ts"
    by (subst mark_scan.simps) (simp only: if_False)
qed

text \<open>Aligned induction: a match drops the needle's length from both, otherwise one character.\<close>

lemma mark_scan_induct [consumes 1, case_names Nil Match Skip]:
  assumes "length ks = length ts" and "P [] []"
    and "\<And>k ks t ts. \<lbrakk>length ks = length ts; n \<noteq> []; prefix n (k # ks);
           P (drop (length n) (k # ks)) (drop (length n) (t # ts))\<rbrakk> \<Longrightarrow> P (k # ks) (t # ts)"
    and "\<And>k ks t ts. \<lbrakk>length ks = length ts; \<not> (n \<noteq> [] \<and> prefix n (k # ks)); P ks ts\<rbrakk>
           \<Longrightarrow> P (k # ks) (t # ts)"
  shows "P ks ts"
  using assms(1)
proof (induction "length ks" arbitrary: ks ts rule: less_induct)
  case less
  show ?case
  proof (cases ks)
    case Nil
    with less.prems assms(2) show ?thesis by simp
  next
    case (Cons k ks')
    then obtain t ts' where ts: "ts = t # ts'" and len: "length ks' = length ts'"
      using less.prems by (cases ts) auto
    show ?thesis
    proof (cases "n \<noteq> [] \<and> prefix n (k # ks')")
      case True
      then have "length (drop (length n) (k # ks')) < length ks" using Cons by (cases n) auto
      moreover have "length (drop (length n) (k # ks')) = length (drop (length n) (t # ts'))"
        using len by simp
      ultimately have "P (drop (length n) (k # ks')) (drop (length n) (t # ts'))"
        by (rule less.hyps)
      with True len show ?thesis unfolding Cons ts by (intro assms(3)) simp_all
    next
      case False
      have "P ks' ts'" by (rule less.hyps) (simp_all add: Cons len)
      with False len show ?thesis unfolding Cons ts by (intro assms(4)) simp_all
    qed
  qed
qed

text \<open>A needle that a marker can neither contain nor complete.\<close>

definition marker_safe :: "string \<Rightarrow> string \<Rightarrow> bool" where
  "marker_safe inner v \<longleftrightarrow> v \<noteq> [] \<and> CHR ''['' \<notin> set v \<and> CHR '']'' \<notin> set v \<and> \<not> contains inner v"

definition bracketed :: "string \<Rightarrow> string" where
  "bracketed inner = CHR ''['' # inner @ [CHR '']'']"

lemma prefix_mark_scan:
  assumes "length ks = length ts" "prefix w (mark_scan (bracketed inner) n ks ts)" "CHR ''['' \<notin> set w"
  shows "prefix w ts"
  using assms
proof (induction arbitrary: w rule: mark_scan_induct [where n = n])
  case (Match k ks t ts)
  then show ?case by (cases w) (auto simp: mark_scan_simps bracketed_def)
next
  case (Skip k ks t ts)
  show ?case
  proof (cases w)
    case (Cons c w')
    with Skip show ?thesis by (auto simp: mark_scan_simps)
  qed simp
qed (simp add: mark_scan_simps)

lemma contains_split_char:
  assumes "x \<notin> set v" "contains (s @ x # t) v" "v \<noteq> []"
  shows "contains s v \<or> contains t v"
proof -
  from assms(2) obtain a b where eq: "s @ x # t = a @ v @ b" by (auto simp: contains_iff)
  show ?thesis
  proof (cases "length a + length v \<le> length s")
    case True
    have "s = take (length s) (a @ v @ b)" by (simp add: eq [symmetric])
    also have "\<dots> = a @ v @ take (length s - length a - length v) b" using True by simp
    finally show ?thesis by (auto simp: contains_iff)
  next
    case False
    have "length s < length a"
    proof (rule ccontr)
      assume n: "\<not> length s < length a"
      have "x = (a @ v @ b) ! length s" by (simp add: eq [symmetric])
      also have "\<dots> = v ! (length s - length a)"
      proof -
        have "length s - length a < length v" "\<not> length s < length a" using n False by linarith+
        then show ?thesis by (simp only: nth_append if_False if_True)
      qed
      also have "\<dots> \<in> set v" using n False by (intro nth_mem) linarith
      finally show False using assms(1) by simp
    qed
    then have "t = drop (length s + 1) (a @ v @ b)" "length s + 1 \<le> length a"
      by (simp_all add: eq [symmetric])
    then have "t = drop (length s + 1) a @ v @ b" by simp
    then show ?thesis by (auto simp: contains_iff)
  qed
qed

lemma contains_marker:
  assumes "marker_safe inner v" "contains (bracketed inner @ rest) v"
  shows "contains rest v"
proof -
  from assms have v: "v \<noteq> []" "CHR ''['' \<notin> set v" "CHR '']'' \<notin> set v" "\<not> contains inner v"
    by (simp_all add: marker_safe_def)
  have "contains (inner @ CHR '']'' # rest) v"
    using contains_split_char [OF v(2), of "[]"] assms(2) v(1) by (auto simp: bracketed_def)
  with contains_split_char [OF v(3)] v show ?thesis by blast
qed

lemma mark_scan_preserves:
  assumes "length ks = length ts" "marker_safe inner v" "\<not> contains ts v"
  shows "\<not> contains (mark_scan (bracketed inner) n ks ts) v"
  using assms
proof (induction rule: mark_scan_induct [where n = n])
  case Nil
  then show ?case by (simp add: mark_scan_simps)
next
  case (Match k ks t ts)
  have "\<not> contains (drop (length n) (t # ts)) v" using Match.prems(2) contains_drop by blast
  with Match show ?case
    using contains_marker by (fastforce simp: mark_scan_simps simp del: contains.simps)
next
  case (Skip k ks t ts)
  have "\<not> prefix v (t # mark_scan (bracketed inner) n ks ts)"
  proof
    assume p: "prefix v (t # mark_scan (bracketed inner) n ks ts)"
    then have "prefix v (mark_scan (bracketed inner) n (k # ks) (t # ts))"
      using Skip.hyps(2) by (simp add: mark_scan_simps(3))
    then have "prefix v (t # ts)"
      by (rule prefix_mark_scan [rotated]) (use Skip in \<open>auto simp: marker_safe_def\<close>)
    with Skip.prems(2) show False by simp
  qed
  with Skip show ?case by (simp add: mark_scan_simps(3))
qed

text \<open>The needle itself: it is gone when every occurrence in the text is one in the copy.\<close>

lemma mark_scan_removes:
  assumes "length ks = length ts" "marker_safe inner v"
    "\<And>i. prefix v (drop i ts) \<Longrightarrow> prefix v (drop i ks)"
  shows "\<not> contains (mark_scan (bracketed inner) v ks ts) v"
  using assms
proof (induction rule: mark_scan_induct [where n = v])
  case Nil
  then show ?case by (simp add: mark_scan_simps marker_safe_def)
next
  case (Match k ks t ts)
  have "prefix v (drop i (drop (length v) (k # ks)))" if "prefix v (drop i (drop (length v) (t # ts)))" for i
    using Match.prems(2) [of "i + length v"] that by (simp add: add.commute)
  with Match show ?case
    using contains_marker by (fastforce simp: mark_scan_simps simp del: contains.simps)
next
  case (Skip k ks t ts)
  have sub: "prefix v (drop i ks)" if "prefix v (drop i ts)" for i
    using Skip.prems(2) [of "Suc i"] that by simp
  have "\<not> prefix v (t # mark_scan (bracketed inner) v ks ts)"
  proof
    assume p: "prefix v (t # mark_scan (bracketed inner) v ks ts)"
    then have "prefix v (mark_scan (bracketed inner) v (k # ks) (t # ts))"
      using Skip.hyps(2) by (simp add: mark_scan_simps(3))
    then have "prefix v (t # ts)"
      by (rule prefix_mark_scan [rotated]) (use Skip in \<open>auto simp: marker_safe_def\<close>)
    then have "prefix v (k # ks)" using Skip.prems(2) [of 0] by simp
    with Skip.hyps(2) Skip.prems(1) show False by (simp add: marker_safe_def)
  qed
  with Skip sub show ?case by (simp add: mark_scan_simps(3))
qed

subsection \<open>The contract of a text redactor\<close>

text \<open>One step replaces one needle by the marker. \<open>removes\<close> and \<open>preserves\<close> are what the
  client needs to conclude that a fold over all variants leaves none of them.\<close>

locale text_redactor =
  fixes step :: "string \<Rightarrow> string \<Rightarrow> string"
    and safe :: "string \<Rightarrow> bool"
  assumes removes: "safe v \<Longrightarrow> \<not> contains (step t v) v"
    and preserves: "safe v \<Longrightarrow> \<not> contains t v \<Longrightarrow> \<not> contains (step t n) v"
begin

lemma fold_preserves:
  "safe v \<Longrightarrow> \<not> contains t v \<Longrightarrow> \<not> contains (foldl step t ns) v"
  by (induction ns arbitrary: t) (auto simp: preserves)

lemma fold_removes:
  "safe v \<Longrightarrow> v \<in> set ns \<Longrightarrow> \<not> contains (foldl step t ns) v"
proof (induction ns arbitrary: t)
  case Nil
  then show ?case by simp
next
  case (Cons n ns)
  then show ?case
    by (cases "v = n") (simp_all add: fold_preserves removes)
qed

end

subsection \<open>Percent escapes\<close>

text \<open>\<open>value.replace(/%[0-9a-fA-F]{2}/g, (triplet) => triplet.toLowerCase())\<close>\<close>

fun lowerPercentEscapes :: "string \<Rightarrow> string" where
  "lowerPercentEscapes (p # a # b # cs) =
     (if p = CHR ''%'' \<and> is_hex a \<and> is_hex b
      then p # lower_char a # lower_char b # lowerPercentEscapes cs
      else p # lowerPercentEscapes (a # b # cs))"
| "lowerPercentEscapes cs = cs"

lemma length_lowerPercentEscapes [simp]: "length (lowerPercentEscapes s) = length s"
  by (induction s rule: lowerPercentEscapes.induct) auto

lemma lowerPercentEscapes_plain: "CHR ''%'' \<notin> set s \<Longrightarrow> lowerPercentEscapes s = s"
  by (induction s rule: lowerPercentEscapes.induct) auto

lemma lowerPercentEscapes_Cons:
  "c \<noteq> CHR ''%'' \<Longrightarrow> lowerPercentEscapes (c # s) = c # lowerPercentEscapes s"
proof (cases s)
  case (Cons d t)
  assume "c \<noteq> CHR ''%''"
  then show ?thesis using Cons by (cases t) auto
qed simp

lemma prefix_lowerPercentEscapes:
  "CHR ''%'' \<notin> set w \<Longrightarrow> prefix w s \<Longrightarrow> prefix w (lowerPercentEscapes s)"
proof (induction w arbitrary: s)
  case (Cons c w)
  then obtain s' where "s = c # s'" "prefix w s'" by (cases s) auto
  moreover have "lowerPercentEscapes (c # s') = c # lowerPercentEscapes s'"
    using Cons.prems(1) by (intro lowerPercentEscapes_Cons) auto
  ultimately show ?case using Cons by simp
qed simp

text \<open>A needle that no escape of the surrounding text can change: it has no percent sign, and
  the one or two characters an escape to its left could reach are not upper-case hex digits.\<close>

definition upper_hex_digit :: "char \<Rightarrow> bool" where
  "upper_hex_digit c \<longleftrightarrow> is_hex c \<and> is_upper c"

fun unaffected :: "string \<Rightarrow> bool" where
  "unaffected [] = False"
| "unaffected (a # r) =
     (CHR ''%'' \<notin> set (a # r) \<and> \<not> upper_hex_digit a
      \<and> (is_hex a \<longrightarrow> (case r of [] \<Rightarrow> True | b # _ \<Rightarrow> \<not> upper_hex_digit b)))"

lemma lower_char_same: "is_hex c \<Longrightarrow> \<not> upper_hex_digit c \<Longrightarrow> lower_char c = c"
  by (simp add: lower_char_def upper_hex_digit_def)

lemma unaffected_occurrence:
  "unaffected v \<Longrightarrow> prefix v (drop i s) \<Longrightarrow> prefix v (drop i (lowerPercentEscapes s))"
proof (induction s arbitrary: i rule: lowerPercentEscapes.induct)
  case (1 p a b cs)
  from "1.prems"(1) obtain h r where v: "v = h # r" by (cases v) auto
  have np: "CHR ''%'' \<notin> set v" using "1.prems"(1) v by simp
  show ?case
  proof (cases "p = CHR ''%'' \<and> is_hex a \<and> is_hex b")
    case True
    consider "i = 0" | "i = 1" | "i = 2" | j where "i = Suc (Suc (Suc j))"
      by (metis One_nat_def Suc_1 not0_implies_Suc)
    then show ?thesis
    proof cases
      case 1
      with "1.prems"(2) True v np show ?thesis by simp
    next
      case 2
      with "1.prems"(2) v have h: "h = a" "prefix r (b # cs)" by auto
      have la: "lower_char a = a" using "1.prems"(1) True v h(1) by (intro lower_char_same) auto
      show ?thesis
      proof (cases r)
        case Nil
        then show ?thesis using 2 True v h(1) la by simp
      next
        case (Cons h2 r2)
        with h have h2: "h2 = b" "prefix r2 cs" by auto
        have "lower_char b = b"
          using "1.prems"(1) True v h(1) Cons h2(1) by (intro lower_char_same) auto
        moreover have "prefix r2 (lowerPercentEscapes cs)"
          using prefix_lowerPercentEscapes h2(2) np v Cons by simp
        ultimately show ?thesis using 2 True v h(1) la Cons h2(1) by simp
      qed
    next
      case 3
      with "1.prems"(2) v have h: "h = b" "prefix r cs" by auto
      have "lower_char b = b" using "1.prems"(1) True v h(1) by (intro lower_char_same) auto
      moreover have "prefix r (lowerPercentEscapes cs)"
        using prefix_lowerPercentEscapes h(2) np v by simp
      ultimately show ?thesis using 3 True v h(1) by simp
    next
      case 4
      with "1.IH"(1) [OF True "1.prems"(1), of j] "1.prems"(2) True show ?thesis by simp
    qed
  next
    case False
    show ?thesis
    proof (cases i)
      case 0
      then show ?thesis using prefix_lowerPercentEscapes [OF np, of "p # a # b # cs"] "1.prems"(2)
        by (simp del: lowerPercentEscapes.simps)
    next
      case (Suc j)
      have "lowerPercentEscapes (p # a # b # cs) = p # lowerPercentEscapes (a # b # cs)"
        using False by (simp only: lowerPercentEscapes.simps if_False)
      with Suc "1.IH"(2) [OF False "1.prems"(1), of j] "1.prems"(2) show ?thesis
        by (simp del: lowerPercentEscapes.simps)
    qed
  qed
qed auto

lemma unaffected_contains:
  assumes "unaffected v" "contains s v"
  shows "contains (lowerPercentEscapes s) v"
proof -
  from assms(2) obtain a b where "s = a @ v @ b" by (auto simp: contains_iff)
  then have "prefix v (drop (length a) s)" by simp
  then have "prefix v (drop (length a) (lowerPercentEscapes s))"
    by (rule unaffected_occurrence [OF assms(1)])
  then show ?thesis using contains_prefixI contains_drop by blast
qed

subsection \<open>The redactor of the HTTP broker\<close>

definition REDACTED :: string where
  "REDACTED = ''[REDACTED]''"

text \<open>\<open>s.indexOf(needle, from)\<close>\<close>

function indexFrom :: "string \<Rightarrow> string \<Rightarrow> nat \<Rightarrow> nat option" where
  "indexFrom s n i = (if length s < i then None
                      else if prefix n (drop i s) then Some i else indexFrom s n (Suc i))"
  by pat_completeness auto
termination
  by (relation "measure (\<lambda>(s, n, i). Suc (length s) - i)") auto

declare indexFrom.simps [simp del]

lemma indexFrom_bounds:
  "indexFrom s n i = Some j \<Longrightarrow> i \<le> j \<and> prefix n (drop j s)"
proof (induction s n i rule: indexFrom.induct)
  case (1 s n i)
  then show ?case by (subst (asm) indexFrom.simps) (auto split: if_splits)
qed

text \<open>The loop over the occurrences, with the accumulated result and the cursor. The callers
  pass non-empty variants only; the guard stands for that.\<close>

function redact_loop :: "string \<Rightarrow> string \<Rightarrow> string \<Rightarrow> nat \<Rightarrow> string \<Rightarrow> string" where
  "redact_loop text canonical needle cursor result =
     (case (if needle = [] then None else indexFrom canonical needle cursor) of
        None \<Rightarrow> result @ drop cursor text
      | Some at \<Rightarrow>
          redact_loop text canonical needle (at + length needle)
            (result @ take (at - cursor) (drop cursor text) @ REDACTED))"
  by pat_completeness auto
termination
proof (relation "measure (\<lambda>(t, c, n, i, r). Suc (length c) - i)", goal_cases)
  case (2 t c n i r j)
  then have "n \<noteq> []" "i \<le> j" "prefix n (drop j c)"
    by (auto split: if_splits dest: indexFrom_bounds)
  then have "length n \<le> length c - j" "0 < length n"
    by (auto dest: prefix_length_le)
  with \<open>i \<le> j\<close> have "Suc (length c) - (j + length n) < Suc (length c) - i" by linarith
  then show ?case by simp
qed simp

declare redact_loop.simps [simp del]

definition redactPercentVariant :: "string \<Rightarrow> string \<Rightarrow> string" where
  "redactPercentVariant text variant =
     redact_loop text (lowerPercentEscapes text) (lowerPercentEscapes variant) 0 []"

lemma indexFrom_Some:
  assumes "indexFrom s n i = Some j"
  shows "\<forall>k. i \<le> k \<and> k < j \<longrightarrow> \<not> prefix n (drop k s)"
  using assms
proof (induction s n i rule: indexFrom.induct)
  case (1 s n i)
  from "1.prems" have "prefix n (drop i s) \<and> j = i \<or> \<not> prefix n (drop i s) \<and> indexFrom s n (Suc i) = Some j"
    and "\<not> length s < i"
    by (subst (asm) indexFrom.simps; auto split: if_splits)+
  with 1 show ?case
    by (auto simp: not_less_eq_eq) (metis le_antisym not_less_eq_eq)
qed

lemma indexFrom_None:
  assumes "indexFrom s n i = None" "n \<noteq> []"
  shows "\<forall>k \<ge> i. \<not> prefix n (drop k s)"
  using assms
proof (induction s n i rule: indexFrom.induct)
  case (1 s n i)
  show ?case
  proof (cases "length s < i")
    case True
    with "1.prems"(2) show ?thesis by auto
  next
    case False
    with "1.prems" have "\<not> prefix n (drop i s)" "indexFrom s n (Suc i) = None"
      by (subst (asm) indexFrom.simps; auto split: if_splits)+
    with 1 False show ?thesis by (metis le_antisym not_less_eq_eq)
  qed
qed

lemma mark_scan_none:
  "length ks = length ts \<Longrightarrow> \<forall>k. \<not> prefix n (drop k ks) \<Longrightarrow> mark_scan m n ks ts = ts"
proof (induction rule: mark_scan_induct [where n = n])
  case (Match k ks t ts)
  then show ?case by (metis drop0)
next
  case (Skip k ks t ts)
  then have "\<forall>j. \<not> prefix n (drop j ks)" by (metis drop_Suc_Cons)
  with Skip show ?case by (simp add: mark_scan_simps(3))
qed (simp add: mark_scan_simps)

lemma mark_scan_skip:
  assumes "length ks = length ts" "\<forall>k < j. \<not> prefix n (drop k ks)" "prefix n (drop j ks)" "n \<noteq> []"
  shows "mark_scan m n ks ts = take j ts @ m @ mark_scan m n (drop (j + length n) ks) (drop (j + length n) ts)"
  using assms
proof (induction j arbitrary: ks ts)
  case 0
  then obtain k ks' t ts' where "ks = k # ks'" "ts = t # ts'"
    by (cases ks; cases ts) auto
  with 0 show ?case by (simp add: mark_scan_simps(2) del: prefix_Cons)
next
  case (Suc j)
  then obtain k ks' t ts' where e: "ks = k # ks'" "ts = t # ts'"
    by (cases ks; cases ts) auto
  from Suc.prems(2) have "\<not> prefix n ks" "\<forall>k < j. \<not> prefix n (drop k ks')"
    unfolding e by (metis drop0 zero_less_Suc, metis Suc_less_eq drop_Suc_Cons)
  with Suc e show ?case by (simp add: mark_scan_simps(3))
qed

lemma redact_loop_scan:
  assumes "length c = length t" "n \<noteq> []"
  shows "redact_loop t c n i r = r @ mark_scan REDACTED n (drop i c) (drop i t)"
  using assms
proof (induction t c n i r rule: redact_loop.induct)
  case (1 t c n i r)
  show ?case
  proof (cases "indexFrom c n i")
    case None
    then have "\<forall>k. \<not> prefix n (drop k (drop i c))"
      using indexFrom_None [OF None "1.prems"(2)] by simp
    with None 1 show ?thesis
      by (subst redact_loop.simps) (simp add: mark_scan_none)
  next
    case (Some j)
    note b = indexFrom_bounds [OF Some] indexFrom_Some [OF Some]
    have "mark_scan REDACTED n (drop i c) (drop i t) = take (j - i) (drop i t) @ REDACTED @
        mark_scan REDACTED n (drop (j - i + length n) (drop i c)) (drop (j - i + length n) (drop i t))"
      by (rule mark_scan_skip) (use b "1.prems" in auto)
    moreover have "j - i + length n + i = j + length n" using b(1) by simp
    moreover have "redact_loop t c n (j + length n) (r @ take (j - i) (drop i t) @ REDACTED) =
        (r @ take (j - i) (drop i t) @ REDACTED) @ mark_scan REDACTED n (drop (j + length n) c) (drop (j + length n) t)"
      using 1 Some by simp
    ultimately show ?thesis
      using Some "1.prems"(2) by (subst redact_loop.simps) simp
  qed
qed

text \<open>The loop replaces the leftmost occurrences of the canonical needle in the canonical text.\<close>

lemma mark_scan_empty: "length ks = length ts \<Longrightarrow> mark_scan m [] ks ts = ts"
  by (induction rule: mark_scan_induct [where n = "[]"]) (simp_all add: mark_scan_simps(1,3))

lemma redactPercentVariant_scan:
  "redactPercentVariant t v = mark_scan REDACTED (lowerPercentEscapes v) (lowerPercentEscapes t) t"
proof (cases "lowerPercentEscapes v = []")
  case True
  then show ?thesis
    unfolding redactPercentVariant_def by (subst redact_loop.simps) (simp add: mark_scan_empty)
next
  case False
  then show ?thesis unfolding redactPercentVariant_def by (simp add: redact_loop_scan)
qed

definition broker_safe :: "string \<Rightarrow> bool" where
  "broker_safe v \<longleftrightarrow> marker_safe ''REDACTED'' v \<and> unaffected v"

lemma REDACTED_bracketed: "REDACTED = bracketed ''REDACTED''"
  by (simp add: REDACTED_def bracketed_def)

lemma unaffected_plain: "unaffected v \<Longrightarrow> lowerPercentEscapes v = v"
  by (cases v) (auto intro: lowerPercentEscapes_plain)

interpretation http_redactor: text_redactor redactPercentVariant broker_safe
proof unfold_locales
  fix v t
  assume s: "broker_safe v"
  then have "lowerPercentEscapes v = v" by (simp add: broker_safe_def unaffected_plain)
  then have "redactPercentVariant t v = mark_scan (bracketed ''REDACTED'') v (lowerPercentEscapes t) t"
    by (simp only: redactPercentVariant_scan REDACTED_bracketed)
  moreover have "\<not> contains (mark_scan (bracketed ''REDACTED'') v (lowerPercentEscapes t) t) v"
    by (rule mark_scan_removes) (use s unaffected_occurrence in \<open>auto simp: broker_safe_def\<close>)
  ultimately show "\<not> contains (redactPercentVariant t v) v" by simp
next
  fix v t n
  assume "broker_safe v" "\<not> contains t v"
  then have "\<not> contains (mark_scan (bracketed ''REDACTED'') (lowerPercentEscapes n) (lowerPercentEscapes t) t) v"
    by (intro mark_scan_preserves) (simp_all add: broker_safe_def)
  then show "\<not> contains (redactPercentVariant t n) v"
    by (simp only: redactPercentVariant_scan REDACTED_bracketed not_False_eq_True)
qed

subsection \<open>Sensitive variants\<close>

definition nonempty_set :: "string list \<Rightarrow> string list" where
  "nonempty_set vs = jsSet (filter (\<lambda>v. 0 < length v) vs)"

definition buildSentinelSensitiveVariants :: "string \<Rightarrow> string list" where
  "buildSentinelSensitiveVariants sentinel = nonempty_set
     [sentinel, encodeURIComponent sentinel, toLowerCase (encodeURIComponent sentinel),
      lowerPercentEscapes (encodeURIComponent sentinel), base64 sentinel, base64url sentinel]"

definition form_value :: "string \<Rightarrow> string" where
  "form_value serialized = (case indexOf serialized (CHR ''='') of
     Some i \<Rightarrow> drop (Suc i) serialized | None \<Rightarrow> serialized)"

definition buildQuerySensitiveVariants :: "string \<Rightarrow> string \<Rightarrow> string list" where
  "buildQuerySensitiveVariants queryName sentinel =
     (let serialized = serialize_params [(queryName, sentinel)];
          formValue = form_value serialized;
          encodedValue = encodeURIComponent sentinel;
          pre = queryName @ ''=''
      in jsSet (buildSentinelSensitiveVariants sentinel @
           filter (\<lambda>v. 0 < length v)
             [pre @ sentinel, pre @ encodedValue, pre @ toLowerCase encodedValue, serialized,
              lowerPercentEscapes serialized, formValue, lowerPercentEscapes formValue] @
           (if CHR '' '' \<in> set sentinel then [pre @ map (\<lambda>c. if c = CHR '' '' then CHR ''+'' else c) sentinel]
            else [])))"

text \<open>\<open>s.replace(/%[0-9A-F]{2}/g, (triplet) => triplet.toLowerCase())\<close>\<close>

definition is_upper_hex_char :: "char \<Rightarrow> bool" where
  "is_upper_hex_char c \<longleftrightarrow> is_digit c \<or> (65 \<le> code c \<and> code c \<le> 70)"

fun lowerUpperEscapes :: "string \<Rightarrow> string" where
  "lowerUpperEscapes (p # a # b # cs) =
     (if p = CHR ''%'' \<and> is_upper_hex_char a \<and> is_upper_hex_char b
      then p # lower_char a # lower_char b # lowerUpperEscapes cs
      else p # lowerUpperEscapes (a # b # cs))"
| "lowerUpperEscapes cs = cs"

definition buildBasicSensitiveVariants :: "basic_credentials \<Rightarrow> string list" where
  "buildBasicSensitiveVariants c =
     (let joined = username c @ '':'' @ password c;
          payload = base64 joined;
          fullAuthorization = ''Basic '' @ payload
      in nonempty_set (concat (map
           (\<lambda>v. [v, encodeURIComponent v, lowerUpperEscapes (encodeURIComponent v), base64 v, base64url v])
           [username c, password c, joined, payload, fullAuthorization])))"

subsection \<open>Values\<close>

text \<open>Longest first; the sort is stable, as JavaScript's.\<close>

definition by_length :: "string list \<Rightarrow> string list" where
  "by_length vs = sort_key (\<lambda>v. - int (length v)) vs"

definition redactText :: "string list \<Rightarrow> string \<Rightarrow> string" where
  "redactText variants s = foldl redactPercentVariant s (by_length variants)"

fun assign_all :: "(string \<times> 'v) list \<Rightarrow> (string \<times> 'v) list \<Rightarrow> (string \<times> 'v) list" where
  "assign_all out [] = out"
| "assign_all out ((k, v) # ps) = assign_all (obj_assign out k v) ps"

fun redactSensitiveVariants :: "string list \<Rightarrow> jsval \<Rightarrow> jsval"
  and redact_elems :: "string list \<Rightarrow> jsval list \<Rightarrow> jsval list"
  and redact_members :: "string list \<Rightarrow> (string \<times> jsval) list \<Rightarrow> (string \<times> jsval) list" where
  "redactSensitiveVariants variants (JStr s) = JStr (redactText variants s)"
| "redactSensitiveVariants variants (JArr vs) = JArr (redact_elems variants vs)"
| "redactSensitiveVariants variants (JObj ps) =
     JObj (js_order (assign_all [] (redact_members variants ps)))"
| "redactSensitiveVariants variants v = v"
| "redact_elems variants [] = []"
| "redact_elems variants (v # vs) = redactSensitiveVariants variants v # redact_elems variants vs"
| "redact_members variants [] = []"
| "redact_members variants ((k, v) # ps) =
     (redactText variants k, redactSensitiveVariants variants v) # redact_members variants ps"

definition redactSentinel :: "jsval \<Rightarrow> string \<Rightarrow> jsval" where
  "redactSentinel v sentinel = redactSensitiveVariants (buildSentinelSensitiveVariants sentinel) v"

text \<open>Every string of a value: its string leaves and its property names.\<close>

fun texts :: "jsval \<Rightarrow> string set"
  and texts_elems :: "jsval list \<Rightarrow> string set"
  and texts_members :: "(string \<times> jsval) list \<Rightarrow> string set" where
  "texts (JStr s) = {s}"
| "texts (JArr vs) = texts_elems vs"
| "texts (JObj ps) = texts_members ps"
| "texts v = {}"
| "texts_elems [] = {}"
| "texts_elems (v # vs) = texts v \<union> texts_elems vs"
| "texts_members [] = {}"
| "texts_members ((k, v) # ps) = {k} \<union> texts v \<union> texts_members ps"

lemma texts_members_set: "texts_members ps = (\<Union>p \<in> set ps. {fst p} \<union> texts (snd p))"
proof (induction ps)
  case (Cons p ps)
  have "texts_members (p # ps) = {fst p} \<union> texts (snd p) \<union> texts_members ps"
    by (cases p) simp
  with Cons show ?case by (simp only: list.set UN_insert)
qed simp

lemma set_obj_define: "set (obj_define ps k v) \<subseteq> insert (k, v) (set ps)"
  by (induction ps k v rule: obj_define.induct) auto

lemma set_assign_all: "set (assign_all out ps) \<subseteq> set out \<union> set ps"
proof (induction out ps rule: assign_all.induct)
  case (2 out k v ps)
  then show ?case using set_obj_define [of out k v] by (auto simp: obj_assign_def split: if_splits)
qed simp

lemma set_js_order [simp]: "set (js_order ps) = set ps"
  by (auto simp: js_order_def)

lemma texts_assigned:
  "texts_members (js_order (assign_all [] ps)) \<subseteq> texts_members ps"
  using set_assign_all [of "[]" ps] by (auto simp: texts_members_set)

lemma redactText_removes:
  "broker_safe v \<Longrightarrow> v \<in> set variants \<Longrightarrow> \<not> contains (redactText variants s) v"
  unfolding redactText_def by (rule http_redactor.fold_removes) (simp_all add: by_length_def)

lemma redact_values:
  assumes "broker_safe v"
  shows "v \<in> set variants \<Longrightarrow> s \<in> texts (redactSensitiveVariants variants x) \<Longrightarrow> \<not> contains s v"
    "v \<in> set variants \<Longrightarrow> s \<in> texts_elems (redact_elems variants xs) \<Longrightarrow> \<not> contains s v"
    "v \<in> set variants \<Longrightarrow> s \<in> texts_members (redact_members variants ps) \<Longrightarrow> \<not> contains s v"
proof (induction variants x and variants xs and variants ps
    rule: redactSensitiveVariants_redact_elems_redact_members.induct)
qed (use redactText_removes [OF assms] texts_assigned in auto)

subsection \<open>Detection\<close>

definition textContainsSensitiveVariant :: "string \<Rightarrow> string list \<Rightarrow> bool" where
  "textContainsSensitiveVariant s variants =
     list_ex (\<lambda>v. contains (lowerPercentEscapes s) (lowerPercentEscapes v)) variants"

lemma detect_unaffected:
  "unaffected v \<Longrightarrow> v \<in> set variants \<Longrightarrow> contains s v \<Longrightarrow> textContainsSensitiveVariant s variants"
  unfolding textContainsSensitiveVariant_def list_ex_iff
  by (rule bexI [of _ v]) (simp_all add: unaffected_contains unaffected_plain)

subsection \<open>Generated sentinels\<close>

lemma b64_char_ranges:
  "n < 64 \<Longrightarrow> is_alpha (b64_char (CHR ''-'') (CHR ''_'') n) \<or> is_digit (b64_char (CHR ''-'') (CHR ''_'') n)
     \<or> b64_char (CHR ''-'') (CHR ''_'') n \<in> {CHR ''-'', CHR ''_''}"
  by (auto simp: is_alpha_def is_upper_def is_lower_def is_digit_def b64_char_def)

lemma b64_with_all:
  assumes "\<And>n. n < 64 \<Longrightarrow> Q (b64_char p q n)" "list_all Q pad"
  shows "list_all Q (b64_with p q pad bs)"
  using assms by (induction p q pad bs rule: b64_with.induct) simp_all

lemma base64url_chars: "c \<in> set (base64url bs) \<Longrightarrow> is_alpha c \<or> is_digit c \<or> c \<in> {CHR ''-'', CHR ''_''}"
proof -
  have "list_all (\<lambda>c. is_alpha c \<or> is_digit c \<or> c \<in> {CHR ''-'', CHR ''_''})
      (b64_with (CHR ''-'') (CHR ''_'') [] bs)"
    by (rule b64_with_all) (use b64_char_ranges in auto)
  then show "c \<in> set (base64url bs) \<Longrightarrow> ?thesis" by (simp add: base64url_def list_all_iff)
qed

lemma fake_sentinel_safe: "broker_safe (generateFakeSentinel r)"
proof -
  have sp: "c \<notin> set (base64url r)" if "c \<in> set ''%[]''" for c
    using that base64url_chars [of c r] by (auto simp: is_alpha_def is_upper_def is_lower_def is_digit_def code_def)
  have "CHR ''-'' \<in> set (generateFakeSentinel r)" by (simp add: generateFakeSentinel_def)
  then have "\<not> contains ''REDACTED'' (generateFakeSentinel r)"
    using contains_set [of "''REDACTED''" "generateFakeSentinel r"] by auto
  then show ?thesis
    using sp by (simp add: broker_safe_def marker_safe_def generateFakeSentinel_def upper_hex_digit_def
        is_upper_def code_def)
qed

subsection \<open>Properties\<close>

text \<open>C8: redaction is complete: after redacting any value, nested to any depth, with a set of
  variants, no string leaf and no property name of the result contains a variant of the set
  that the marker cannot form and no percent escape can reach into.\<close>

theorem redaction_complete:
  assumes "v \<in> set variants" "broker_safe v"
  shows "\<forall>s \<in> texts (redactSensitiveVariants variants value). \<not> contains s v"
  using redact_values(1) [OF assms(2,1)] by blast

theorem redaction_complete_witness:
  "\<not> contains (redactText [''pass:word'', ''word''] ''a pass:word b'') ''pass:word''"
proof -
  have "broker_safe ''pass:word''" by code_simp
  from redaction_complete [OF _ this, of "[''pass:word'', ''word'']" "JStr ''a pass:word b''"]
  show ?thesis by simp
qed

text \<open>C21: every sentinel the harness generates is removed by \<open>redactSentinel\<close> from every log
  value, whatever text surrounds it.\<close>

theorem generated_sentinel_never_logged:
  "s \<in> texts (redactSentinel value (generateFakeSentinel random)) \<Longrightarrow>
   \<not> contains s (generateFakeSentinel random)"
  unfolding redactSentinel_def
  by (rule redact_values(1) [OF fake_sentinel_safe])
     (simp_all add: buildSentinelSensitiveVariants_def nonempty_set_def generateFakeSentinel_def)

theorem generated_sentinel_never_logged_witness:
  "\<not> contains (redactText (buildSentinelSensitiveVariants (generateFakeSentinel ''0123''))
       ''token bw-fake-MDEyMw'') (generateFakeSentinel ''0123'')"
  using generated_sentinel_never_logged [of _ "JStr ''token bw-fake-MDEyMw''" "''0123''"]
  by (simp add: redactSentinel_def)

text \<open>C20: the index loop of \<open>redactPercentVariant\<close>, which slices the original text at offsets
  found in its canonical copy, is the simultaneous left-to-right scan of both, so it neither
  loses nor repeats a character outside the replaced occurrences.\<close>

theorem redact_loop_is_scan:
  "redactPercentVariant t v = mark_scan REDACTED (lowerPercentEscapes v) (lowerPercentEscapes t) t"
  by (rule redactPercentVariant_scan)

text \<open>C27: the detector used on response headers finds every variant, whatever surrounds it, that
  no percent escape of the text can reach into.\<close>

theorem detection_complete:
  assumes "v \<in> set variants" "unaffected v" "contains s v"
  shows "textContainsSensitiveVariant s variants"
  using detect_unaffected [OF assms(2,1,3)] .

theorem detection_complete_witness:
  "textContainsSensitiveVariant ''x%41bw-fake-AB!'' [''bw-fake-AB'']"
  by (rule detection_complete [of "''bw-fake-AB''"]) code_simp+


end
