(* ===== verification/Broker.thy ===== *)
theory Broker
  imports Policy Redaction
begin

text \<open>
  The foreground HTTP credential broker (\<open>broker.js\<close>): start-up checks, the request
  handler with every denial, the single outbound request with the injected credential, and
  the inspection of the upstream response.

  The platform is the boundary: a request arrives with Node's lower-case header names, its
  body as the events of the stream; \<open>fetch\<close> is an argument that answers with an error or a
  response; the logger is the list of entries written. The handler returns everything it
  did: the log, the fetches it made, the response it wrote, and whether it threw.
\<close>

subsection \<open>Requests, responses and effects\<close>

datatype header_value = HText string | HList "string list"

datatype body_event = Data bytes | End | StreamError string

record request =
  rq_method :: string
  rq_url :: string
  rq_headers :: "(string \<times> header_value) list"
  rq_events :: "body_event list"

record fetch_request =
  f_url :: string
  f_method :: string
  f_headers :: "(string \<times> string) list"
  f_body :: "bytes option"

datatype chunk_event = Chunk bytes | ReadFails string

record upstream_response =
  up_opaqueredirect :: bool
  up_status :: int
  up_headers :: "(string \<times> string) list"
  up_body :: "chunk_event list option"

record http_response =
  rs_status :: int
  rs_headers :: "(string \<times> string) list"
  rs_body :: bytes

datatype log_level = Info | Warn | LogError

record log_entry =
  lg_level :: log_level
  lg_message :: string
  lg_meta :: "jsval option"

record trace =
  t_logs :: "log_entry list"
  t_fetches :: "fetch_request list"
  t_response :: "http_response option"
  t_thrown :: bool

datatype broker_error =
    RejectedCredentialClass | UnsupportedCredentialClass | WrongBroker
  | InvalidAuthorizationPlaceholder | InvalidPolicy | AmbiguousRuntimeMaterial
  | InvalidCredentials | MissingSentinel | InvalidSentinel | BindFailed
  | ListenError string

definition MAX_REQUEST_BODY_BYTES :: nat where
  "MAX_REQUEST_BODY_BYTES = 1 * 1024 * 1024"

definition MAX_UPSTREAM_RESPONSE_BODY_BYTES :: nat where
  "MAX_UPSTREAM_RESPONSE_BODY_BYTES = 1 * 1024 * 1024"

definition UNSAFE_CALLER_HEADER_NAMES :: "string list" where
  "UNSAFE_CALLER_HEADER_NAMES =
     [''authorization'', ''connection'', ''cookie'', ''expect'', ''host'', ''http2-settings'',
      ''keep-alive'', ''max-forwards'', ''proxy-authenticate'', ''proxy-authorization'',
      ''proxy-connection'', ''set-cookie'', ''te'', ''trailer'', ''transfer-encoding'',
      ''upgrade'', ''via'', ''www-authenticate'']"

definition UNSAFE_CALLER_HEADER_PREFIXES :: "string list" where
  "UNSAFE_CALLER_HEADER_PREFIXES =
     [''access-control-'', ''content-'', ''forwarded'', ''proxy-'', ''sec-'', ''x-forwarded-'']"

subsection \<open>Responses of the broker itself\<close>

definition writeJson :: "int \<Rightarrow> jsval \<Rightarrow> http_response" where
  "writeJson status body =
     \<lparr>rs_status = status,
      rs_headers = [(''content-type'', ''application/json; charset=utf-8''),
                    (''content-length'', show_nat (length (stringify body)))],
      rs_body = stringify body\<rparr>"

definition errorJson :: "string \<Rightarrow> jsval" where
  "errorJson e = JObj [(''error'', JStr e)]"

subsection \<open>Headers\<close>

definition isUnsafeCallerHeader :: "string \<Rightarrow> string option \<Rightarrow> string list \<Rightarrow> bool" where
  "isUnsafeCallerHeader name pinnedHeader connectionTokens \<longleftrightarrow>
     Some name = pinnedHeader \<or> name \<in> set connectionTokens
     \<or> name \<in> set UNSAFE_CALLER_HEADER_NAMES
     \<or> list_ex (\<lambda>p. name = p \<or> startsWith name p) UNSAFE_CALLER_HEADER_PREFIXES"

fun header_text :: "string \<Rightarrow> header_value \<Rightarrow> string" where
  "header_text sep (HText s) = s"
| "header_text sep (HList ss) = joinWith sep ss"

definition connectionTokens :: "(string \<times> header_value) list \<Rightarrow> string list" where
  "connectionTokens headers =
     (let text = (case map_of headers ''connection'' of None \<Rightarrow> [] | Some v \<Rightarrow> header_text '','' v)
      in jsSet (filter (\<lambda>t. t \<noteq> []) (map (\<lambda>t. toLowerCase (trim t)) (splitOn (CHR '','') text))))"

definition pinned_header :: "policy \<Rightarrow> string option" where
  "pinned_header p = (case p of ApiKeyHeaderPolicy _ _ h \<Rightarrow> Some h | _ \<Rightarrow> None)"

fun copy_headers :: "policy \<Rightarrow> string list \<Rightarrow> (string \<times> string) list \<Rightarrow> (string \<times> header_value) list
                     \<Rightarrow> (string \<times> string) list" where
  "copy_headers p tokens out [] = out"
| "copy_headers p tokens out ((key, v) # hs) =
     (let lower = toLowerCase key
      in if isUnsafeCallerHeader lower (pinned_header p) tokens then copy_headers p tokens out hs
         else copy_headers p tokens (obj_assign out lower (header_text '', '' v)) hs)"

text \<open>The headers of the outbound request; \<open>None\<close> is the throw for a class without an
  injection here.\<close>

definition outboundHeaders :: "policy \<Rightarrow> string \<Rightarrow> (string \<times> header_value) list \<Rightarrow> (string \<times> string) list option" where
  "outboundHeaders p credential headers =
     (let out = copy_headers p (connectionTokens headers) [] headers
      in case p of
           BearerPolicy _ _ \<Rightarrow> Some (obj_assign out ''authorization'' credential)
         | ApiKeyHeaderPolicy _ _ h \<Rightarrow> Some (obj_assign out h credential)
         | BasicPolicy _ _ \<Rightarrow> Some (obj_assign out ''authorization'' credential)
         | ApiKeyQueryPolicy _ _ _ \<Rightarrow> Some out
         | _ \<Rightarrow> None)"

text \<open>\<open>headers.get(name)\<close> of a fetch response, whose names are lower case.\<close>

definition header_get :: "(string \<times> string) list \<Rightarrow> string \<Rightarrow> string option" where
  "header_get hs name =
     (let vs = map snd (filter (\<lambda>(k, v). k = name) hs) in if vs = [] then None else Some (joinWith '', '' vs))"

definition BLOCKED_RESPONSE_HEADERS :: "string list" where
  "BLOCKED_RESPONSE_HEADERS =
     [''authorization'', ''proxy-authorization'', ''www-authenticate'', ''set-cookie'', ''cookie'',
      ''connection'', ''transfer-encoding'', ''keep-alive'', ''proxy-authenticate'',
      ''proxy-connection'', ''te'', ''trailer'', ''upgrade'', ''content-encoding'', ''content-length'']"

definition blocked_headers :: "(string \<times> string) list \<Rightarrow> string option \<Rightarrow> string list" where
  "blocked_headers headers pinnedHeader =
     BLOCKED_RESPONSE_HEADERS @
     filter (\<lambda>t. t \<noteq> []) (map (\<lambda>t. toLowerCase (trim t))
       (splitOn (CHR '','') (case header_get headers ''connection'' of None \<Rightarrow> [] | Some s \<Rightarrow> s))) @
     (case pinnedHeader of None \<Rightarrow> [] | Some h \<Rightarrow> [h])"

fun copy_response_headers :: "string list \<Rightarrow> (string \<times> string) list \<Rightarrow> (string \<times> string) list
                              \<Rightarrow> (string \<times> string) list" where
  "copy_response_headers blocked out [] = out"
| "copy_response_headers blocked out ((key, v) # hs) =
     (if toLowerCase key \<in> set blocked then copy_response_headers blocked out hs
      else copy_response_headers blocked (obj_assign out key v) hs)"

definition sanitizeResponseHeaders :: "(string \<times> string) list \<Rightarrow> string option \<Rightarrow> nat \<Rightarrow> (string \<times> string) list" where
  "sanitizeResponseHeaders headers pinnedHeader bodyLength =
     (let out = copy_response_headers (blocked_headers headers pinnedHeader) [] headers;
          typed = (case map_of out ''content-type'' of
                     Some t \<Rightarrow> if t = [] then obj_assign out ''content-type'' ''application/octet-stream'' else out
                   | None \<Rightarrow> obj_assign out ''content-type'' ''application/octet-stream'')
      in obj_assign typed ''content-length'' (show_nat bodyLength))"

subsection \<open>Bodies\<close>

datatype 'e body_failure = BodyTooLarge | BodyFailed 'e

text \<open>The event handlers of \<open>readRequestBody\<close> over the stream's events; \<open>None\<close> while
  neither \<open>end\<close> nor an error has come. \<open>acc\<close> is the concatenation of the chunks, \<open>any\<close> whether
  there is one.\<close>

fun collect_body :: "nat \<Rightarrow> bool \<Rightarrow> bytes \<Rightarrow> body_event list \<Rightarrow> (string body_failure + bytes option) option" where
  "collect_body maxBytes any acc [] = None"
| "collect_body maxBytes any acc (Data chunk # es) =
     (if maxBytes < length acc + length chunk then Some (Inl BodyTooLarge)
      else collect_body maxBytes True (acc @ chunk) es)"
| "collect_body maxBytes any acc (End # es) = Some (Inr (if any then Some acc else None))"
| "collect_body maxBytes any acc (StreamError msg # es) = Some (Inl (BodyFailed msg))"

text \<open>A declared length is a decimal numeral, as the HTTP parser guarantees.\<close>

definition readRequestBody :: "request \<Rightarrow> nat \<Rightarrow> (string body_failure + bytes option) option" where
  "readRequestBody req maxBytes =
     (if rq_method req = ''GET'' \<or> rq_method req = ''HEAD'' then Some (Inr None)
      else case map_of (rq_headers req) ''content-length'' of
             Some v \<Rightarrow>
               (case parse_digits (trim (header_text '', '' v)) of
                  Some declared \<Rightarrow> if maxBytes < declared then Some (Inl BodyTooLarge)
                                  else collect_body maxBytes False [] (rq_events req)
                | None \<Rightarrow> collect_body maxBytes False [] (rq_events req))
           | None \<Rightarrow> collect_body maxBytes False [] (rq_events req))"

fun read_chunks :: "nat \<Rightarrow> bytes \<Rightarrow> chunk_event list \<Rightarrow> string body_failure + bytes" where
  "read_chunks maxBytes acc [] = Inr acc"
| "read_chunks maxBytes acc (Chunk c # es) =
     (if maxBytes < length acc + length c then Inl BodyTooLarge
      else read_chunks maxBytes (acc @ c) es)"
| "read_chunks maxBytes acc (ReadFails msg # es) = Inl (BodyFailed msg)"

definition readBoundedResponseBody :: "upstream_response \<Rightarrow> nat \<Rightarrow> string body_failure + bytes" where
  "readBoundedResponseBody response maxBytes =
     (let continue = (case up_body response of None \<Rightarrow> Inr [] | Some es \<Rightarrow> read_chunks maxBytes [] es)
      in case header_get (up_headers response) ''content-length'' of
           None \<Rightarrow> continue
         | Some h \<Rightarrow> (case parse_digits h of
                       None \<Rightarrow> continue
                     | Some declared \<Rightarrow> if maxBytes < declared then Inl BodyTooLarge else continue))"

subsection \<open>Inspection of the upstream response\<close>

definition isRedirectResponse :: "upstream_response \<Rightarrow> bool" where
  "isRedirectResponse r \<longleftrightarrow> up_opaqueredirect r \<or> (300 \<le> up_status r \<and> up_status r < 400)"

definition headersContainSensitiveVariant :: "(string \<times> string) list \<Rightarrow> string list \<Rightarrow> bool" where
  "headersContainSensitiveVariant headers variants =
     list_ex (\<lambda>(name, v). textContainsSensitiveVariant name variants \<or> textContainsSensitiveVariant v variants) headers"

definition bufferContainsSensitiveVariant :: "bytes \<Rightarrow> string list \<Rightarrow> bool" where
  "bufferContainsSensitiveVariant body variants \<longleftrightarrow>
     list_ex (contains body) variants \<or> textContainsSensitiveVariant body variants"

subsection \<open>The request handler\<close>

record broker_ctx =
  cx_policy :: policy
  cx_credential :: string
  cx_variants :: "string list"
  cx_upstreamOrigin :: string

type_synonym fetch_impl = "fetch_request \<Rightarrow> string + upstream_response"

fun http_common :: "policy \<Rightarrow> http_fields option" where
  "http_common (BearerPolicy c _) = Some c"
| "http_common (ApiKeyHeaderPolicy c _ _) = Some c"
| "http_common (ApiKeyQueryPolicy c _ _) = Some c"
| "http_common (BasicPolicy c _) = Some c"
| "http_common (OneCliProxyPolicy c _ _) = Some c"
| "http_common _ = None"

definition brokerLog :: "string list \<Rightarrow> log_level \<Rightarrow> string \<Rightarrow> jsval option \<Rightarrow> log_entry" where
  "brokerLog variants level message meta =
     \<lparr>lg_level = level, lg_message = redactText variants message,
      lg_meta = map_option (redactSensitiveVariants variants) meta\<rparr>"

definition queryOutboundUrl :: "string \<Rightarrow> string \<Rightarrow> string \<Rightarrow> string \<Rightarrow> string + string" where
  "queryOutboundUrl upstreamOrigin pathText queryName credential =
     (let candidate = upstreamOrigin @ pathText @ ''?'' @ serialize_params [(queryName, credential)]
      in case newURL candidate of
           None \<Rightarrow> Inl ''outbound query URL construction failed''
         | Some u \<Rightarrow>
             (let params = parse_params (drop 1 (search u))
              in if origin u \<noteq> upstreamOrigin \<or> pathname u \<noteq> pathText \<or> length params \<noteq> 1
                    \<or> map_of params queryName \<noteq> Some credential
                 then Inl ''outbound query URL failed integrity check'' else Inr candidate))"

definition outboundUrl :: "broker_ctx \<Rightarrow> string \<Rightarrow> string + string" where
  "outboundUrl cx pathText =
     (case cx_policy cx of
        ApiKeyQueryPolicy _ _ q \<Rightarrow> queryOutboundUrl (cx_upstreamOrigin cx) pathText q (cx_credential cx)
      | _ \<Rightarrow> Inr (cx_upstreamOrigin cx @ pathText))"

definition reply :: "log_entry list \<Rightarrow> fetch_request list \<Rightarrow> int \<Rightarrow> string \<Rightarrow> trace" where
  "reply logs fetches status err =
     \<lparr>t_logs = logs, t_fetches = fetches, t_response = Some (writeJson status (errorJson err)),
      t_thrown = False\<rparr>"

definition threw :: "log_entry list \<Rightarrow> trace" where
  "threw logs = \<lparr>t_logs = logs, t_fetches = [], t_response = None, t_thrown = True\<rparr>"

text \<open>Everything after \<open>fetchImpl\<close> has answered.\<close>

definition relayResponse :: "broker_ctx \<Rightarrow> log_entry list \<Rightarrow> fetch_request list \<Rightarrow> upstream_response \<Rightarrow> trace" where
  "relayResponse cx logs fetches r =
     (let log = brokerLog (cx_variants cx);
          fail = (\<lambda>e. reply (logs @ [e]) fetches 502 ''upstream_failed'')
      in if isRedirectResponse r then
           (if headersContainSensitiveVariant (up_headers r) (cx_variants cx)
            then fail (log LogError ''upstream redirect contained credential material; refusing to forward'' None)
            else fail (log Warn ''upstream redirect rejected'' (Some (JObj [(''status'', JNum (up_status r))]))))
         else if headersContainSensitiveVariant (up_headers r) (cx_variants cx)
         then fail (log LogError ''upstream response contained credential material; refusing to forward'' None)
         else (case readBoundedResponseBody r MAX_UPSTREAM_RESPONSE_BODY_BYTES of
             Inl BodyTooLarge \<Rightarrow>
               fail (log Warn ''upstream response exceeds size limit''
                 (Some (JObj [(''limit'', JNum (int MAX_UPSTREAM_RESPONSE_BODY_BYTES))])))
           | Inl (BodyFailed msg) \<Rightarrow>
               fail (log LogError ''failed to read upstream response'' (Some (JObj [(''error'', JStr msg)])))
           | Inr body \<Rightarrow>
               if bufferContainsSensitiveVariant body (cx_variants cx)
               then fail (log LogError ''upstream response contained credential material; refusing to forward'' None)
               else \<lparr>t_logs = logs, t_fetches = fetches,
                     t_response = Some
                       \<lparr>rs_status = up_status r,
                        rs_headers = sanitizeResponseHeaders (up_headers r) (pinned_header (cx_policy cx)) (length body),
                        rs_body = body\<rparr>,
                     t_thrown = False\<rparr>))"

definition forwardRequest :: "fetch_impl \<Rightarrow> broker_ctx \<Rightarrow> request \<Rightarrow> log_entry list \<Rightarrow> string \<Rightarrow> string
                              \<Rightarrow> (string \<times> string) list \<Rightarrow> trace" where
  "forwardRequest fetch cx req logs meth url headers =
     (let log = brokerLog (cx_variants cx)
      in case readRequestBody req MAX_REQUEST_BODY_BYTES of
           None \<Rightarrow> \<lparr>t_logs = logs, t_fetches = [], t_response = None, t_thrown = False\<rparr>
         | Some (Inl BodyTooLarge) \<Rightarrow>
             reply (logs @ [log Warn ''request body exceeds size limit''
                      (Some (JObj [(''limit'', JNum (int MAX_REQUEST_BODY_BYTES))]))]) [] 413 ''payload_too_large''
         | Some (Inl (BodyFailed msg)) \<Rightarrow>
             reply (logs @ [log LogError ''failed to read request body'' (Some (JObj [(''error'', JStr msg)]))])
               [] 502 ''upstream_failed''
         | Some (Inr body) \<Rightarrow>
             (let fr = \<lparr>f_url = url, f_method = meth, f_headers = headers,
                        f_body = (if meth = ''GET'' \<or> meth = ''HEAD'' then None else body)\<rparr>
              in case fetch fr of
                   Inl msg \<Rightarrow>
                     reply (logs @ [log LogError ''upstream request failed'' (Some (JObj [(''error'', JStr msg)]))])
                       [fr] 502 ''upstream_failed''
                 | Inr r \<Rightarrow> relayResponse cx logs [fr] r))"

definition ambiguousTarget :: "string \<Rightarrow> bool" where
  "ambiguousTarget target \<longleftrightarrow> \<not> startsWith target ''/'' \<or> startsWith target ''//''
     \<or> CHR ''?'' \<in> set target \<or> CHR ''#'' \<in> set target"

definition handleBrokerRequest :: "fetch_impl \<Rightarrow> broker_ctx \<Rightarrow> request \<Rightarrow> trace" where
  "handleBrokerRequest fetch cx req =
     (let log = brokerLog (cx_variants cx)
      in if ambiguousTarget (rq_url req)
         then reply [log Warn ''request denied: query or ambiguous request target'' None] [] 400 ''invalid_request_target''
         else case newURL_at (rq_url req) ''http://127.0.0.1'' of
           None \<Rightarrow> threw []
         | Some u \<Rightarrow>
             (case http_common (cx_policy cx) of
                None \<Rightarrow> reply [log Warn ''request denied: method or path not allowed''
                          (Some (JObj [(''method'', JStr (rq_method req)), (''path'', JStr (pathname u))]))] [] 404 ''not_found''
              | Some c \<Rightarrow>
                  if rq_method req \<noteq> hf_method c \<or> pathname u \<noteq> hf_path c
                  then reply [log Warn ''request denied: method or path not allowed''
                          (Some (JObj [(''method'', JStr (rq_method req)), (''path'', JStr (pathname u))]))] [] 404 ''not_found''
                  else (case outboundHeaders (cx_policy cx) (cx_credential cx) (rq_headers req) of
                     None \<Rightarrow> threw []
                   | Some headers \<Rightarrow>
                       (case outboundUrl cx (hf_path c) of
                          Inl msg \<Rightarrow> reply [log LogError msg None] [] 502 ''upstream_failed''
                        | Inr url \<Rightarrow>
                            forwardRequest fetch cx req
                              [log Info ''forwarding allowed request''
                                 (Some (JObj [(''method'', JStr (hf_method c)), (''path'', JStr (hf_path c)),
                                              (''upstream'', JStr (cx_upstreamOrigin cx @ hf_path c))]))]
                              (hf_method c) url headers))))"

subsection \<open>Start-up\<close>

record broker_options =
  op_policy :: jsval
  op_sentinel :: jsval
  op_credentials :: jsval

record started_broker =
  sb_ctx :: broker_ctx
  sb_host :: string
  sb_port :: nat
  sb_baseUrl :: string
  sb_url :: string
  sb_logs :: "log_entry list"

definition checkSuppliedClass :: "jsval \<Rightarrow> broker_error option" where
  "checkSuppliedClass cls =
     (if isRejectedCredentialClass cls then Some RejectedCredentialClass
      else if \<not> isSupportedCredentialClass cls then Some UnsupportedCredentialClass
      else if cls = JStr ''onecli_proxy'' \<or> cls = JStr ''browser_form_login'' \<or> cls = JStr ''ssh''
              \<or> cls = JStr ''ftp'' then Some WrongBroker
      else case str_of cls of
             Some s \<Rightarrow> if s \<notin> set HTTP_INJECTION_CREDENTIAL_CLASSES then Some WrongBroker else None
           | None \<Rightarrow> Some WrongBroker)"

definition validateQueryRuntimeSentinel :: "string \<Rightarrow> broker_error option" where
  "validateQueryRuntimeSentinel s =
     (if length s < 8 \<or> 4096 < length s then Some InvalidSentinel
      else if \<not> list_all is_printable_ascii s then Some InvalidSentinel else None)"

text \<open>The credential to inject and the forms of it to look for.\<close>

definition runtimeMaterial :: "policy \<Rightarrow> jsval \<Rightarrow> jsval \<Rightarrow> broker_error + (string \<times> string list)" where
  "runtimeMaterial p sentinel credentials =
     (case p of
        BasicPolicy _ _ \<Rightarrow>
          (if sentinel \<noteq> JUndef then Inl AmbiguousRuntimeMaterial
           else case validateBasicCredentials credentials of
             Inl e \<Rightarrow> Inl InvalidCredentials
           | Inr c \<Rightarrow> Inr (basicAuthorizationValue c, buildBasicSensitiveVariants c))
      | _ \<Rightarrow>
          (if credentials \<noteq> JUndef then Inl AmbiguousRuntimeMaterial
           else case str_of sentinel of
             None \<Rightarrow> Inl MissingSentinel
           | Some s \<Rightarrow>
               if length s = 0 then Inl MissingSentinel
               else (case p of
                  ApiKeyQueryPolicy _ _ q \<Rightarrow>
                    (case validateQueryRuntimeSentinel s of
                       Some e \<Rightarrow> Inl e
                     | None \<Rightarrow> Inr (s, buildQuerySensitiveVariants q s))
                | BearerPolicy _ _ \<Rightarrow> Inr (''Bearer '' @ s, buildSentinelSensitiveVariants s)
                | _ \<Rightarrow> Inr (s, buildSentinelSensitiveVariants s))))"

text \<open>\<open>listen host port\<close> is the outcome of \<open>server.listen\<close>: the platform's error, no TCP
  address, or the bound port.\<close>

definition startBroker :: "(string \<Rightarrow> nat \<Rightarrow> string + nat option) \<Rightarrow> broker_options \<Rightarrow> broker_error + started_broker" where
  "startBroker listen opts =
     (case checkSuppliedClass (getProp (op_policy opts) ''credential_class'') of Some e \<Rightarrow> Inl e | None \<Rightarrow>
     (case validatePolicy (op_policy opts) of
        Inl _ \<Rightarrow>
          Inl (if getProp (op_policy opts) ''credential_class'' = JStr ''http_bearer''
                  \<and> hasProp (op_policy opts) ''authorization''
                  \<and> getProp (op_policy opts) ''authorization'' \<noteq> JStr CREDENTIAL_PLACEHOLDER
               then InvalidAuthorizationPlaceholder else InvalidPolicy)
      | Inr p \<Rightarrow>
     (case runtimeMaterial p (op_sentinel opts) (op_credentials opts) of Inl e \<Rightarrow> Inl e | Inr (credential, variants) \<Rightarrow>
     (case (http_common p, upstream_of p) of
        (Some c, Some up) \<Rightarrow>
          (case (parseLoopbackHttpUrl (JStr (hf_bind c)) ''policy.bind'',
                 parseLoopbackHttpUrl (JStr up) ''policy.upstream'') of
             (Inr bindUrl, Inr upstreamUrl) \<Rightarrow>
               (case listen (u_host bindUrl) (read_nat (port_str bindUrl) 0) of
                  Inl msg \<Rightarrow> Inl (ListenError msg)
                | Inr None \<Rightarrow> Inl BindFailed
                | Inr (Some port) \<Rightarrow>
                    (let baseUrl = ''http://'' @ u_host bindUrl @ '':'' @ show_nat port
                     in Inr
                      \<lparr>sb_ctx = \<lparr>cx_policy = p, cx_credential = credential, cx_variants = variants,
                                 cx_upstreamOrigin = origin_text upstreamUrl\<rparr>,
                       sb_host = u_host bindUrl, sb_port = port, sb_baseUrl = baseUrl,
                       sb_url = baseUrl @ hf_path c,
                       sb_logs = [brokerLog variants Info ''broker listening''
                         (Some (JObj [(''bind'', JStr baseUrl), (''method'', JStr (hf_method c)),
                                      (''path'', JStr (hf_path c))]))]\<rparr>))
           | _ \<Rightarrow> Inl InvalidPolicy)
      | _ \<Rightarrow> Inl WrongBroker))))"

end
