(* ===== verification/JsonRoundtrip.thy ===== *)
theory JsonRoundtrip
  imports JsValue
begin

text \<open>
  \<open>JSON.parse\<close> inverts \<open>JSON.stringify\<close> on plain data, and the fuel of the parser model
  is enough: with more fuel it returns the same result on every input.
\<close>

subsection \<open>The parser consumes its input\<close>

lemma skip_ws_length: "length (skip_ws s) \<le> length s"
  by (induction s) auto

lemma skip_ws_Cons: "skip_ws s = c # cs \<Longrightarrow> length cs < length s"
  using skip_ws_length [of s] by simp

lemma parse_chars_length: "parse_chars s = Some (t, r) \<Longrightarrow> length r < length s"
proof (induction s arbitrary: t r rule: measure_induct_rule [of length])
  case (less s)
  note IH = less.IH
  from less.prems obtain c cs where s: "s = c # cs" by (cases s) auto
  consider (quote) "c = CHR 0x22" | (esc) e es where "c \<noteq> CHR 0x22" "code c = 92" "cs = e # es"
    | (plain) "c \<noteq> CHR 0x22" "code c \<noteq> 92"
    using less.prems s by (cases cs) (auto split: if_splits)
  then show ?case
  proof cases
    case quote
    with less.prems s show ?thesis by simp
  next
    case esc
    show ?thesis
    proof (cases "e = CHR ''u''")
      case True
      with less.prems s esc obtain u r' t'
        where u: "unicode_escape es = Some (u, r')" and p: "parse_chars r' = Some (t', r)"
        by (auto split: option.splits prod.splits)
      from u have "length r' < length es" by (rule unicode_escape_length)
      with IH [OF _ p] s esc show ?thesis by simp
    next
      case False
      with less.prems s esc obtain t' where "parse_chars es = Some (t', r)"
        by (auto split: option.splits prod.splits)
      with IH [of es t' r] s esc show ?thesis by simp
    qed
  next
    case plain
    with less.prems s obtain t' where "parse_chars cs = Some (t', r)"
      by (auto split: if_splits)
    with IH [of cs t' r] s show ?thesis by simp
  qed
qed

lemma parse_exponent_length: "parse_exponent s = Some (e, r) \<Longrightarrow> length r \<le> length s"
  by (auto simp: parse_exponent_def Let_def length_dropWhile_le
      split: list.splits if_splits prod.splits intro: le_SucI length_dropWhile_le)

lemma dropWhile_less: "takeWhile P s \<noteq> [] \<Longrightarrow> length (dropWhile P s) < length s"
  by (cases s) (auto simp: length_dropWhile_le le_imp_less_Suc split: if_splits)

lemma parse_number_length:
  assumes "parse_number s = Some (v, r)"
  shows "length r < length s"
proof -
  define s1 where "s1 = (if s \<noteq> [] \<and> hd s = CHR ''-'' then tl s else s)"
  define s2 where "s2 = dropWhile is_digit s1"
  from assms obtain fs s3 ex
    where ds: "takeWhile is_digit s1 \<noteq> []"
      and frac: "(case s2 of c # cs \<Rightarrow> if c = CHR ''.'' then
                      (if takeWhile is_digit cs = [] then None
                       else Some (takeWhile is_digit cs, dropWhile is_digit cs))
                    else Some ([], s2)
                | [] \<Rightarrow> Some ([], s2)) = Some (fs, s3)"
      and ex: "parse_exponent s3 = Some (ex, r)"
    unfolding s1_def s2_def
    by (auto simp: parse_number_def Let_def split: if_splits option.splits)
  from frac have "length s3 \<le> length s2"
    by (auto split: list.splits if_splits intro: le_SucI length_dropWhile_le)
  moreover from ex have "length r \<le> length s3" by (rule parse_exponent_length)
  moreover from ds have "length s2 < length s1" unfolding s2_def by (rule dropWhile_less)
  moreover have "length s1 \<le> length s" by (simp add: s1_def)
  ultimately show ?thesis by linarith
qed

lemma parse_literal_length: "lit \<noteq> [] \<Longrightarrow> parse_literal lit v s = Some (w, r) \<Longrightarrow> length r < length s"
  by (auto simp: parse_literal_def prefix_def split: if_splits)

lemma parse_consumes:
  "parse_value n s = Some (v, r) \<Longrightarrow> length r < length s"
  "parse_elems n s = Some (vs, r) \<Longrightarrow> length r < length s"
  "parse_members n s = Some (ps, r) \<Longrightarrow> length r < length s"
proof (induction n s and n s and n s arbitrary: v r and vs r and ps r
    rule: parse_value_parse_elems_parse_members.induct)
  case (2 n s)
  from "2.prems" obtain c cs where ws: "skip_ws s = c # cs"
    by (cases "skip_ws s") auto
  have len: "length (c # cs) \<le> length s" using skip_ws_length [of s] ws by simp
  consider (obj) "c = CHR ''{''" | (arr) "c = CHR ''[''" | (str) "c = CHR 0x22"
    | (lit) "c \<noteq> CHR ''{''" "c \<noteq> CHR ''[''" "c \<noteq> CHR 0x22" by blast
  then show ?case
  proof cases
    case obj
    with "2.prems" ws have d: "skip_ws cs \<noteq> []" by (cases "skip_ws cs") auto
    then obtain d ds where dd: "skip_ws cs = d # ds" by (cases "skip_ws cs") auto
    show ?thesis
      using "2.prems" "2.IH"(1) [OF ws obj dd] ws obj dd len skip_ws_length [of cs]
      by (fastforce split: if_splits)
  next
    case arr
    with "2.prems" ws have d: "skip_ws cs \<noteq> []" by (cases "skip_ws cs") auto
    then obtain d ds where dd: "skip_ws cs = d # ds" by (cases "skip_ws cs") auto
    show ?thesis
      using "2.prems" "2.IH"(2) [OF ws _ arr dd] ws arr dd len skip_ws_length [of cs]
      by (fastforce split: if_splits)
  next
    case str
    with "2.prems" ws len show ?thesis
      by (auto dest!: parse_chars_length)
  next
    case lit
    with "2.prems" ws len show ?thesis
      by (auto split: if_splits dest!: parse_number_length
          parse_literal_length [of "''true''", simplified] parse_literal_length [of "''false''", simplified]
          parse_literal_length [of "''null''", simplified])
  qed
next
  case (4 n s)
  from "4.prems" obtain v r' where pv: "parse_value n s = Some (v, r')" by (auto split: option.splits)
  moreover from "4.prems" pv obtain c cs where ws: "skip_ws r' = c # cs" by (auto split: list.splits)
  ultimately show ?case
    using "4.prems" "4.IH"(1) [OF pv] "4.IH"(2) [OF pv _ ws] skip_ws_Cons [OF ws]
    by (fastforce split: if_splits)
next
  case (6 n s)
  from "6.prems" obtain q qs where ws: "skip_ws s = q # qs" by (auto split: list.splits)
  from "6.prems" ws have q: "q = CHR 0x22" by (auto split: if_splits)
  from "6.prems" ws q obtain k r1 where pc: "parse_chars qs = Some (k, r1)" by (auto split: option.splits)
  from "6.prems" ws q pc obtain d ds where ws1: "skip_ws r1 = d # ds" by (auto split: list.splits)
  from "6.prems" ws q pc ws1 have d: "d = CHR '':''" by (auto split: if_splits)
  from "6.prems" ws q pc ws1 d obtain w t where pv: "parse_value n ds = Some (w, t)"
    by (auto split: option.splits)
  from "6.prems" ws q pc ws1 d pv obtain c cs where ws2: "skip_ws t = c # cs" by (auto split: list.splits)
  have "length ds < length s"
    using skip_ws_Cons [OF ws] parse_chars_length [OF pc] skip_ws_Cons [OF ws1] by linarith
  moreover have "length t < length ds" using "6.IH"(1) [OF ws _ pc _ ws1 _ pv] q d pv by simp
  moreover have "length cs < length t" by (rule skip_ws_Cons [OF ws2])
  moreover have "c = CHR '','' \<Longrightarrow> parse_members n cs = Some (ps', r) \<Longrightarrow> length r < length cs" for ps'
    using "6.IH"(2) [OF ws _ pc _ ws1 _ pv _ ws2] q d by simp
  ultimately show ?case
    using "6.prems" ws q pc ws1 d pv ws2 by (fastforce split: if_splits)
qed simp_all

subsection \<open>The fuel is enough\<close>

lemma fuel_step:
  "(2 * length s + 1 \<le> n \<longrightarrow> parse_value (Suc n) s = parse_value n s) \<and>
   (2 * length s + 2 \<le> n \<longrightarrow> parse_elems (Suc n) s = parse_elems n s) \<and>
   (2 * length s + 2 \<le> n \<longrightarrow> parse_members (Suc n) s = parse_members n s)"
proof (induction n arbitrary: s)
  case 0
  then show ?case by simp
next
  case (Suc m)
  have V: "2 * length x + 1 \<le> m \<Longrightarrow> parse_value (Suc m) x = parse_value m x" for x
    using Suc.IH by blast
  have E: "2 * length x + 2 \<le> m \<Longrightarrow> parse_elems (Suc m) x = parse_elems m x" for x
    using Suc.IH by blast
  have M: "2 * length x + 2 \<le> m \<Longrightarrow> parse_members (Suc m) x = parse_members m x" for x
    using Suc.IH by blast
  have fuel_v: "parse_value (Suc (Suc m)) s = parse_value (Suc m) s" if le: "2 * length s + 1 \<le> Suc m"
  proof (cases "skip_ws s")
    case (Cons c cs)
    have inner: "2 * length (d # ds) + 2 \<le> m" if "skip_ws cs = d # ds" for d ds
      using skip_ws_Cons [OF Cons] skip_ws_length [of cs] that le by simp
    show ?thesis
      unfolding parse_value.simps(2) Cons list.case
      by (cases "skip_ws cs") (simp_all only: list.case E [OF inner] M [OF inner] split: if_split)
  qed simp
  have fuel_e: "parse_elems (Suc (Suc m)) s = parse_elems (Suc m) s" if le: "2 * length s + 2 \<le> Suc m"
  proof -
    have v: "parse_value (Suc m) s = parse_value m s" using V le by simp
    show ?thesis
    proof (cases "parse_value m s")
      case None
      with v show ?thesis by (simp only: parse_elems.simps(2) option.case)
    next
      case (Some vr)
      obtain w r where vr: "vr = (w, r)" by (cases vr)
      show ?thesis
      proof (cases "skip_ws r")
        case Nil
        with Some v vr show ?thesis by (simp only: parse_elems.simps(2) option.case prod.case list.case)
      next
        case (Cons c cs)
        have "length cs < length s"
          using parse_consumes(1) [of m s w r] Some vr skip_ws_Cons [OF Cons] by simp
        then have "parse_elems (Suc m) cs = parse_elems m cs" using E le by simp
        with Some v vr Cons show ?thesis
          by (simp only: parse_elems.simps(2) [of "Suc m"] parse_elems.simps(2) [of m]
              option.case prod.case list.case)
      qed
    qed
  qed
  have fuel_m: "parse_members (Suc (Suc m)) s = parse_members (Suc m) s"
    if le: "2 * length s + 2 \<le> Suc m"
  proof (cases "skip_ws s")
    case (Cons q qs)
    show ?thesis
    proof (cases "parse_chars qs")
      case (Some kr)
      obtain k r where kr: "kr = (k, r)" by (cases kr)
      show ?thesis
      proof (cases "skip_ws r")
        case Cons2: (Cons d ds)
        have ds: "length ds < length s"
          using skip_ws_Cons [OF Cons] parse_chars_length [of qs k r] Some kr skip_ws_Cons [OF Cons2]
          by simp
        then have v: "parse_value (Suc m) ds = parse_value m ds" using V le by simp
        have rest: "parse_members (Suc m) cs = parse_members m cs"
          if "parse_value m ds = Some (w, t)" "skip_ws t = c # cs" for w t c cs
          using parse_consumes(1) [OF that(1)] skip_ws_Cons [OF that(2)] ds M le by simp
        show ?thesis
          unfolding parse_members.simps(2) [of "Suc m"] parse_members.simps(2) [of m]
            Cons Some kr Cons2 list.case option.case prod.case v
          using rest by (auto split: option.split prod.split list.split)
      qed (simp add: Cons Some kr)
    qed (simp add: Cons)
  qed simp
  from fuel_v fuel_e fuel_m show ?case by blast
qed

lemma parse_fuel:
  assumes "2 * length s + 1 \<le> n"
  shows "parse_value n s = parse_value (2 * length s + 1) s"
  using assms
proof (induction n rule: dec_induct)
  case (step n)
  then show ?case using fuel_step [of s n] by simp
qed simp

subsection \<open>Round trip\<close>

text \<open>Plain data: what \<open>JSON.parse\<close> builds from a text with safe integers only.\<close>

fun json_data :: "jsval \<Rightarrow> bool" where
  "json_data JUndef = False"
| "json_data (JDec t) = False"
| "json_data (JNum i) = (\<bar>i\<bar> < 2 ^ 53)"
| "json_data (JArr vs) = (\<forall>v \<in> set vs. json_data v)"
| "json_data (JObj ps) =
     (distinct (map fst ps) \<and> js_order ps = ps \<and> (\<forall>p \<in> set ps. json_data (snd p)))"
| "json_data _ = True"

fun need :: "jsval \<Rightarrow> nat"
  and need_elems :: "jsval list \<Rightarrow> nat"
  and need_members :: "(string \<times> jsval) list \<Rightarrow> nat" where
  "need (JArr vs) = Suc (need_elems vs)"
| "need (JObj ps) = Suc (need_members ps)"
| "need _ = 1"
| "need_elems [] = 1"
| "need_elems (v # vs) = Suc (max (need v) (need_elems vs))"
| "need_members [] = 1"
| "need_members ((k, v) # ps) = Suc (max (need v) (need_members ps))"

definition stop :: "string \<Rightarrow> bool" where
  "stop s \<longleftrightarrow> s = [] \<or> hd s \<in> set '',]}''"

lemma takeWhile_digits:
  "list_all is_digit ds \<Longrightarrow> s = [] \<or> \<not> is_digit (hd s) \<Longrightarrow>
   takeWhile is_digit (ds @ s) = ds \<and> dropWhile is_digit (ds @ s) = s"
proof (induction ds)
  case Nil
  then show ?case by (cases s) auto
qed auto

lemma show_nat_head: "0 < n \<Longrightarrow> hd (show_nat n) \<noteq> CHR ''0''"
proof (induction n rule: show_nat.induct)
  case (1 n)
  show ?case
  proof (cases "n < 10")
    case True
    with "1.prems" show ?thesis
      by (simp add: show_nat.simps [of n] code_inj [symmetric]) (simp add: code_def)
  next
    case False
    with 1 show ?thesis by (simp add: show_nat.simps [of n])
  qed
qed

lemma show_nat_canonical: "\<not> (hd (show_nat n) = CHR ''0'' \<and> length (show_nat n) > 1)"
  using show_nat_head [of n] by (cases "n = 0") (simp_all add: show_nat.simps [of 0])

lemma is_digit_not_special:
  "is_digit c \<Longrightarrow> c \<noteq> CHR ''-'' \<and> c \<noteq> CHR ''{'' \<and> c \<noteq> CHR ''['' \<and> c \<noteq> CHR 0x22 \<and> c \<noteq> CHR ''t''
     \<and> c \<noteq> CHR ''f'' \<and> c \<noteq> CHR ''n'' \<and> c \<noteq> CHR '']'' \<and> c \<noteq> CHR ''}'' \<and> code c \<notin> {32, 9, 10, 13}"
  by (auto simp: is_digit_def code_def)

lemma show_nat_Cons: obtains d ds where "show_nat n = d # ds" "is_digit d"
  using show_nat_digits [of n] show_nat_nonempty [of n] by (cases "show_nat n") auto

lemma number_value_int:
  assumes "int n < 2 ^ 53"
  shows "number_value neg (show_nat n) [] 0 t = JNum (if neg then - int n else int n)"
proof -
  have "(2::int) ^ 53 \<le> 2 ^ 1024" by (rule power_increasing) auto
  with assms have "int n < 2 ^ 1024" by linarith
  then show ?thesis by (simp add: number_value_def Let_def)
qed

lemma stop_cases: "stop s \<Longrightarrow> s = [] \<or> (\<exists>c cs. s = c # cs \<and> c \<in> set '',]}'')"
  by (cases s) (auto simp: stop_def)

lemma parse_exponent_stop: "stop s \<Longrightarrow> parse_exponent s = Some (0, s)"
  by (drule stop_cases) (auto simp: parse_exponent_def)

lemma stop_not_digit: "stop s \<Longrightarrow> s = [] \<or> \<not> is_digit (hd s)"
  by (drule stop_cases) (auto simp: is_digit_def code_def)

lemma parse_digits_tail:
  assumes "stop s"
  shows "(case s of c # cs \<Rightarrow> if c = CHR ''.'' then
                      (if takeWhile is_digit cs = [] then None
                       else Some (takeWhile is_digit cs, dropWhile is_digit cs))
                    else Some ([], s)
                | [] \<Rightarrow> Some ([], s)) = Some ([], s)"
  using stop_cases [OF assms] by auto

lemma parse_number_show:
  assumes "\<bar>i\<bar> < 2 ^ 53" and "stop s"
  shows "parse_number (show_int i @ s) = Some (JNum i, s)"
proof -
  define n where "n = nat \<bar>i\<bar>"
  obtain d ds where n: "show_nat n = d # ds" "is_digit d" by (rule show_nat_Cons)
  have dig: "takeWhile is_digit (show_nat n @ s) = show_nat n" "dropWhile is_digit (show_nat n @ s) = s"
    using takeWhile_digits [OF show_nat_digits stop_not_digit [OF assms(2)]] by auto
  have small: "int n < 2 ^ 53" using assms(1) by (simp add: n_def)
  have shown: "show_int i = (if i < 0 then ''-'' @ show_nat n else show_nat n)"
    by (simp add: show_int_def n_def)
  have val: "(if i < 0 then - int n else int n) = i" by (simp add: n_def)
  have dash: "d \<noteq> CHR ''-''" using n(2) is_digit_not_special by blast
  define s1 where "s1 = show_nat n @ s"
  have neg: "(show_int i @ s \<noteq> [] \<and> hd (show_int i @ s) = CHR ''-'') = (i < 0)"
    using n(1) dash by (simp add: shown)
  have s1: "(if i < 0 then tl (show_int i @ s) else show_int i @ s) = s1"
    by (simp add: shown s1_def)
  show ?thesis
    unfolding parse_number_def Let_def neg s1 s1_def dig
    using show_nat_canonical [of n]
    by (simp add: parse_digits_tail [OF assms(2)] parse_exponent_stop [OF assms(2)]
        number_value_int [OF small] val)
qed

lemma lower_hex_val [simp]: "n < 16 \<Longrightarrow> is_hex (lower_hex n) \<and> hex_val (lower_hex n) = n"
  by (auto simp: lower_hex_def is_hex_def is_lower_hex_def is_digit_def is_upper_def hex_val_def)

lemma unicode_escape_control:
  assumes "code c < 32"
  shows "unicode_escape (CHR ''0'' # CHR ''0'' # lower_hex (code c div 16) # lower_hex (code c mod 16) # s)
         = Some ([c], s)"
proof -
  have "is_hex CHR ''0''" "hex_val CHR ''0'' = 0"
    by (simp_all add: is_hex_def is_lower_hex_def is_digit_def hex_val_def code_def)
  moreover have "code c div 16 * 16 + code c mod 16 = code c" by simp
  ultimately show ?thesis using assms by (simp add: unicode_escape_def utf8_of_def)
qed

lemma simple_escapes:
  "simple_escape CHR 0x22 = Some CHR 0x22" "simple_escape CHR 0x5C = Some CHR 0x5C"
  "simple_escape CHR ''b'' = Some CHR 0x08" "simple_escape CHR ''t'' = Some CHR 0x09"
  "simple_escape CHR ''n'' = Some CHR 0x0A" "simple_escape CHR ''f'' = Some CHR 0x0C"
  "simple_escape CHR ''r'' = Some CHR 0x0D"
  by (simp_all add: simple_escape_def code_def)

lemma escape_codes:
  "code CHR 0x22 = 34" "code CHR 0x5C = 92" "code CHR 0x08 = 8" "code CHR 0x09 = 9"
  "code CHR 0x0A = 10" "code CHR 0x0C = 12" "code CHR 0x0D = 13"
  by (simp_all add: code_def)

lemma parse_chars_unicode:
  "unicode_escape es = Some (u, r) \<Longrightarrow>
   parse_chars (CHR 0x5C # CHR ''u'' # es) = map_option (\<lambda>(t, s). (u @ t, s)) (parse_chars r)"
  by (simp add: escape_codes)

lemma parse_chars_escape:
  "simple_escape e = Some d \<Longrightarrow> e \<noteq> CHR ''u'' \<Longrightarrow>
   parse_chars (CHR 0x5C # e # es) = map_option (\<lambda>(t, s). (d # t, s)) (parse_chars es)"
  by (simp add: escape_codes)

declare parse_chars.simps [simp del]

lemma json_char_cases:
  obtains (esc) e where "json_char c = [CHR 0x5C, e]" "simple_escape e = Some c" "e \<noteq> CHR ''u''"
  | (ctl) "code c < 32"
      "json_char c = [CHR 0x5C, CHR ''u'', CHR ''0'', CHR ''0'', lower_hex (code c div 16), lower_hex (code c mod 16)]"
  | (plain) "json_char c = [c]" "c \<noteq> CHR 0x22" "code c \<noteq> 92" "\<not> code c < 32"
proof -
  consider (1) "c = CHR 0x22" | (2) "c = CHR 0x5C" | (3) "c = CHR 0x08" | (4) "c = CHR 0x09"
    | (5) "c = CHR 0x0A" | (6) "c = CHR 0x0C" | (7) "c = CHR 0x0D"
    | (8) "c \<noteq> CHR 0x22" "code c \<notin> {92, 8, 9, 10, 12, 13}"
    by (auto simp: code_inj [symmetric] escape_codes)
  then show thesis
  proof cases
    case 1
    then show thesis using esc [of "CHR 0x22"] by (simp add: json_char_def escape_codes simple_escapes)
  next
    case 2
    then show thesis using esc [of "CHR 0x5C"] by (simp add: json_char_def escape_codes simple_escapes)
  next
    case 3
    then show thesis using esc [of "CHR ''b''"] by (simp add: json_char_def escape_codes simple_escapes)
  next
    case 4
    then show thesis using esc [of "CHR ''t''"] by (simp add: json_char_def escape_codes simple_escapes)
  next
    case 5
    then show thesis using esc [of "CHR ''n''"] by (simp add: json_char_def escape_codes simple_escapes)
  next
    case 6
    then show thesis using esc [of "CHR ''f''"] by (simp add: json_char_def escape_codes simple_escapes)
  next
    case 7
    then show thesis using esc [of "CHR ''r''"] by (simp add: json_char_def escape_codes simple_escapes)
  next
    case 8
    then show thesis using ctl plain by (cases "code c < 32") (auto simp: json_char_def)
  qed
qed

lemma parse_json_char:
  "parse_chars (json_char c @ s) = map_option (\<lambda>(t, r). (c # t, r)) (parse_chars s)"
proof (cases c rule: json_char_cases)
  case (esc e)
  then show ?thesis by (simp add: parse_chars_escape)
next
  case ctl
  then show ?thesis
    by (simp add: parse_chars_unicode [OF unicode_escape_control [OF ctl(1)]])
next
  case plain
  then show ?thesis by (simp add: parse_chars.simps(2))
qed

lemma parse_json_escape: "parse_chars (json_escape t @ CHR 0x22 # s) = Some (t, s)"
  by (induction t) (simp_all add: json_escape_def parse_json_char parse_chars.simps(2))

lemma skip_ws_same: "code c \<notin> {32, 9, 10, 13} \<Longrightarrow> skip_ws (c # s) = c # s"
  by simp

lemma stop_punct: "stop ('','' @ s)" "stop ('']'' @ s)" "stop (''}'' @ s)" "stop []"
  by (simp_all add: stop_def)

lemma stringify_head:
  assumes "json_data v"
  obtains c cs where "stringify v = c # cs" "code c \<notin> {32, 9, 10, 13}" "c \<noteq> CHR '']''" "c \<noteq> CHR ''}''"
proof (cases v)
  case (JNum i)
  obtain d ds where "show_nat (nat \<bar>i\<bar>) = d # ds" "is_digit d" by (rule show_nat_Cons)
  then show thesis
    using is_digit_not_special [of d] that JNum by (cases "i < 0") (auto simp: show_int_def code_def)
next
  case (JBool b)
  then show thesis using that by (cases b) (auto simp: code_def)
qed (use assms that in \<open>auto simp: json_quote_def code_def\<close>)

lemma skip_ws_stringify: "json_data v \<Longrightarrow> skip_ws (stringify v @ s) = stringify v @ s"
  by (rule stringify_head [of v]) auto

lemma parse_value_number:
  assumes "\<bar>i\<bar> < 2 ^ 53" "stop s"
  shows "parse_value (Suc n) (show_int i @ s) = Some (JNum i, s)"
proof -
  obtain d ds where d: "show_nat (nat \<bar>i\<bar>) = d # ds" "is_digit d" by (rule show_nat_Cons)
  obtain c cs where c: "show_int i @ s = c # cs" "c = CHR ''-'' \<or> is_digit c"
    using d by (cases "i < 0") (simp_all add: show_int_def)
  have "code c \<notin> {32, 9, 10, 13}" using c(2) is_digit_not_special [of c] by (auto simp: code_def)
  then have "skip_ws (show_int i @ s) = c # cs" using c(1) by simp
  moreover have "c \<noteq> CHR ''{'' \<and> c \<noteq> CHR ''['' \<and> c \<noteq> CHR 0x22 \<and> c \<noteq> CHR ''t'' \<and> c \<noteq> CHR ''f'' \<and> c \<noteq> CHR ''n''"
    using c(2) is_digit_not_special [of c] by auto
  ultimately show ?thesis
    using parse_number_show [OF assms] c(1) by simp
qed

lemma joinWith_Cons: "joinWith sep (p # ps) = p @ (if ps = [] then [] else sep @ joinWith sep ps)"
  by (cases ps) auto

lemma define_all_distinct: "distinct (map fst (acc @ ps)) \<Longrightarrow> define_all acc ps = acc @ ps"
proof (induction acc ps rule: define_all.induct)
  case (2 acc k v ps)
  then have "obj_define acc k v = acc @ [(k, v)]" by (intro obj_define_fresh) auto
  with 2 show ?case by simp
qed simp

lemma stringify_members_empty: "\<forall>p \<in> set ps. json_data (snd p) \<Longrightarrow> stringify_members ps = [] \<longleftrightarrow> ps = []"
  by (cases ps) (auto split: if_splits)

lemma stringify_elems_empty: "stringify_elems vs = [] \<longleftrightarrow> vs = []"
  by (cases vs) auto

lemma Suc_le_obtain: assumes "Suc m \<le> n" obtains k where "n = Suc k" "m \<le> k"
  using assms by (cases n) auto

lemma parse_stringify:
  "json_data v \<Longrightarrow> stop s \<Longrightarrow> need v \<le> n \<Longrightarrow> parse_value n (stringify v @ s) = Some (v, s)"
  "\<forall>v \<in> set vs. json_data v \<Longrightarrow> vs \<noteq> [] \<Longrightarrow> need_elems vs \<le> n \<Longrightarrow>
     parse_elems n (joinWith '','' (stringify_elems vs) @ '']'' @ s) = Some (vs, s)"
  "\<forall>p \<in> set ps. json_data (snd p) \<Longrightarrow> ps \<noteq> [] \<Longrightarrow> need_members ps \<le> n \<Longrightarrow>
     parse_members n (joinWith '','' (stringify_members ps) @ ''}'' @ s) = Some (ps, s)"
proof (induction v and vs and ps arbitrary: n s and n s and n s
    rule: stringify_stringify_elems_stringify_members.induct)
  case 2
  then show ?case by (cases n) (simp_all add: parse_literal_def code_def)
next
  case (3 b)
  then show ?case by (cases n) (simp_all add: parse_literal_def code_def)
next
  case (4 i)
  then show ?case using parse_value_number by (cases n) simp_all
next
  case (6 t)
  then show ?case by (cases n) (simp_all add: json_quote_def parse_json_escape escape_codes)
next
  case (7 vs)
  from "7.prems"(3) obtain k where n: "n = Suc k" and k: "need_elems vs \<le> k"
    by (auto elim: Suc_le_obtain)
  show ?case
  proof (cases vs)
    case Nil
    then show ?thesis by (simp add: n code_def)
  next
    case (Cons w ws)
    have w: "json_data w" using "7.prems"(1) Cons by simp
    obtain c cs where c: "stringify w = c # cs" "code c \<notin> {32, 9, 10, 13}" "c \<noteq> CHR '']''"
      using stringify_head [OF w] by blast
    let ?t = "joinWith '','' (stringify_elems vs) @ '']'' @ s"
    obtain r where r: "?t = c # r" using Cons c by (simp add: joinWith_Cons)
    have "parse_elems k ?t = Some (vs, s)" using "7.IH" "7.prems"(1) Cons k by simp
    with r c show ?thesis by (simp add: n code_def)
  qed
next
  case (8 ps)
  from "8.prems"(3) obtain k where n: "n = Suc k" and k: "need_members ps \<le> k"
    by (auto elim: Suc_le_obtain)
  show ?case
  proof (cases ps)
    case Nil
    then show ?thesis by (simp add: n code_def)
  next
    case (Cons p qs)
    obtain key w where p: "p = (key, w)" by (cases p)
    have w: "w \<noteq> JUndef" using "8.prems"(1) Cons p by auto
    let ?t = "joinWith '','' (stringify_members ps) @ ''}'' @ s"
    obtain r where r: "?t = CHR 0x22 # r" using Cons p w by (simp add: joinWith_Cons json_quote_def)
    have "parse_members k ?t = Some (ps, s)" using "8.IH" "8.prems"(1) Cons k by simp
    moreover have "js_order (define_all [] ps) = ps"
      using "8.prems"(1) define_all_distinct [of "[]" ps] by simp
    ultimately show ?thesis using r by (simp add: n code_def)
  qed
next
  case (10 v vs)
  from "10.prems"(3) obtain k where n: "n = Suc k" and k: "max (need v) (need_elems vs) \<le> k"
    by (auto elim: Suc_le_obtain)
  show ?case
  proof (cases "vs = []")
    case True
    have "parse_value k (stringify v @ '']'' @ s) = Some (v, '']'' @ s)"
      using "10.IH"(1) "10.prems"(1) k stop_punct(2) by simp
    with True show ?thesis by (simp add: n code_def)
  next
    case False
    let ?r = "joinWith '','' (stringify_elems vs) @ '']'' @ s"
    have "parse_value k (stringify v @ '','' @ ?r) = Some (v, '','' @ ?r)"
      using "10.IH"(1) "10.prems"(1) k stop_punct(1) by simp
    moreover have "parse_elems k ?r = Some (vs, s)"
      using "10.IH"(2) "10.prems"(1) False k by simp
    ultimately show ?thesis
      using False by (simp add: n code_def joinWith_Cons stringify_elems_empty)
  qed
next
  case (12 key v ps)
  from "12.prems"(3) obtain k where n: "n = Suc k" and k: "max (need v) (need_members ps) \<le> k"
    by (auto elim: Suc_le_obtain)
  have v: "json_data v" "v \<noteq> JUndef" using "12.prems"(1) by auto
  have ps: "\<forall>p \<in> set ps. json_data (snd p)" using "12.prems"(1) by auto
  show ?case
  proof (cases "ps = []")
    case True
    have "parse_value k (stringify v @ ''}'' @ s) = Some (v, ''}'' @ s)"
      using "12.IH"(2) v k stop_punct(3) by simp
    with True v show ?thesis by (simp add: n json_quote_def parse_json_escape code_def)
  next
    case False
    let ?r = "joinWith '','' (stringify_members ps) @ ''}'' @ s"
    have "parse_value k (stringify v @ '','' @ ?r) = Some (v, '','' @ ?r)"
      using "12.IH"(2) v k stop_punct(1) by simp
    moreover have "parse_members k ?r = Some (ps, s)"
      using "12.IH"(3) v ps False k by simp
    ultimately show ?thesis
      using False v ps
      by (simp add: n json_quote_def parse_json_escape code_def joinWith_Cons stringify_members_empty)
  qed
qed simp_all

theorem json_parse_stringify:
  assumes "json_data v"
  shows "json_parse (stringify v) = Some v"
proof -
  let ?s = "stringify v"
  let ?n = "max (need v) (2 * length ?s + 1)"
  have "parse_value ?n (?s @ []) = Some (v, [])"
    using parse_stringify(1) [OF assms stop_punct(4)] by simp
  moreover have "parse_value ?n ?s = parse_value (2 * length ?s + 1) ?s"
    by (rule parse_fuel) simp
  ultimately have eq: "parse_value (2 * length ?s + 1) ?s = Some (v, [])"
    by (simp only: append_Nil2)
  show ?thesis unfolding json_parse_def eq by simp
qed

lemma stringify_inj: "json_data v \<Longrightarrow> json_data w \<Longrightarrow> stringify v = stringify w \<longleftrightarrow> v = w"
  by (metis json_parse_stringify option.inject)

end
