(* ===== verification/PolicyFacts.thy ===== *)
theory PolicyFacts
  imports Policy JsonRoundtrip
begin

text \<open>
  What an accepted policy is, version by version (\<open>wf_policy\<close>): the validator accepts only
  such policies, and accepts each of them again when it is written back as an object, so the
  rewriting helpers compose.
\<close>

subsection \<open>Loopback origins\<close>

definition loopback_parts :: "string \<Rightarrow> nat \<Rightarrow> string option \<Rightarrow> string option \<Rightarrow> bool" where
  "loopback_parts h p q f \<longleftrightarrow> h \<in> LOOPBACK_HOSTS \<and> p \<le> 65535 \<and> p \<noteq> 80 \<and>
     q \<in> {None, Some []} \<and> f \<in> {None, Some []}"

lemma add_segments_nonempty: "acc \<noteq> [] \<or> ss \<noteq> [] \<Longrightarrow> add_segments acc ss \<noteq> []"
  by (induction acc ss rule: add_segments.induct) auto

lemma path_split_nonempty: "path_split s \<noteq> []"
  by (simp add: path_split_def)

lemma parse_tail_fields [simp]:
  "u_scheme (parse_tail u acc s) = u_scheme u" "u_port (parse_tail u acc s) = u_port u"
  "u_host (parse_tail u acc s) = u_host u" "u_path (parse_tail u acc s) \<noteq> []"
  by (simp_all add: parse_tail_def Let_def add_segments_nonempty path_split_nonempty)

lemma parse_port_not_default [simp]: "parse_port sch s \<noteq> Some (Some (default_port sch))"
  by (auto simp: parse_port_def split: if_splits)

lemma parse_authority_facts:
  "parse_authority sch s = Some u \<Longrightarrow>
     u_scheme u = sch \<and> u_port u \<noteq> Some (default_port sch) \<and> u_path u \<noteq> []"
  by (auto simp: parse_authority_def Let_def split: option.splits prod.splits)

lemma newURL_http:
  assumes "newURL s = Some u" "u_scheme u = ''http''"
  shows "u_port u \<noteq> Some 80" "u_path u \<noteq> []"
proof -
  from assms obtain sch rest where "parse_authority sch rest = Some u"
    by (auto simp: newURL_def url_parse_def other_scheme_def Let_def split: option.splits if_splits)
  note f = parse_authority_facts [OF this]
  have "sch = ''http''" using f assms(2) by simp
  then have "default_port sch = 80" by (simp add: default_port_def)
  with f show "u_port u \<noteq> Some 80" "u_path u \<noteq> []" by simp_all
qed

lemma pathname_root:
  assumes "pathname u = ''/'' \<or> pathname u = []" "u_path u \<noteq> []"
  shows "u_path u = [[]]"
proof -
  obtain s ss where "u_path u = s # ss" using assms(2) by (cases "u_path u") auto
  then show ?thesis using assms(1) by (cases ss) (auto simp: pathname_def)
qed

lemma parseLoopbackHttpUrl_Inr:
  assumes "parseLoopbackHttpUrl v n = Inr u"
  obtains h p q f where "loopback_parts h p q f" "u = loopback_url h p q f"
proof -
  from assms obtain s where s: "newURL s = Some u" "protocol u = ''http:''" "u_host u \<in> LOOPBACK_HOSTS"
    "port_str u \<noteq> []" "read_nat (port_str u) 0 \<le> 65535" "u_username u = []" "u_password u = []"
    "search u = []" "hash u = []" "pathname u = ''/'' \<or> pathname u = []"
    by (auto simp: parseLoopbackHttpUrl_def split: option.splits if_splits)
  from s(2) have sch: "u_scheme u = ''http''" by (simp add: protocol_def)
  note nu = newURL_http [OF s(1) sch]
  from s(4) obtain p where p: "u_port u = Some p" by (auto simp: port_str_def split: option.splits)
  have "loopback_parts (u_host u) p (u_query u) (u_fragment u)"
    using s nu p by (auto simp: loopback_parts_def port_str_def search_def hash_def
        split: option.splits if_splits)
  moreover have "u = loopback_url (u_host u) p (u_query u) (u_fragment u)"
    using s(6,7) sch p pathname_root [OF s(10) nu(2)] by (simp add: loopback_url_def)
  ultimately show thesis using that by blast
qed

lemma has_explicit_port_append: "has_explicit_port t \<Longrightarrow> has_explicit_port (s @ t)"
  by (induction s) auto

lemma origin_text_loopback:
  assumes "loopback_parts h p q f"
  obtains t where "origin_text (loopback_url h p q f) = ''http://'' @ h @ '':'' @ show_nat p @ t"
    "t = [] \<or> hd t = CHR ''/''"
proof -
  have hr: "href (loopback_url h p q f) = ''http://'' @ h @ '':'' @ show_nat p @ ''/''
      @ (if q = None then [] else ''?'') @ (if f = None then [] else ''#'')"
    using assms by (auto simp: href_def loopback_url_def host_port_def pathname_def loopback_parts_def)
  show thesis
  proof (cases "q = None \<and> f = None")
    case True
    then have "origin_text (loopback_url h p q f) = ''http://'' @ h @ '':'' @ show_nat p @ []"
      unfolding origin_text_def hr by (simp add: dropTrailingSlash_def butlast_append)
    then show thesis using that by blast
  next
    case False
    then have "origin_text (loopback_url h p q f) = ''http://'' @ h @ '':'' @ show_nat p @ ''/''
      @ (if q = None then [] else ''?'') @ (if f = None then [] else ''#'')"
      unfolding origin_text_def hr using assms
      by (auto simp: dropTrailingSlash_def loopback_parts_def)
    then show thesis using that by (metis append_Cons list.sel(1))
  qed
qed

lemma parseLoopbackHttpUrl_origin:
  assumes "loopback_parts h p q f"
  shows "parseLoopbackHttpUrl (JStr (origin_text (loopback_url h p q f))) n = Inr (loopback_url h p q f)"
proof -
  let ?u = "loopback_url h p q f"
  obtain t where t: "origin_text ?u = ''http://'' @ h @ '':'' @ show_nat p @ t" "t = [] \<or> hd t = CHR ''/''"
    using assms by (rule origin_text_loopback)
  have tw: "takeWhile is_digit (show_nat p @ t) = show_nat p" "dropWhile is_digit (show_nat p @ t) = t"
  proof -
    have nd: "takeWhile is_digit t = []" "dropWhile is_digit t = t"
      using t(2) by (cases t; simp add: is_digit_def)+
    have all: "c \<in> set (show_nat p) \<Longrightarrow> is_digit c" for c
      using show_nat_digits [of p] by (simp add: list_all_iff)
    show "takeWhile is_digit (show_nat p @ t) = show_nat p"
      using nd all by (simp add: takeWhile_append2)
    show "dropWhile is_digit (show_nat p @ t) = t"
      using nd all by (simp add: dropWhile_append2)
  qed
  have "has_explicit_port ('':'' @ show_nat p @ t)"
    using tw t(2) by simp
  then have port: "has_explicit_port (origin_text ?u)"
    using has_explicit_port_append [of _ "''http://'' @ h"] t(1) by simp
  have new: "newURL (origin_text ?u) = Some ?u"
    using newURL_loopback [of h p q f] assms by (simp add: loopback_parts_def LOOPBACK_HOSTS_def origin_text_def)
  have ts: "trimStart (CHR ''h'' # s) = CHR ''h'' # s" for s by (simp add: is_space_def code_def)
  have "trimStart (s @ ''//:ptth'') \<noteq> []" for s by (induction s) (auto simp: is_space_def code_def)
  from this [of "rev t @ rev (show_nat p) @ CHR '':'' # rev h"] have tr: "trim (origin_text ?u) \<noteq> []"
    unfolding t(1) trim_def append_Cons ts by simp
  have "port_str ?u = show_nat p" "protocol ?u = ''http:''" "u_host ?u = h" "search ?u = []" "hash ?u = []"
    "pathname ?u = ''/''" "u_username ?u = []" "u_password ?u = []"
    using assms by (auto simp: port_str_def loopback_url_def protocol_def search_def hash_def pathname_def
        loopback_parts_def)
  then show ?thesis
    using tr new port assms by (simp add: parseLoopbackHttpUrl_def loopback_parts_def)
qed

definition loopback_origin :: "string \<Rightarrow> bool" where
  "loopback_origin s \<longleftrightarrow> (\<exists>h p q f. loopback_parts h p q f \<and> s = origin_text (loopback_url h p q f))"

lemma parse_origin_again:
  assumes "loopback_origin s"
  obtains u where "\<And>n. parseLoopbackHttpUrl (JStr s) n = Inr u" "origin_text u = s"
proof -
  from assms obtain h p q f where hp: "loopback_parts h p q f"
    "s = origin_text (loopback_url h p q f)" unfolding loopback_origin_def by blast
  show thesis by (rule that [of "loopback_url h p q f"]) (use hp parseLoopbackHttpUrl_origin in auto)
qed

lemma parse_gives_origin:
  "parseLoopbackHttpUrl v n = Inr u \<Longrightarrow> loopback_origin (origin_text u)"
  using parseLoopbackHttpUrl_Inr by (metis loopback_origin_def)

subsection \<open>Accepted fields\<close>

lemma requireOriginPath_Inr [guard_simps]:
  "requireOriginPath v n = Inr s \<longleftrightarrow> v = JStr s \<and> origin_path s"
  by (cases v) (auto simp: requireOriginPath_def)

lemma fieldName_Inr [guard_simps]: "fieldName v e = Inr s \<longleftrightarrow> v = JStr s \<and> FIELD_NAME s"
  by (cases v) (auto simp: fieldName_def)

lemma hiddenField_Inr [guard_simps]:
  "hiddenField uf pf v = Inr s \<longleftrightarrow> v = JStr s \<and> FIELD_NAME s \<and> s \<noteq> uf \<and> s \<noteq> pf"
  by (auto simp: hiddenField_def fieldName_Inr split: sum.splits if_splits)
     (metis fieldName_Inr sum.distinct(1))

lemma httpMethod_Inr [guard_simps]: "httpMethod v e = Inr s \<longleftrightarrow> v = JStr s \<and> s \<in> HTTP_METHODS"
  by (cases v) (auto simp: httpMethod_def)

lemma httpPath_Inr [guard_simps]:
  "httpPath v = Inr s \<longleftrightarrow> v = JStr s \<and> startsWith s ''/'' \<and> \<not> startsWith s ''//'' \<and>
     CHR ''?'' \<notin> set s \<and> CHR ''#'' \<notin> set s"
  by (cases v) (auto simp: httpPath_def)

lemma sshCommand_Inr [guard_simps]: "sshCommand v = Inr s \<longleftrightarrow> v = JStr s \<and> SSH_COMMAND_NAME s"
  by (cases v) (auto simp: sshCommand_def)

lemma ftpOp_Inr [guard_simps]: "ftpOp v = Inr s \<longleftrightarrow> v = JStr s \<and> s \<in> set FTP_OPS"
  by (cases v) (auto simp: ftpOp_def)

lemma targetHost_Inr [guard_simps]:
  "targetHost v = Inr s \<longleftrightarrow> v = JStr s \<and> DNS_HOSTNAME s \<and> \<not> isIPv4 s \<and>
     \<not> startsWith s ''xn--'' \<and> \<not> contains s ''.xn--''"
  by (cases v) (auto simp: targetHost_def)

lemma validService_Inr [guard_simps]: "validService v = Inr s \<longleftrightarrow> v = JStr s \<and> trim s \<noteq> []"
  by (cases v) (auto simp: validService_def)

lemma policyVersion_Inr [guard_simps]:
  "policyVersion obj = Inr v \<longleftrightarrow> getProp obj ''version'' = JNum v \<and> 1 \<le> v \<and> v \<le> 8"
  by (cases "getProp obj ''version''") (auto simp: policyVersion_def)

lemma redirectHops_Inr [guard_simps]: "redirectHops v = Inr n \<longleftrightarrow> v = JNum n \<and> n \<in> {1, 2, 3}"
  by (auto simp: redirectHops_def)

lemma validateQueryParamName_Inr [guard_simps]:
  "validateQueryParamName v = Inr s \<longleftrightarrow> v = JStr s \<and> QUERY_PARAM_NAME s"
  by (cases v) (auto simp: validateQueryParamName_def)

definition header_name_ok :: "string \<Rightarrow> bool" where
  "header_name_ok s \<longleftrightarrow> LOWERCASE_ASCII_HEADER_NAME s \<and> length s \<le> 128 \<and>
     s \<notin> set FORBIDDEN_API_KEY_HEADER_NAMES \<and>
     (\<forall>p \<in> set FORBIDDEN_API_KEY_HEADER_PREFIXES. \<not> prefix p s)"

lemma validateApiKeyHeaderName_Inr [guard_simps]:
  "validateApiKeyHeaderName v = Inr s \<longleftrightarrow> v = JStr s \<and> header_name_ok s"
proof -
  have "\<not> list_ex (\<lambda>p. s = p \<or> startsWith s p) ps \<longleftrightarrow> (\<forall>p \<in> set ps. \<not> prefix p s)" for s :: string and ps
    by (auto simp: list_ex_iff startsWith_def)
  then show ?thesis
    by (cases v) (auto simp: validateApiKeyHeaderName_def header_name_ok_def
        LOWERCASE_ASCII_HEADER_NAME_def MAX_API_KEY_HEADER_NAME_LENGTH_def)
qed

lemma parseLoopbackTarget_Inr [guard_simps]:
  "parseLoopbackTarget host port = Inr (h, p) \<longleftrightarrow>
     host = JStr h \<and> port = JNum p \<and> h \<in> LOOPBACK_HOSTS \<and> 0 \<le> p \<and> p \<le> 65535"
  by (cases host; cases port) (auto simp: parseLoopbackTarget_def)

definition ttls_ok :: "int \<Rightarrow> int \<Rightarrow> bool" where
  "ttls_ok ttl idle \<longleftrightarrow> 1000 \<le> ttl \<and> ttl \<le> 300000 \<and> 1000 \<le> idle \<and> idle \<le> ttl"

lemma validateSessionTtls_Inr [guard_simps]:
  "validateSessionTtls obj = Inr (t, i) \<longleftrightarrow>
     getProp obj ''session_ttl_ms'' = JNum t \<and> getProp obj ''idle_ttl_ms'' = JNum i \<and> ttls_ok t i"
  by (cases "getProp obj ''session_ttl_ms''"; cases "getProp obj ''idle_ttl_ms''")
     (auto simp: validateSessionTtls_def ttls_ok_def)

lemma validateExactPlaceholder_None [guard_simps]:
  "validateExactPlaceholder v p n = None \<longleftrightarrow> v = JStr p"
  by (auto simp: validateExactPlaceholder_def split: option.splits)

lemma validateCredentialPlaceholder_None [guard_simps]:
  "validateCredentialPlaceholder v n = None \<longleftrightarrow> v = JStr CREDENTIAL_PLACEHOLDER"
  by (auto simp: validateCredentialPlaceholder_def split: option.splits)

lemma requireString_None [guard_simps]: "requireString v n = None \<longleftrightarrow> (\<exists>s. v = JStr s)"
  by (cases v) (auto simp: requireString_def)

lemma validateUserPassPlaceholders_None [guard_simps]:
  "validateUserPassPlaceholders obj = None \<longleftrightarrow>
     getProp obj ''username_value'' = JStr USERNAME_PLACEHOLDER \<and>
     getProp obj ''password_value'' = JStr PASSWORD_PLACEHOLDER"
  by (cases "validateExactPlaceholder (getProp obj ''username_value'') USERNAME_PLACEHOLDER
        ''policy.username_value''")
     (auto simp: validateUserPassPlaceholders_def validateExactPlaceholder_def
      split: option.splits if_splits)

lemma validateExactFields_None [guard_simps]:
  "validateExactFields v fs = None \<longleftrightarrow> set (own_keys v) \<subseteq> set fs"
  by (auto simp: validateExactFields_def Let_def filter_empty_conv)

lemma class_of_version:
  "1 \<le> v \<Longrightarrow> v \<le> 8 \<Longrightarrow> \<exists>c. CREDENTIAL_CLASS_BY_VERSION v = Some c \<and>
     c \<in> set SUPPORTED_CREDENTIAL_CLASSES \<and> c \<notin> set REJECTED_CREDENTIAL_CLASSES \<and> trim c \<noteq> []"
proof -
  assume "1 \<le> v" "v \<le> 8"
  then consider "v = 1" | "v = 2" | "v = 3" | "v = 4" | "v = 5" | "v = 6" | "v = 7" | "v = 8" by linarith
  then show ?thesis
    by cases (simp_all add: class_list_defs trim_def is_space_def code_def)
qed

lemma validateClass_None [guard_simps]:
  assumes "1 \<le> v" "v \<le> 8"
  shows "validateClass v cls = None \<longleftrightarrow> (\<exists>c. cls = JStr c \<and> CREDENTIAL_CLASS_BY_VERSION v = Some c)"
  using class_of_version [OF assms] by (cases cls) (auto simp: validateClass_def)

subsection \<open>Accepted lists\<close>

definition wf_names :: "(string \<Rightarrow> bool) \<Rightarrow> string list \<Rightarrow> bool" where
  "wf_names P ss \<longleftrightarrow> distinct ss \<and> (\<forall>s \<in> set ss. P s)"

lemma collect_strings:
  assumes "\<And>v s. f v = Inr s \<longleftrightarrow> v = JStr s \<and> P s"
  shows "collect f dup [] vs = Inr ss \<longleftrightarrow> vs = map JStr ss \<and> wf_names P ss"
proof
  assume "collect f dup [] vs = Inr ss"
  note r = collect_result [OF this]
  from r(3) have "vs = map JStr ss \<and> (\<forall>s \<in> set ss. P s)"
    by (induction rule: list_all2_induct) (auto simp: assms)
  with r(1) show "vs = map JStr ss \<and> wf_names P ss" by (simp add: wf_names_def)
next
  assume "vs = map JStr ss \<and> wf_names P ss"
  then show "collect f dup [] vs = Inr ss"
    using collect_all [of ss f JStr "[]" dup] by (auto simp: wf_names_def assms)
qed

definition wf_paths :: "nat \<Rightarrow> string list \<Rightarrow> bool" where
  "wf_paths bound ps \<longleftrightarrow> wf_names origin_path ps \<and> ps \<noteq> [] \<and> length ps \<le> bound"

lemma allowedPaths_Inr [guard_simps]: "allowedPaths v bound = Inr ps \<longleftrightarrow> v = strings ps \<and> wf_paths bound ps"
proof -
  note c = collect_strings [where P = origin_path and f = "\<lambda>p. requireOriginPath p n" for n,
      OF requireOriginPath_Inr]
  show ?thesis
    by (cases v) (auto simp: allowedPaths_def c wf_paths_def strings_def Suc_le_eq)
qed

lemma hiddenFields_Inr [guard_simps]:
  "hiddenFields v uf pf = Inr ss \<longleftrightarrow> v = strings ss \<and> length ss \<le> 16 \<and>
     wf_names (\<lambda>s. FIELD_NAME s \<and> s \<noteq> uf \<and> s \<noteq> pf) ss"
proof -
  note c = collect_strings [where P = "\<lambda>s. FIELD_NAME s \<and> s \<noteq> uf \<and> s \<noteq> pf", OF hiddenField_Inr]
  show ?thesis
    by (cases v) (auto simp: hiddenFields_def c MAX_HIDDEN_FIELDS_def strings_def)
qed

subsection \<open>Accepted policies\<close>

definition wf_http :: "http_fields \<Rightarrow> bool" where
  "wf_http c \<longleftrightarrow> trim (hf_service c) \<noteq> [] \<and> loopback_origin (hf_bind c) \<and> hf_method c \<in> HTTP_METHODS \<and>
     prefix ''/'' (hf_path c) \<and> \<not> prefix ''//'' (hf_path c) \<and>
     CHR ''?'' \<notin> set (hf_path c) \<and> CHR ''#'' \<notin> set (hf_path c)"

definition wf_browser_fields :: "browser_policy \<Rightarrow> bool" where
  "wf_browser_fields b \<longleftrightarrow>
     trim (bp_service b) \<noteq> [] \<and> loopback_origin (bp_bind b) \<and>
     origin_path (login_path b) \<and> origin_path (form_action b) \<and>
     FIELD_NAME (username_field b) \<and> FIELD_NAME (password_field b) \<and>
     username_field b \<noteq> password_field b \<and> length (hidden_fields b) \<le> 16 \<and>
     wf_names (\<lambda>s. FIELD_NAME s \<and> s \<noteq> username_field b \<and> s \<noteq> password_field b) (hidden_fields b) \<and>
     wf_paths 32 (bp_allowed_paths b) \<and>
     success_path b \<in> set (bp_allowed_paths b) \<and> replay_path b \<in> set (bp_allowed_paths b) \<and>
     replay_method b \<in> HTTP_METHODS \<and> max_redirect_hops b \<in> {1, 2, 3} \<and>
     ttls_ok (bp_session_ttl_ms b) (bp_idle_ttl_ms b)"

definition wf_ssh :: "ssh_policy \<Rightarrow> bool" where
  "wf_ssh s \<longleftrightarrow> trim (sp_service s) \<noteq> [] \<and> loopback_origin (sp_bind s) \<and>
     sp_target_host s \<in> LOOPBACK_HOSTS \<and> 0 \<le> sp_target_port s \<and> sp_target_port s \<le> 65535 \<and>
     wf_names SSH_COMMAND_NAME (allowed_commands s) \<and>
     allowed_commands s \<noteq> [] \<and> length (allowed_commands s) \<le> 8 \<and>
     ttls_ok (sp_session_ttl_ms s) (sp_idle_ttl_ms s)"

definition wf_ftp :: "ftp_policy \<Rightarrow> bool" where
  "wf_ftp f \<longleftrightarrow> trim (fp_service f) \<noteq> [] \<and> loopback_origin (fp_bind f) \<and>
     fp_target_host f \<in> LOOPBACK_HOSTS \<and> 0 \<le> fp_target_port f \<and> fp_target_port f \<le> 65535 \<and>
     wf_names (\<lambda>op. op \<in> {''list'', ''retr''}) (allowed_ops f) \<and> allowed_ops f \<noteq> [] \<and>
     length (allowed_ops f) \<le> 2 \<and> wf_paths 16 (fp_allowed_paths f) \<and>
     ttls_ok (fp_session_ttl_ms f) (fp_idle_ttl_ms f)"

fun wf_policy :: "policy \<Rightarrow> bool" where
  "wf_policy (BearerPolicy c up) \<longleftrightarrow> wf_http c \<and> loopback_origin up"
| "wf_policy (ApiKeyHeaderPolicy c up h) \<longleftrightarrow> wf_http c \<and> loopback_origin up \<and> header_name_ok h"
| "wf_policy (ApiKeyQueryPolicy c up q) \<longleftrightarrow> wf_http c \<and> loopback_origin up \<and> QUERY_PARAM_NAME q"
| "wf_policy (BasicPolicy c up) \<longleftrightarrow> wf_http c \<and> loopback_origin up"
| "wf_policy (OneCliProxyPolicy c g host) \<longleftrightarrow>
     wf_http c \<and> (\<exists>u. parseLoopbackHttpUrl (JStr g) ''policy.gateway'' = Inr u \<and> origin_text u = g \<and>
        read_nat (port_str u) 0 \<noteq> 0) \<and>
     DNS_HOSTNAME host \<and> \<not> isIPv4 host \<and> \<not> prefix ''xn--'' host \<and> \<not> contains host ''.xn--''"
| "wf_policy (BrowserFormLoginPolicy b) \<longleftrightarrow> wf_browser_fields b \<and> loopback_origin (login_origin b)"
| "wf_policy (SshPolicy s) \<longleftrightarrow> wf_ssh s"
| "wf_policy (FtpPolicy f) \<longleftrightarrow> wf_ftp f"

lemma parse_again:
  assumes "parseLoopbackHttpUrl v n = Inr u"
  shows "parseLoopbackHttpUrl (JStr (origin_text u)) m = Inr u"
proof -
  obtain h p q f where "loopback_parts h p q f" "u = loopback_url h p q f"
    using assms by (rule parseLoopbackHttpUrl_Inr)
  then show ?thesis using parseLoopbackHttpUrl_origin by simp
qed

lemma buildBrowser_wf:
  assumes "buildBrowserFormLoginPolicy obj service u lo = Inr b" "trim service \<noteq> []"
    "loopback_origin (origin_text u)"
  shows "wf_browser_fields b \<and> login_origin b = origin_text lo"
  using assms unfolding buildBrowserFormLoginPolicy_def
  by (auto simp: guard_simps wf_browser_fields_def MAX_ALLOWED_PATHS_def split: option.splits)

lemma ssh_wf:
  assumes "validateSshSessionPolicy obj service u = Inr p" "trim service \<noteq> []"
    "loopback_origin (origin_text u)"
  shows "wf_policy p \<and> version_of p = 7"
proof -
  note c = collect_strings [OF sshCommand_Inr]
  show ?thesis using assms unfolding validateSshSessionPolicy_def
    by (auto simp: guard_simps c wf_ssh_def MAX_SSH_COMMANDS_def Suc_le_eq split: option.splits)
qed

lemma ftp_wf:
  assumes "validateFtpSessionPolicy obj service u = Inr p" "trim service \<noteq> []"
    "loopback_origin (origin_text u)"
  shows "wf_policy p \<and> version_of p = 8"
proof -
  note c = collect_strings [OF ftpOp_Inr]
  show ?thesis using assms unfolding validateFtpSessionPolicy_def
    by (auto simp: guard_simps c wf_ftp_def FTP_OPS_def MAX_FTP_PATHS_def Suc_le_eq split: option.splits)
qed

lemma onecli_wf:
  assumes "validateOneCliPolicy obj c = Inr p" "wf_http c"
  shows "wf_policy p \<and> version_of p = 4"
  using assms unfolding validateOneCliPolicy_def
  by (auto simp: guard_simps startsWith_def parse_again split: option.splits)

lemma injection_wf:
  assumes "validateHttpInjectionPolicy obj v c up = Inr p" "wf_http c" "loopback_origin up" "v \<in> {1, 2, 3, 6}"
  shows "wf_policy p \<and> version_of p = v"
  using assms unfolding validateHttpInjectionPolicy_def
  by (auto simp: guard_simps split: option.splits if_splits)

lemma validatePolicy_stages:
  assumes "validatePolicy raw = Inr p"
  obtains v service bu up where
    "is_object raw" "policyVersion raw = Inr v" "validateExactFields raw (policy_fields v) = None"
    "trim service \<noteq> []" "validateClass v (getProp raw ''credential_class'') = None"
    "loopback_origin (origin_text bu)" "policyUpstream raw v = Inr up"
    "(v = 5 \<and> validateBrowserFormLoginPolicy raw service bu = Inr p) \<or>
      (v = 7 \<and> validateSshSessionPolicy raw service bu = Inr p) \<or>
      (v = 8 \<and> validateFtpSessionPolicy raw service bu = Inr p) \<or>
      (v \<notin> {5, 7, 8} \<and> (\<exists>meth path.
         meth \<in> HTTP_METHODS \<and> httpPath (getProp raw ''path'') = Inr path \<and>
         (case up of None \<Rightarrow> validateOneCliPolicy raw
              \<lparr>hf_service = service, hf_bind = origin_text bu, hf_method = meth, hf_path = path\<rparr>
          | Some u \<Rightarrow> validateHttpInjectionPolicy raw v
              \<lparr>hf_service = service, hf_bind = origin_text bu, hf_method = meth, hf_path = path\<rparr>
              (origin_text u)) = Inr p))"
proof -
  from assms obtain v service bu up where base:
    "is_object raw" "policyVersion raw = Inr v" "validateExactFields raw (policy_fields v) = None"
    "trim service \<noteq> []" "validateClass v (getProp raw ''credential_class'') = None"
    "loopback_origin (origin_text bu)"
    and up: "policyUpstream raw v = Inr up"
    and rest: "(if v = 5 then validateBrowserFormLoginPolicy raw service bu
      else if v = 7 then validateSshSessionPolicy raw service bu
      else if v = 8 then validateFtpSessionPolicy raw service bu
      else case httpMethod (getProp raw ''method'') BadMethod of Inl e \<Rightarrow> Inl e | Inr meth \<Rightarrow>
        (case httpPath (getProp raw ''path'') of Inl e \<Rightarrow> Inl e | Inr path \<Rightarrow>
         (case up of None \<Rightarrow> validateOneCliPolicy raw
              \<lparr>hf_service = service, hf_bind = origin_text bu, hf_method = meth, hf_path = path\<rparr>
          | Some u \<Rightarrow> validateHttpInjectionPolicy raw v
              \<lparr>hf_service = service, hf_bind = origin_text bu, hf_method = meth, hf_path = path\<rparr>
              (origin_text u)))) = Inr p"
    unfolding validatePolicy_def Let_def guard_Inr call_Inr check_Inr not_not validService_Inr
    by (blast dest: parse_gives_origin)
  have body: "(v = 5 \<and> validateBrowserFormLoginPolicy raw service bu = Inr p) \<or>
      (v = 7 \<and> validateSshSessionPolicy raw service bu = Inr p) \<or>
      (v = 8 \<and> validateFtpSessionPolicy raw service bu = Inr p) \<or>
      (v \<notin> {5, 7, 8} \<and> (\<exists>meth path.
         meth \<in> HTTP_METHODS \<and> httpPath (getProp raw ''path'') = Inr path \<and>
         (case up of None \<Rightarrow> validateOneCliPolicy raw
              \<lparr>hf_service = service, hf_bind = origin_text bu, hf_method = meth, hf_path = path\<rparr>
          | Some u \<Rightarrow> validateHttpInjectionPolicy raw v
              \<lparr>hf_service = service, hf_bind = origin_text bu, hf_method = meth, hf_path = path\<rparr>
              (origin_text u)) = Inr p))"
    using rest by (cases "v = 5"; cases "v = 7"; cases "v = 8") (auto simp: guard_simps)
  show thesis by (rule that [OF base up body])
qed

lemma validatePolicy_Inr:
  assumes "validatePolicy raw = Inr p"
  shows "wf_policy p" "getProp raw ''version'' = JNum (version_of p)" "is_object raw"
    "set (own_keys raw) \<subseteq> set (policy_fields (version_of p))"
    "\<exists>c. getProp raw ''credential_class'' = JStr c \<and> CREDENTIAL_CLASS_BY_VERSION (version_of p) = Some c"
proof -
  from assms obtain v service bu up where base:
    "is_object raw" "policyVersion raw = Inr v" "validateExactFields raw (policy_fields v) = None"
    "trim service \<noteq> []" "validateClass v (getProp raw ''credential_class'') = None"
    "loopback_origin (origin_text bu)"
    and up: "policyUpstream raw v = Inr up" and body: "(v = 5 \<and> validateBrowserFormLoginPolicy raw service bu = Inr p) \<or>
      (v = 7 \<and> validateSshSessionPolicy raw service bu = Inr p) \<or>
      (v = 8 \<and> validateFtpSessionPolicy raw service bu = Inr p) \<or>
      (v \<notin> {5, 7, 8} \<and> (\<exists>meth path.
         meth \<in> HTTP_METHODS \<and> httpPath (getProp raw ''path'') = Inr path \<and>
         (case up of None \<Rightarrow> validateOneCliPolicy raw
              \<lparr>hf_service = service, hf_bind = origin_text bu, hf_method = meth, hf_path = path\<rparr>
          | Some u \<Rightarrow> validateHttpInjectionPolicy raw v
              \<lparr>hf_service = service, hf_bind = origin_text bu, hf_method = meth, hf_path = path\<rparr>
              (origin_text u)) = Inr p))"
    by (rule validatePolicy_stages)
  from base(2) have v: "getProp raw ''version'' = JNum v" "1 \<le> v" "v \<le> 8"
    by (simp_all add: policyVersion_Inr)
  have wf: "wf_policy p \<and> version_of p = v"
    using body
  proof (elim disjE conjE exE)
    assume "v = 5" "validateBrowserFormLoginPolicy raw service bu = Inr p"
    then show ?thesis using buildBrowser_wf [OF _ base(4,6)] parse_gives_origin
      unfolding validateBrowserFormLoginPolicy_def by (auto simp: guard_simps)
  next
    assume "v = 7" "validateSshSessionPolicy raw service bu = Inr p"
    then show ?thesis using ssh_wf [OF _ base(4,6)] by simp
  next
    assume "v = 8" "validateFtpSessionPolicy raw service bu = Inr p"
    then show ?thesis using ftp_wf [OF _ base(4,6)] by simp
  next
    fix meth path
    let ?c = "\<lparr>hf_service = service, hf_bind = origin_text bu, hf_method = meth, hf_path = path\<rparr>"
    assume "v \<notin> {5, 7, 8}" "meth \<in> HTTP_METHODS"
      "httpPath (getProp raw ''path'') = Inr path"
      "(case up of None \<Rightarrow> validateOneCliPolicy raw ?c
        | Some u \<Rightarrow> validateHttpInjectionPolicy raw v ?c (origin_text u)) = Inr p"
    note a = this(1) up this(2-)
    have c: "wf_http ?c" using base(4,6) a(3,4)
      by (auto simp: wf_http_def guard_simps startsWith_def)
    show ?thesis
    proof (cases "v = 4")
      case True
      with a(2,5) onecli_wf [OF _ c] show ?thesis by (auto simp: policyUpstream_def)
    next
      case False
      with a(1) v have v4: "v \<in> {1, 2, 3, 6}" by auto
      with a(2) obtain n u where u: "up = Some u" "parseLoopbackHttpUrl (getProp raw ''upstream'') n = Inr u"
        by (auto simp: policyUpstream_def guard_simps)
      with a(5) injection_wf [OF _ c parse_gives_origin v4] show ?thesis by auto
    qed
  qed
  show "wf_policy p" "getProp raw ''version'' = JNum (version_of p)" "is_object raw"
    "set (own_keys raw) \<subseteq> set (policy_fields (version_of p))"
    "\<exists>c. getProp raw ''credential_class'' = JStr c \<and> CREDENTIAL_CLASS_BY_VERSION (version_of p) = Some c"
    using wf v base validateClass_None [OF v(2,3)] by (auto simp: validateExactFields_None)
qed

subsection \<open>The returned object is accepted again\<close>

lemma collect_mapped:
  assumes "\<And>v s. f v = Inr s \<longleftrightarrow> v = JStr s \<and> P s" "wf_names P ss"
  shows "collect f dup [] (map JStr ss) = Inr ss"
  using collect_strings [OF assms(1)] assms(2) by blast

lemma collect_mapped_commands: "wf_names SSH_COMMAND_NAME ss \<Longrightarrow> collect sshCommand dup [] (map JStr ss) = Inr ss"
  by (rule collect_mapped [OF sshCommand_Inr])

lemma collect_mapped_ops: "wf_names (\<lambda>op. op \<in> {''list'', ''retr''}) ss \<Longrightarrow> collect ftpOp dup [] (map JStr ss) = Inr ss"
  by (rule collect_mapped [where P = "\<lambda>op. op \<in> {''list'', ''retr''}"]) (auto simp: ftpOp_Inr FTP_OPS_def)

lemma accepted_parts:
  "wf_http c \<Longrightarrow> httpMethod (JStr (hf_method c)) BadMethod = Inr (hf_method c)"
  "wf_http c \<Longrightarrow> httpPath (JStr (hf_path c)) = Inr (hf_path c)"
  "trim s \<noteq> [] \<Longrightarrow> validService (JStr s) = Inr s"
  "origin_path s \<Longrightarrow> requireOriginPath (JStr s) n = Inr s"
  "FIELD_NAME s \<Longrightarrow> fieldName (JStr s) e = Inr s"
  "s \<in> HTTP_METHODS \<Longrightarrow> httpMethod (JStr s) e = Inr s"
  "wf_paths k ps \<Longrightarrow> allowedPaths (strings ps) k = Inr ps"
  "hops \<in> {1, 2, 3} \<Longrightarrow> redirectHops (JNum hops) = Inr hops"
  "h \<in> LOOPBACK_HOSTS \<Longrightarrow> 0 \<le> p \<Longrightarrow> p \<le> 65535 \<Longrightarrow> parseLoopbackTarget (JStr h) (JNum p) = Inr (h, p)"
  by (auto simp: guard_simps wf_http_def startsWith_def)

lemma accepted_names:
  "header_name_ok h \<Longrightarrow> validateApiKeyHeaderName (JStr h) = Inr h"
  "QUERY_PARAM_NAME q \<Longrightarrow> validateQueryParamName (JStr q) = Inr q"
  by (simp_all add: guard_simps)

lemma accepted_ttls:
  "getProp obj ''session_ttl_ms'' = JNum t \<Longrightarrow> getProp obj ''idle_ttl_ms'' = JNum i \<Longrightarrow> ttls_ok t i \<Longrightarrow>
   validateSessionTtls obj = Inr (t, i)"
  by (simp add: validateSessionTtls_Inr)

lemma accepted_placeholders:
  "getProp obj ''username_value'' = JStr USERNAME_PLACEHOLDER \<Longrightarrow>
   getProp obj ''password_value'' = JStr PASSWORD_PLACEHOLDER \<Longrightarrow> validateUserPassPlaceholders obj = None"
  by (simp add: validateUserPassPlaceholders_None)

lemma accepted_hidden:
  "length ss \<le> 16 \<Longrightarrow> wf_names (\<lambda>s. FIELD_NAME s \<and> s \<noteq> uf \<and> s \<noteq> pf) ss \<Longrightarrow>
   hiddenFields (strings ss) uf pf = Inr ss"
  by (simp add: hiddenFields_Inr)

lemmas json_simps = common_json_def placeholders_json_def CREDENTIAL_PLACEHOLDER_def

lemma loopback_again:
  "loopback_origin s \<Longrightarrow> \<exists>u. (\<forall>n. parseLoopbackHttpUrl (JStr s) n = Inr u) \<and> origin_text u = s"
  by (metis parse_origin_again)

lemma shape_checks:
  "policyVersion (policy_json p) = Inr (version_of p)"
  "validateExactFields (policy_json p) (policy_fields (version_of p)) = None"
  "validateClass (version_of p) (getProp (policy_json p) ''credential_class'') = None"
  "is_object (policy_json p)"
proof -
  show "policyVersion (policy_json p) = Inr (version_of p)"
    by (cases p) (simp_all add: policyVersion_Inr json_simps browser_json_def)
  show "validateExactFields (policy_json p) (policy_fields (version_of p)) = None"
    by (cases p) (simp_all add: validateExactFields_None json_simps browser_json_def policy_fields_def COMMON_POLICY_FIELDS_def)
  show "validateClass (version_of p) (getProp (policy_json p) ''credential_class'') = None"
    by (cases p) (simp_all add: validateClass_None json_simps browser_json_def CREDENTIAL_CLASS_BY_VERSION_def)
  show "is_object (policy_json p)"
    by (cases p) (simp_all add: browser_json_def)
qed

text \<open>The object a policy is returned as has its own service and bind.\<close>

fun service_of :: "policy \<Rightarrow> string" where
  "service_of (BearerPolicy c _) = hf_service c"
| "service_of (ApiKeyHeaderPolicy c _ _) = hf_service c"
| "service_of (BasicPolicy c _) = hf_service c"
| "service_of (OneCliProxyPolicy c _ _) = hf_service c"
| "service_of (BrowserFormLoginPolicy b) = bp_service b"
| "service_of (ApiKeyQueryPolicy c _ _) = hf_service c"
| "service_of (SshPolicy s) = sp_service s"
| "service_of (FtpPolicy f) = fp_service f"

fun bind_of :: "policy \<Rightarrow> string" where
  "bind_of (BearerPolicy c _) = hf_bind c"
| "bind_of (ApiKeyHeaderPolicy c _ _) = hf_bind c"
| "bind_of (BasicPolicy c _) = hf_bind c"
| "bind_of (OneCliProxyPolicy c _ _) = hf_bind c"
| "bind_of (BrowserFormLoginPolicy b) = bp_bind b"
| "bind_of (ApiKeyQueryPolicy c _ _) = hf_bind c"
| "bind_of (SshPolicy s) = sp_bind s"
| "bind_of (FtpPolicy f) = fp_bind f"

lemma common_props:
  "getProp (policy_json p) ''service'' = JStr (service_of p)"
  "getProp (policy_json p) ''bind'' = JStr (bind_of p)"
  by (cases p; simp add: json_simps browser_json_def)+

lemma wf_common: "wf_policy p \<Longrightarrow> trim (service_of p) \<noteq> [] \<and> loopback_origin (bind_of p)"
  by (cases p) (auto simp: wf_http_def wf_browser_fields_def wf_ssh_def wf_ftp_def)


lemma validatePolicy_reduce:
  assumes "wf_policy p"
  obtains bu where "origin_text bu = bind_of p"
    "validatePolicy (policy_json p) =
      (case policyUpstream (policy_json p) (version_of p) of Inl e \<Rightarrow> Inl e | Inr upstream \<Rightarrow>
       if version_of p = 5 then validateBrowserFormLoginPolicy (policy_json p) (service_of p) bu
       else if version_of p = 7 then validateSshSessionPolicy (policy_json p) (service_of p) bu
       else if version_of p = 8 then validateFtpSessionPolicy (policy_json p) (service_of p) bu
       else
      (case httpMethod (getProp (policy_json p) ''method'') BadMethod of Inl e \<Rightarrow> Inl e | Inr meth \<Rightarrow>
      (case httpPath (getProp (policy_json p) ''path'') of Inl e \<Rightarrow> Inl e | Inr path \<Rightarrow>
         (case upstream of
             None \<Rightarrow> validateOneCliPolicy (policy_json p)
               \<lparr>hf_service = service_of p, hf_bind = bind_of p, hf_method = meth, hf_path = path\<rparr>
           | Some u \<Rightarrow> validateHttpInjectionPolicy (policy_json p) (version_of p)
               \<lparr>hf_service = service_of p, hf_bind = bind_of p, hf_method = meth, hf_path = path\<rparr>
               (origin_text u)))))"
proof -
  from wf_common [OF assms] obtain bu where bu: "\<forall>n. parseLoopbackHttpUrl (JStr (bind_of p)) n = Inr bu"
      "origin_text bu = bind_of p" and service: "trim (service_of p) \<noteq> []"
    using loopback_again by blast
  show thesis
    by (rule that [OF bu(2)]) (simp only: validatePolicy_def Let_def shape_checks common_props
        accepted_parts(3) [OF service] bu not_True_eq_False if_False sum.case option.case)
qed

lemma buildBrowser_again:
  assumes "wf_browser_fields b" "origin_text lo = login_origin b" "origin_text bu = bp_bind b"
  shows "buildBrowserFormLoginPolicy (browser_json b) (bp_service b) bu lo = Inr b"
proof -
  note wf = assms(1) [unfolded wf_browser_fields_def]
  have get: "getProp (browser_json b) k = (case map_of
      [(''login_path'', JStr (login_path b)), (''form_action'', JStr (form_action b)),
       (''success_path'', JStr (success_path b)), (''replay_path'', JStr (replay_path b)),
       (''replay_method'', JStr (replay_method b)), (''username_field'', JStr (username_field b)),
       (''password_field'', JStr (password_field b)), (''hidden_fields'', strings (hidden_fields b)),
       (''allowed_paths'', strings (bp_allowed_paths b)), (''max_redirect_hops'', JNum (max_redirect_hops b)),
       (''session_ttl_ms'', JNum (bp_session_ttl_ms b)), (''idle_ttl_ms'', JNum (bp_idle_ttl_ms b)),
       (''username_value'', JStr USERNAME_PLACEHOLDER), (''password_value'', JStr PASSWORD_PLACEHOLDER)] k
      of Some v \<Rightarrow> v | None \<Rightarrow> getProp (browser_json b) k)" for k
    by (auto simp: browser_json_def json_simps)
  have parts: "requireOriginPath (JStr (login_path b)) ''policy.login_path'' = Inr (login_path b)"
    "requireOriginPath (JStr (form_action b)) ''policy.form_action'' = Inr (form_action b)"
    "requireOriginPath (JStr (success_path b)) ''policy.success_path'' = Inr (success_path b)"
    "requireOriginPath (JStr (replay_path b)) ''policy.replay_path'' = Inr (replay_path b)"
    "httpMethod (JStr (replay_method b)) (FormError BadReplayMethod) = Inr (replay_method b)"
    "fieldName (JStr (username_field b)) (FormError BadUsernameField) = Inr (username_field b)"
    "fieldName (JStr (password_field b)) (FormError BadPasswordField) = Inr (password_field b)"
    "hiddenFields (strings (hidden_fields b)) (username_field b) (password_field b) = Inr (hidden_fields b)"
    "allowedPaths (strings (bp_allowed_paths b)) MAX_ALLOWED_PATHS = Inr (bp_allowed_paths b)"
    "redirectHops (JNum (max_redirect_hops b)) = Inr (max_redirect_hops b)"
    using wf by (auto simp: guard_simps wf_paths_def wf_names_def MAX_ALLOWED_PATHS_def)
  have rest: "validateSessionTtls (browser_json b) = Inr (bp_session_ttl_ms b, bp_idle_ttl_ms b)"
    "validateUserPassPlaceholders (browser_json b) = None"
    using wf by (simp_all add: accepted_ttls accepted_placeholders browser_json_def json_simps)
  have in_paths: "success_path b \<in> set (bp_allowed_paths b)" "replay_path b \<in> set (bp_allowed_paths b)"
    "username_field b \<noteq> password_field b" using wf by blast+
  show ?thesis
    unfolding buildBrowserFormLoginPolicy_def rest
    by (subst get, simp add: parts in_paths assms(2,3))+
qed

lemma ssh_again:
  assumes "wf_ssh s" "origin_text bu = sp_bind s"
  shows "validateSshSessionPolicy (policy_json (SshPolicy s)) (sp_service s) bu = Inr (SshPolicy s)"
  using assms
  by (simp add: validateSshSessionPolicy_def json_simps accepted_parts accepted_ttls wf_ssh_def strings_def
      MAX_SSH_COMMANDS_def accepted_placeholders collect_mapped_commands Suc_le_eq)

lemma ftp_again:
  assumes "wf_ftp f" "origin_text bu = fp_bind f"
  shows "validateFtpSessionPolicy (policy_json (FtpPolicy f)) (fp_service f) bu = Inr (FtpPolicy f)"
proof -
  have ops: "getProp (policy_json (FtpPolicy f)) ''allowed_ops'' = JArr (map JStr (allowed_ops f))"
    by (simp add: strings_def)
  show ?thesis
    using assms collect_mapped_ops [of "allowed_ops f"]
    by (simp add: validateFtpSessionPolicy_def ops json_simps accepted_parts accepted_ttls wf_ftp_def
        MAX_FTP_PATHS_def FTP_OPS_def accepted_placeholders Suc_le_eq strings_def [of "allowed_ops f"])
qed

lemma validatePolicy_json:
  assumes "wf_policy p"
  shows "validatePolicy (policy_json p) = Inr p"
proof -
  obtain bu where bu: "origin_text bu = bind_of p" and red: "validatePolicy (policy_json p) =
      (case policyUpstream (policy_json p) (version_of p) of Inl e \<Rightarrow> Inl e | Inr upstream \<Rightarrow>
       if version_of p = 5 then validateBrowserFormLoginPolicy (policy_json p) (service_of p) bu
       else if version_of p = 7 then validateSshSessionPolicy (policy_json p) (service_of p) bu
       else if version_of p = 8 then validateFtpSessionPolicy (policy_json p) (service_of p) bu
       else
      (case httpMethod (getProp (policy_json p) ''method'') BadMethod of Inl e \<Rightarrow> Inl e | Inr meth \<Rightarrow>
      (case httpPath (getProp (policy_json p) ''path'') of Inl e \<Rightarrow> Inl e | Inr path \<Rightarrow>
         (case upstream of
             None \<Rightarrow> validateOneCliPolicy (policy_json p)
               \<lparr>hf_service = service_of p, hf_bind = bind_of p, hf_method = meth, hf_path = path\<rparr>
           | Some u \<Rightarrow> validateHttpInjectionPolicy (policy_json p) (version_of p)
               \<lparr>hf_service = service_of p, hf_bind = bind_of p, hf_method = meth, hf_path = path\<rparr>
               (origin_text u)))))"
    using assms by (rule validatePolicy_reduce)
  have up: "\<exists>u. policyUpstream (policy_json p) (version_of p) = Inr (Some u) \<and> origin_text u = t"
    if "upstream_of p = Some t" "loopback_origin t" for t
    using that loopback_again [OF that(2)]
    by (cases p) (auto simp: policyUpstream_def json_simps)
  show ?thesis
  proof (cases p)
    case (BrowserFormLoginPolicy b)
    with assms obtain lo where "\<forall>n. parseLoopbackHttpUrl (JStr (login_origin b)) n = Inr lo" "origin_text lo = login_origin b"
      using loopback_again by auto
    moreover have "getProp (browser_json b) ''login_origin'' = JStr (login_origin b)"
      by (simp add: browser_json_def)
    ultimately show ?thesis using BrowserFormLoginPolicy assms bu unfolding red
      by (simp add: policyUpstream_def validateBrowserFormLoginPolicy_def buildBrowser_again)
  next
    case (SshPolicy s)
    with assms bu ssh_again [of s bu] show ?thesis unfolding red by (simp add: policyUpstream_def)
  next
    case (FtpPolicy f)
    with assms bu ftp_again [of f bu] show ?thesis unfolding red by (simp add: policyUpstream_def)
  next
    case (OneCliProxyPolicy c g host)
    with assms show ?thesis unfolding red
      by (auto simp: policyUpstream_def json_simps accepted_parts validateOneCliPolicy_def
          validateCredentialPlaceholder_def targetHost_def startsWith_def)
  next
    case (BearerPolicy c t)
    then obtain u where u: "policyUpstream (policy_json p) (version_of p) = Inr (Some u)" "origin_text u = t"
      using up [of t] assms by auto
    show ?thesis unfolding red u(1)
      using BearerPolicy assms u(2)
      by (simp add: json_simps accepted_parts validateHttpInjectionPolicy_def requireString_def
          validateCredentialPlaceholder_def validateApiKeyHeaderName_Inr validateQueryParamName_Inr
          accepted_placeholders accepted_names)
  next
    case (ApiKeyHeaderPolicy c t h)
    then obtain u where u: "policyUpstream (policy_json p) (version_of p) = Inr (Some u)" "origin_text u = t"
      using up [of t] assms by auto
    show ?thesis unfolding red u(1)
      using ApiKeyHeaderPolicy assms u(2)
      by (simp add: json_simps accepted_parts validateHttpInjectionPolicy_def requireString_def
          validateCredentialPlaceholder_def validateApiKeyHeaderName_Inr validateQueryParamName_Inr
          accepted_placeholders accepted_names)
  next
    case (ApiKeyQueryPolicy c t q)
    then obtain u where u: "policyUpstream (policy_json p) (version_of p) = Inr (Some u)" "origin_text u = t"
      using up [of t] assms by auto
    show ?thesis unfolding red u(1)
      using ApiKeyQueryPolicy assms u(2)
      by (simp add: json_simps accepted_parts validateHttpInjectionPolicy_def requireString_def
          validateCredentialPlaceholder_def validateApiKeyHeaderName_Inr validateQueryParamName_Inr
          accepted_placeholders accepted_names)
  next
    case (BasicPolicy c t)
    then obtain u where u: "policyUpstream (policy_json p) (version_of p) = Inr (Some u)" "origin_text u = t"
      using up [of t] assms by auto
    show ?thesis unfolding red u(1)
      using BasicPolicy assms u(2)
      by (simp add: json_simps accepted_parts validateHttpInjectionPolicy_def requireString_def
          validateCredentialPlaceholder_def validateApiKeyHeaderName_Inr validateQueryParamName_Inr
          accepted_placeholders accepted_names)
  qed
qed

subsection \<open>Rewriting a policy\<close>

lemma policy_json_data: "wf_policy p \<Longrightarrow> json_data (policy_json p)"
  by (cases p) (auto simp: json_simps browser_json_def strings_def js_order_named is_digit_def code_def
     wf_browser_fields_def wf_ssh_def wf_ftp_def ttls_ok_def)

fun set_upstream :: "policy \<Rightarrow> string \<Rightarrow> policy" where
  "set_upstream (BearerPolicy c _) up = BearerPolicy c up"
| "set_upstream (ApiKeyHeaderPolicy c _ h) up = ApiKeyHeaderPolicy c up h"
| "set_upstream (ApiKeyQueryPolicy c _ q) up = ApiKeyQueryPolicy c up q"
| "set_upstream (BasicPolicy c _) up = BasicPolicy c up"
| "set_upstream p up = p"

fun set_bind :: "policy \<Rightarrow> string \<Rightarrow> policy" where
  "set_bind (BearerPolicy c up) b = BearerPolicy (c\<lparr>hf_bind := b\<rparr>) up"
| "set_bind (ApiKeyHeaderPolicy c up h) b = ApiKeyHeaderPolicy (c\<lparr>hf_bind := b\<rparr>) up h"
| "set_bind (ApiKeyQueryPolicy c up q) b = ApiKeyQueryPolicy (c\<lparr>hf_bind := b\<rparr>) up q"
| "set_bind (BasicPolicy c up) b = BasicPolicy (c\<lparr>hf_bind := b\<rparr>) up"
| "set_bind (OneCliProxyPolicy c g h) b = OneCliProxyPolicy (c\<lparr>hf_bind := b\<rparr>) g h"
| "set_bind (BrowserFormLoginPolicy p) b = BrowserFormLoginPolicy (p\<lparr>bp_bind := b\<rparr>)"
| "set_bind (SshPolicy p) b = SshPolicy (p\<lparr>sp_bind := b\<rparr>)"
| "set_bind (FtpPolicy p) b = FtpPolicy (p\<lparr>fp_bind := b\<rparr>)"

lemma withProp_upstream:
  "upstream_of p = Some t \<Longrightarrow> withProp (policy_json p) ''upstream'' (JStr up) = policy_json (set_upstream p up)"
  by (cases p) (simp_all add: json_simps)

lemma withProp_bind:
  "withProp (policy_json p) ''bind'' (JStr b) = policy_json (set_bind p b)"
  by (cases p) (simp_all add: json_simps browser_json_def)

lemma set_upstream_wf: "wf_policy p \<Longrightarrow> loopback_origin up \<Longrightarrow> wf_policy (set_upstream p up)"
  by (cases p) auto

lemma set_bind_wf: "wf_policy p \<Longrightarrow> loopback_origin b \<Longrightarrow> wf_policy (set_bind p b)"
  by (cases p) (auto simp: wf_http_def wf_browser_fields_def wf_ssh_def wf_ftp_def)

definition secret_fields :: "int \<Rightarrow> (string \<times> string) list" where
  "secret_fields v =
     (if v = 1 then [(''authorization'', CREDENTIAL_PLACEHOLDER)]
      else if v = 2 then [(''header_value'', CREDENTIAL_PLACEHOLDER)]
      else if v = 4 then [(''agent_token'', CREDENTIAL_PLACEHOLDER)]
      else if v = 6 then [(''query_value'', CREDENTIAL_PLACEHOLDER)]
      else [(''username_value'', USERNAME_PLACEHOLDER), (''password_value'', PASSWORD_PLACEHOLDER)])"

text \<open>The fields of a version that would hold a credential hold its placeholder.\<close>

lemma validatePolicy_secrets:
  assumes "validatePolicy raw = Inr p" "(k, t) \<in> set (secret_fields (version_of p))"
  shows "getProp raw k = JStr t"
proof -
  from assms(1) obtain v service bu up where v: "policyVersion raw = Inr v"
    and up: "policyUpstream raw v = Inr up"
    and body: "(v = 5 \<and> validateBrowserFormLoginPolicy raw service bu = Inr p) \<or>
      (v = 7 \<and> validateSshSessionPolicy raw service bu = Inr p) \<or>
      (v = 8 \<and> validateFtpSessionPolicy raw service bu = Inr p) \<or>
      (v \<notin> {5, 7, 8} \<and> (\<exists>meth path.
         meth \<in> HTTP_METHODS \<and> httpPath (getProp raw ''path'') = Inr path \<and>
         (case up of None \<Rightarrow> validateOneCliPolicy raw
              \<lparr>hf_service = service, hf_bind = origin_text bu, hf_method = meth, hf_path = path\<rparr>
          | Some u \<Rightarrow> validateHttpInjectionPolicy raw v
              \<lparr>hf_service = service, hf_bind = origin_text bu, hf_method = meth, hf_path = path\<rparr>
              (origin_text u)) = Inr p))"
    by (rule validatePolicy_stages)
  have vp: "version_of p = v" using validatePolicy_Inr(2) [OF assms(1)] v by (simp add: policyVersion_Inr)
  have range: "1 \<le> v" "v \<le> 8" using v by (simp_all add: policyVersion_Inr)
  from body show ?thesis
  proof (elim disjE conjE exE)
    assume "v = 5" "validateBrowserFormLoginPolicy raw service bu = Inr p"
    then show ?thesis using assms(2) vp
      by (auto simp: validateBrowserFormLoginPolicy_def buildBrowserFormLoginPolicy_def guard_simps secret_fields_def)
  next
    assume "v = 7" "validateSshSessionPolicy raw service bu = Inr p"
    then show ?thesis using assms(2) vp
      by (auto simp: validateSshSessionPolicy_def guard_simps secret_fields_def)
  next
    assume "v = 8" "validateFtpSessionPolicy raw service bu = Inr p"
    then show ?thesis using assms(2) vp
      by (auto simp: validateFtpSessionPolicy_def guard_simps secret_fields_def)
  next
    fix meth path
    assume n: "v \<notin> {5, 7, 8}" and c: "(case up of None \<Rightarrow> validateOneCliPolicy raw
              \<lparr>hf_service = service, hf_bind = origin_text bu, hf_method = meth, hf_path = path\<rparr>
          | Some u \<Rightarrow> validateHttpInjectionPolicy raw v
              \<lparr>hf_service = service, hf_bind = origin_text bu, hf_method = meth, hf_path = path\<rparr>
              (origin_text u)) = Inr p"
    show ?thesis
    proof (cases up)
      case None
      then have "v = 4" using up n by (auto simp: policyUpstream_def guard_simps split: if_splits)
      with c None assms(2) vp show ?thesis
        by (auto simp: validateOneCliPolicy_def guard_simps secret_fields_def)
    next
      case (Some u)
      have "v \<in> {1, 2, 3, 6}" using up n range Some by (auto simp: policyUpstream_def split: if_splits)
      with c Some assms(2) vp show ?thesis
        by (auto simp: validateHttpInjectionPolicy_def guard_simps secret_fields_def)
    qed
  qed
qed

subsection \<open>Properties\<close>

definition sample_policy :: jsval where
  "sample_policy = JObj
     [(''version'', JNum 2), (''service'', JStr ''api''), (''credential_class'', JStr ''http_api_key_header''),
      (''bind'', JStr ''http://127.0.0.1:0''), (''upstream'', JStr ''http://localhost:8080/''),
      (''method'', JStr ''GET''), (''path'', JStr ''/v1/resource''),
      (''header_name'', JStr ''x-api-key''), (''header_value'', JStr ''{{credential}}'')]"

definition sample_accepted :: policy where
  "sample_accepted = ApiKeyHeaderPolicy
     \<lparr>hf_service = ''api'', hf_bind = ''http://127.0.0.1:0'', hf_method = ''GET'', hf_path = ''/v1/resource''\<rparr>
     ''http://localhost:8080'' ''x-api-key''"

lemma sample_policy_accepted: "validatePolicy sample_policy = Inr sample_accepted"
  by code_simp

text \<open>C6: every policy the validator accepts is well formed for its version: loopback bind,
  upstream, gateway and session targets, a listed method, an origin-relative path, bounded
  duplicate-free name and path lists, session times in range; its version and class are those
  the raw object names, and the raw object has no field outside the version's table.\<close>

theorem accepted_policy_sound:
  assumes "validatePolicy raw = Inr p"
  shows "wf_policy p \<and> getProp raw ''version'' = JNum (version_of p) \<and>
    (\<exists>c. getProp raw ''credential_class'' = JStr c \<and> CREDENTIAL_CLASS_BY_VERSION (version_of p) = Some c) \<and>
    set (own_keys raw) \<subseteq> set (policy_fields (version_of p))"
  using validatePolicy_Inr [OF assms] by blast

theorem accepted_policy_sound_witness:
  "wf_policy sample_accepted \<and> getProp sample_policy ''version'' = JNum 2"
  using accepted_policy_sound [OF sample_policy_accepted] by (simp add: sample_accepted_def)

text \<open>C7: an accepted policy never carries a literal credential: every field that stands for
  one holds exactly its placeholder.\<close>

theorem accepted_policy_has_no_secret:
  assumes "validatePolicy raw = Inr p" "(field, placeholder) \<in> set (secret_fields (version_of p))"
  shows "getProp raw field = JStr placeholder"
  using assms by (rule validatePolicy_secrets)

theorem accepted_policy_has_no_secret_witness:
  "getProp sample_policy ''header_value'' = JStr CREDENTIAL_PLACEHOLDER"
  by (rule accepted_policy_has_no_secret [OF sample_policy_accepted])
     (simp add: sample_accepted_def secret_fields_def)

text \<open>C12: an accepted policy, written out as JSON and loaded again, is accepted with the same
  result: validation is idempotent through its own file format.\<close>

theorem policy_file_round_trip:
  assumes "validatePolicy raw = Inr p"
  shows "loadPolicy (Some (stringify (policy_json p))) = Inr p"
proof -
  note wf = validatePolicy_Inr(1) [OF assms]
  show ?thesis
    by (simp add: loadPolicy_def json_parse_stringify [OF policy_json_data [OF wf]] validatePolicy_json [OF wf])
qed

theorem policy_file_round_trip_witness:
  "loadPolicy (Some (stringify (policy_json sample_accepted))) = Inr sample_accepted"
  by (rule policy_file_round_trip [OF sample_policy_accepted])

text \<open>C25: \<open>withUpstream\<close> and \<open>withBind\<close> on a validated policy replace exactly the named
  origin, by the normalized one, and change nothing else.\<close>

theorem rewriting_replaces_one_origin:
  assumes "validatePolicy raw = Inr p" "upstream_of p = Some old" "parseLoopbackHttpUrl v n = Inr u"
  shows "withUpstream p v = Inr (set_upstream p (origin_text u)) \<and>
         withBind p v = Inr (set_bind p (origin_text u))"
proof -
  note wf = validatePolicy_Inr(1) [OF assms(1)] and lo = parse_gives_origin [OF assms(3)]
  have again: "parseLoopbackHttpUrl v m = Inr u" for m
    using assms(3) unfolding parseLoopbackHttpUrl_def guard_Inr present_Inr .
  show ?thesis
    using validatePolicy_json [OF set_upstream_wf [OF wf lo]] validatePolicy_json [OF set_bind_wf [OF wf lo]]
    by (simp add: withUpstream_def withBind_def again withProp_upstream [OF assms(2)] withProp_bind)
qed

theorem rewriting_replaces_one_origin_witness:
  "withUpstream sample_accepted (JStr ''http://127.0.0.1:9/'') =
     Inr (set_upstream sample_accepted ''http://127.0.0.1:9'')"
proof -
  have u: "parseLoopbackHttpUrl (JStr ''http://127.0.0.1:9/'') [] = Inr (loopback_url ''127.0.0.1'' 9 None None)"
    and o: "origin_text (loopback_url ''127.0.0.1'' 9 None None) = ''http://127.0.0.1:9''"
    and t: "upstream_of sample_accepted = Some ''http://localhost:8080''"
    by code_simp+
  show ?thesis using rewriting_replaces_one_origin [OF sample_policy_accepted t u] by (simp only: o)
qed

text \<open>C13: a live browser policy is accepted only with a branded gate, and then its login origin
  is an HTTPS origin on exactly the gate's host name, while every other field meets the same
  rules as in the loopback policy.\<close>

theorem live_policy_pinned:
  assumes "validateLiveBrowserFormLoginPolicy raw gate = Inr b"
  shows "\<exists>g u. gate = Branded g \<and> u_scheme u = ''https'' \<and> u_host u = pinned_hostname g \<and>
    u_username u = [] \<and> u_password u = [] \<and> login_origin b = origin_text u \<and> wf_browser_fields b"
proof -
  from assms obtain g service bu u where g: "assertBrandedBrowserLiveGate gate = Inr g"
    and s: "trim service \<noteq> []" "loopback_origin (origin_text bu)"
    and u: "protocol u = ''https:''" "u_host u = pinned_hostname g" "u_username u = []" "u_password u = []"
    and b: "buildBrowserFormLoginPolicy raw service bu u = Inr b"
    unfolding validateLiveBrowserFormLoginPolicy_def guard_Inr call_Inr check_Inr present_Inr validService_Inr
      de_Morgan_disj not_not
    by (blast dest: parse_gives_origin)
  from g have "gate = Branded g" by (cases gate) auto
  moreover have "u_scheme u = ''https''" using u(1) by (simp add: protocol_def)
  ultimately show ?thesis using u buildBrowser_wf [OF b s] by blast
qed

definition sample_live_policy :: jsval where
  "sample_live_policy = JObj
     [(''version'', JNum 5), (''service'', JStr ''site''), (''credential_class'', JStr ''browser_form_login''),
      (''bind'', JStr ''http://127.0.0.1:0''), (''login_origin'', JStr ''https://login.example.test''),
      (''login_path'', JStr ''/login''), (''form_action'', JStr ''/session''),
      (''username_field'', JStr ''user''), (''password_field'', JStr ''pass''), (''hidden_fields'', JArr []),
      (''success_path'', JStr ''/home''), (''allowed_paths'', JArr [JStr ''/home'', JStr ''/data'']),
      (''replay_method'', JStr ''GET''), (''replay_path'', JStr ''/data''),
      (''username_value'', JStr ''{{username}}''), (''password_value'', JStr ''{{password}}''),
      (''max_redirect_hops'', JNum 2), (''session_ttl_ms'', JNum 60000), (''idle_ttl_ms'', JNum 30000)]"

theorem live_policy_pinned_witness:
  "\<exists>b u. u_host u = ''login.example.test'' \<and> login_origin b = origin_text u \<and> wf_browser_fields b"
proof -
  let ?r = "case buildBrowserFormLoginLiveGate (JStr ''login.example.test'') of
      Inl e \<Rightarrow> None | Inr g \<Rightarrow>
        (case validateLiveBrowserFormLoginPolicy sample_live_policy (Branded g) of
           Inl e \<Rightarrow> None | Inr b \<Rightarrow> Some (pinned_hostname g, b))"
  have "?r \<noteq> None \<and> map_option fst ?r = Some ''login.example.test''" by code_simp
  then obtain g b where "pinned_hostname g = ''login.example.test''"
      "validateLiveBrowserFormLoginPolicy sample_live_policy (Branded g) = Inr b"
    by (auto split: sum.splits)
  with live_policy_pinned [of sample_live_policy "Branded g" b] show ?thesis by auto
qed

text \<open>The port 80 of an HTTP origin is never explicit: the URL parser drops it, so the
  validator rejects an origin that spells it out with the no-explicit-port error.\<close>

theorem explicit_port_80_rejected:
  "parseLoopbackHttpUrl (JStr ''http://127.0.0.1:80'') n = Inl (UrlError n UrlNoPort)"
proof -
  have "newURL ''http://127.0.0.1:80'' = Some ((loopback_url ''127.0.0.1'' 80 None None)\<lparr>u_port := None\<rparr>)"
    "trim ''http://127.0.0.1:80'' \<noteq> []"
    by code_simp+
  then show ?thesis
    by (simp add: parseLoopbackHttpUrl_def protocol_def loopback_url_def LOOPBACK_HOSTS_def port_str_def)
qed

end
