(* ===== verification/BrokerFacts.thy ===== *)
theory BrokerFacts
  imports Broker PolicyFacts
begin

text \<open>
  What the HTTP broker guarantees: which requests reach the upstream and with which headers,
  what the caller can be answered, what is logged, and which configurations start.
\<close>

subsection \<open>Headers\<close>







subsection \<open>Bodies\<close>





subsection \<open>Response headers\<close>





subsection \<open>The handler, branch by branch\<close>

definition own_replies :: "http_response set" where
  "own_replies = {writeJson 400 (errorJson ''invalid_request_target''), writeJson 404 (errorJson ''not_found''),
     writeJson 413 (errorJson ''payload_too_large''), writeJson 502 (errorJson ''upstream_failed'')}"

text \<open>A response relayed from upstream.\<close>

definition relayed :: "broker_ctx \<Rightarrow> upstream_response \<Rightarrow> http_response \<Rightarrow> bool" where
  "relayed cx r rs \<longleftrightarrow>
     \<not> isRedirectResponse r \<and> \<not> headersContainSensitiveVariant (up_headers r) (cx_variants cx) \<and>
     (\<exists>body. readBoundedResponseBody r MAX_UPSTREAM_RESPONSE_BODY_BYTES = Inr body \<and>
        \<not> bufferContainsSensitiveVariant body (cx_variants cx) \<and>
        rs = \<lparr>rs_status = up_status r,
              rs_headers = sanitizeResponseHeaders (up_headers r) (pinned_header (cx_policy cx)) (length body),
              rs_body = body\<rparr>)"

lemma own_502 [simp]: "writeJson 502 (errorJson ''upstream_failed'') \<in> own_replies"
  by (simp add: own_replies_def)

lemma relayResponse_cases:
  fixes cx logs fs r
  defines "t \<equiv> relayResponse cx logs fs r"
  shows "t_fetches t = fs \<and> \<not> t_thrown t \<and>
     (\<exists>rs. t_response t = Some rs \<and> (rs \<in> own_replies \<or> relayed cx r rs)) \<and>
     (\<exists>es. t_logs t = logs @ es \<and> (\<forall>e \<in> set es. \<exists>l m d. e = brokerLog (cx_variants cx) l m d))"
proof -
  consider "isRedirectResponse r" | "\<not> isRedirectResponse r" "headersContainSensitiveVariant (up_headers r) (cx_variants cx)"
    | e where "\<not> isRedirectResponse r" "\<not> headersContainSensitiveVariant (up_headers r) (cx_variants cx)"
        "readBoundedResponseBody r MAX_UPSTREAM_RESPONSE_BODY_BYTES = Inl e"
    | b where "\<not> isRedirectResponse r" "\<not> headersContainSensitiveVariant (up_headers r) (cx_variants cx)"
        "readBoundedResponseBody r MAX_UPSTREAM_RESPONSE_BODY_BYTES = Inr b"
    by (cases "readBoundedResponseBody r MAX_UPSTREAM_RESPONSE_BODY_BYTES") blast+
  then show ?thesis
  proof cases
    case 1
    then show ?thesis unfolding t_def relayResponse_def Let_def reply_def by auto
  next
    case 2
    then show ?thesis unfolding t_def relayResponse_def Let_def reply_def by auto
  next
    case 3
    then show ?thesis unfolding t_def relayResponse_def Let_def reply_def by (cases e) auto
  next
    case 4
    then show ?thesis unfolding t_def relayResponse_def Let_def reply_def
      by (cases "bufferContainsSensitiveVariant b (cx_variants cx)") (auto simp: relayed_def)
  qed
qed

definition made_by_log :: "string list \<Rightarrow> log_entry list \<Rightarrow> bool" where
  "made_by_log vs es \<longleftrightarrow> (\<forall>e \<in> set es. \<exists>l m d. e = brokerLog vs l m d)"

lemma made_by_log_simps [simp]:
  "made_by_log vs []" "made_by_log vs (es @ fs) \<longleftrightarrow> made_by_log vs es \<and> made_by_log vs fs"
  "made_by_log vs [brokerLog vs l m d]"
  by (auto simp: made_by_log_def)

text \<open>What a response of the handler can be, given the fetches made.\<close>

definition answered :: "fetch_impl \<Rightarrow> broker_ctx \<Rightarrow> fetch_request list \<Rightarrow> http_response option \<Rightarrow> bool" where
  "answered fetch cx fs rs \<longleftrightarrow>
     rs = None \<or> the rs \<in> own_replies \<or>
     (\<exists>fr r. fs = [fr] \<and> fetch fr = Inr r \<and> relayed cx r (the rs))"

lemma relay_answered:
  assumes "fetch fr = Inr r" "made_by_log (cx_variants cx) logs"
  shows "answered fetch cx [fr] (t_response (relayResponse cx logs [fr] r))"
    "t_fetches (relayResponse cx logs [fr] r) = [fr]"
    "made_by_log (cx_variants cx) (t_logs (relayResponse cx logs [fr] r))"
    "t_response (relayResponse cx logs [fr] r) \<noteq> None" "\<not> t_thrown (relayResponse cx logs [fr] r)"
  using relayResponse_cases [of cx logs "[fr]" r] assms by (auto simp: answered_def made_by_log_def)

lemma own_replies_simps [simp]:
  "writeJson 400 (errorJson ''invalid_request_target'') \<in> own_replies"
  "writeJson 404 (errorJson ''not_found'') \<in> own_replies"
  "writeJson 413 (errorJson ''payload_too_large'') \<in> own_replies"
  by (simp_all add: own_replies_def)

lemma reply_simps [simp]:
  "t_logs (reply logs fs st e) = logs" "t_fetches (reply logs fs st e) = fs"
  "t_response (reply logs fs st e) = Some (writeJson st (errorJson e))" "\<not> t_thrown (reply logs fs st e)"
  by (simp_all add: reply_def)

lemma forwardRequest_cases:
  fixes fetch cx req logs meth url headers
  defines "t \<equiv> forwardRequest fetch cx req logs meth url headers"
  assumes "made_by_log (cx_variants cx) logs"
  shows "made_by_log (cx_variants cx) (t_logs t) \<and> answered fetch cx (t_fetches t) (t_response t) \<and>
     \<not> t_thrown t \<and>
     (t_response t = None \<longleftrightarrow> readRequestBody req MAX_REQUEST_BODY_BYTES = None) \<and>
     t_fetches t = (case readRequestBody req MAX_REQUEST_BODY_BYTES of
       Some (Inr body) \<Rightarrow> [\<lparr>f_url = url, f_method = meth, f_headers = headers,
          f_body = (if meth = ''GET'' \<or> meth = ''HEAD'' then None else body)\<rparr>]
     | _ \<Rightarrow> [])"
proof (cases "readRequestBody req MAX_REQUEST_BODY_BYTES")
  case None
  then show ?thesis using assms unfolding t_def forwardRequest_def by (simp add: answered_def)
next
  case (Some res)
  show ?thesis
  proof (cases res)
    case (Inl e)
    with Some assms show ?thesis unfolding t_def forwardRequest_def
      by (cases e) (simp_all add: answered_def)
  next
    case (Inr body)
    let ?fr = "\<lparr>f_url = url, f_method = meth, f_headers = headers,
          f_body = (if meth = ''GET'' \<or> meth = ''HEAD'' then None else body)\<rparr>"
    show ?thesis
    proof (cases "fetch ?fr")
      case (Inl msg)
      with Some Inr assms show ?thesis unfolding t_def forwardRequest_def Let_def
        by (simp only: option.case sum.case) (simp add: answered_def)
    next
      case (Inr r)
      have "t = relayResponse cx logs [?fr] r"
        unfolding t_def forwardRequest_def Let_def Some \<open>res = Inr body\<close> option.case sum.case Inr by (rule refl)
      with relay_answered [where fetch = fetch and fr = ?fr, OF Inr assms(2)] Some \<open>res = Inr body\<close> show ?thesis by simp
    qed
  qed
qed

text \<open>The requests the policy pins, and the fetch each of them is turned into.\<close>

definition pinned_fetch :: "broker_ctx \<Rightarrow> request \<Rightarrow> fetch_request \<Rightarrow> bool" where
  "pinned_fetch cx req fr \<longleftrightarrow>
     \<not> ambiguousTarget (rq_url req) \<and>
     (\<exists>u c body. newURL_at (rq_url req) ''http://127.0.0.1'' = Some u \<and> http_common (cx_policy cx) = Some c \<and>
        rq_method req = hf_method c \<and> pathname u = hf_path c \<and>
        readRequestBody req MAX_REQUEST_BODY_BYTES = Some (Inr body) \<and>
        f_method fr = hf_method c \<and> outboundUrl cx (hf_path c) = Inr (f_url fr) \<and>
        outboundHeaders (cx_policy cx) (cx_credential cx) (rq_headers req) = Some (f_headers fr) \<and>
        f_body fr = (if hf_method c = ''GET'' \<or> hf_method c = ''HEAD'' then None else body))"

lemma handle_cases:
  fixes fetch cx req
  defines "t \<equiv> handleBrokerRequest fetch cx req"
  shows "made_by_log (cx_variants cx) (t_logs t) \<and> answered fetch cx (t_fetches t) (t_response t) \<and>
     (t_fetches t = [] \<or> (\<exists>fr. t_fetches t = [fr])) \<and> (\<forall>fr. t_fetches t = [fr] \<longleftrightarrow> pinned_fetch cx req fr)"
proof (cases "ambiguousTarget (rq_url req)")
  case True
  then show ?thesis unfolding t_def handleBrokerRequest_def Let_def
    by (simp add: answered_def pinned_fetch_def)
next
  case unamb: False
  show ?thesis
  proof (cases "newURL_at (rq_url req) ''http://127.0.0.1''")
    case None
    with unamb show ?thesis unfolding t_def handleBrokerRequest_def Let_def
      by (simp add: answered_def pinned_fetch_def threw_def)
  next
    case u: (Some u)
    show ?thesis
    proof (cases "http_common (cx_policy cx)")
      case None
      with unamb u show ?thesis unfolding t_def handleBrokerRequest_def Let_def
        by (simp add: answered_def pinned_fetch_def)
    next
      case c: (Some c)
      show ?thesis
      proof (cases "rq_method req \<noteq> hf_method c \<or> pathname u \<noteq> hf_path c")
        case True
        with unamb u c show ?thesis unfolding t_def handleBrokerRequest_def Let_def
          by (auto simp: answered_def pinned_fetch_def)
      next
        case match: False
        show ?thesis
        proof (cases "outboundHeaders (cx_policy cx) (cx_credential cx) (rq_headers req)")
          case None
          with unamb u c match show ?thesis unfolding t_def handleBrokerRequest_def Let_def
            by (simp add: answered_def pinned_fetch_def threw_def)
        next
          case h: (Some headers)
          show ?thesis
          proof (cases "outboundUrl cx (hf_path c)")
            case (Inl msg)
            with unamb u c match h show ?thesis unfolding t_def handleBrokerRequest_def Let_def
              by (simp add: answered_def pinned_fetch_def)
          next
            case url: (Inr url)
            obtain log where t: "t = forwardRequest fetch cx req log (hf_method c) url headers"
              and log: "made_by_log (cx_variants cx) log"
              using unamb u c match h url unfolding t_def handleBrokerRequest_def Let_def
              by simp
            show ?thesis
              using forwardRequest_cases [OF log, of fetch req "hf_method c" url headers] unamb u c match h url
              unfolding t [symmetric] pinned_fetch_def
              by (auto split: option.splits sum.splits)
          qed
        qed
      qed
    qed
  qed
qed

subsection \<open>Start-up\<close>

lemma set_nonempty_set: "set (nonempty_set vs) = set vs - {[]}"
  by (auto simp: nonempty_set_def)

lemma runtimeMaterial_Inr:
  assumes "runtimeMaterial p sentinel credentials = Inr (credential, variants)"
  shows "(\<exists>cr. version_of p = 3 \<and> sentinel = JUndef \<and> validateBasicCredentials credentials = Inr cr \<and>
            credential = basicAuthorizationValue cr \<and>
            {username cr, password cr, basicAuthorizationValue cr} \<subseteq> set variants) \<or>
         (\<exists>s. version_of p \<noteq> 3 \<and> credentials = JUndef \<and> sentinel = JStr s \<and> s \<noteq> [] \<and> s \<in> set variants \<and>
            credential = (if version_of p = 1 then ''Bearer '' @ s else s))"
proof (cases "version_of p = 3")
  case True
  then obtain c up where p: "p = BasicPolicy c up" by (cases p) auto
  from assms obtain cr where cr: "sentinel = JUndef" "validateBasicCredentials credentials = Inr cr"
      "credential = basicAuthorizationValue cr" "variants = buildBasicSensitiveVariants cr"
    unfolding runtimeMaterial_def p policy.case guard_Inr call_Inr by auto
  from cr(2) have "username cr \<noteq> []" "password cr \<noteq> []"
    by (auto simp: validateBasicCredentials_Inr valid_credentials_def)
  then have "{username cr, password cr, basicAuthorizationValue cr} \<subseteq> set (buildBasicSensitiveVariants cr)"
    by (auto simp: buildBasicSensitiveVariants_def Let_def set_nonempty_set basicAuthorizationValue_def)
  with cr True show ?thesis by blast
next
  case False
  have s_in: "s \<in> set (buildSentinelSensitiveVariants s)" if "s \<noteq> []" for s
    using that by (simp add: buildSentinelSensitiveVariants_def set_nonempty_set)
  then have q_in: "s \<in> set (buildQuerySensitiveVariants q s)" if "s \<noteq> []" for s q
    using that by (simp add: buildQuerySensitiveVariants_def Let_def)
  show ?thesis using False assms s_in q_in
    by (cases p) (auto simp: runtimeMaterial_def split: if_splits option.splits)
qed

lemma startBroker_Inr:
  assumes "startBroker listen opts = Inr sb"
  obtains p c up bu credential variants where
    "checkSuppliedClass (getProp (op_policy opts) ''credential_class'') = None"
    "validatePolicy (op_policy opts) = Inr p"
    "runtimeMaterial p (op_sentinel opts) (op_credentials opts) = Inr (credential, variants)"
    "http_common p = Some c" "upstream_of p = Some up"
    "parseLoopbackHttpUrl (JStr (hf_bind c)) ''policy.bind'' = Inr bu"
    "listen (u_host bu) (read_nat (port_str bu) 0) = Inr (Some (sb_port sb))"
    "sb_ctx sb = \<lparr>cx_policy = p, cx_credential = credential, cx_variants = variants, cx_upstreamOrigin = up\<rparr>"
    "sb_host sb = u_host bu" "sb_baseUrl sb = ''http://'' @ u_host bu @ '':'' @ show_nat (sb_port sb)"
    "sb_url sb = sb_baseUrl sb @ hf_path c" "made_by_log variants (sb_logs sb)"
proof -
  from assms obtain p credential variants where
    a: "checkSuppliedClass (getProp (op_policy opts) ''credential_class'') = None"
    "validatePolicy (op_policy opts) = Inr p"
    "runtimeMaterial p (op_sentinel opts) (op_credentials opts) = Inr (credential, variants)"
    unfolding startBroker_def check_Inr call_Inr by auto
  note assms [unfolded startBroker_def a option.case sum.case prod.case]
  then obtain c up bu uu where b: "http_common p = Some c" "upstream_of p = Some up"
    "parseLoopbackHttpUrl (JStr (hf_bind c)) ''policy.bind'' = Inr bu"
    "parseLoopbackHttpUrl (JStr up) ''policy.upstream'' = Inr uu"
    and rest: "(case listen (u_host bu) (read_nat (port_str bu) 0) of
                  Inl msg \<Rightarrow> Inl (ListenError msg)
                | Inr None \<Rightarrow> Inl BindFailed
                | Inr (Some port) \<Rightarrow>
                    (let baseUrl = ''http://'' @ u_host bu @ '':'' @ show_nat port
                     in Inr
                      \<lparr>sb_ctx = \<lparr>cx_policy = p, cx_credential = credential, cx_variants = variants,
                                 cx_upstreamOrigin = origin_text uu\<rparr>,
                       sb_host = u_host bu, sb_port = port, sb_baseUrl = baseUrl,
                       sb_url = baseUrl @ hf_path c,
                       sb_logs = [brokerLog variants Info ''broker listening''
                         (Some (JObj [(''bind'', JStr baseUrl), (''method'', JStr (hf_method c)),
                                      (''path'', JStr (hf_path c))]))]\<rparr>)) = Inr sb"
    by (auto split: option.splits sum.splits)
  have "upstream_of p = Some up \<Longrightarrow> wf_policy p \<Longrightarrow> loopback_origin up" by (cases p) auto
  then have "loopback_origin up" using b(2) validatePolicy_Inr(1) [OF a(2)] by blast
  then have up: "origin_text uu = up" using loopback_again [of up] b(4) by auto
  show thesis
    by (rule that [OF a b(1-3)]) (use rest up in \<open>auto simp: Let_def split: option.splits sum.splits\<close>)
qed

subsection \<open>Properties\<close>

definition sample_ctx :: broker_ctx where
  "sample_ctx = \<lparr>cx_policy = sample_accepted, cx_credential = ''bw-fake-AAAA'',
     cx_variants = buildSentinelSensitiveVariants ''bw-fake-AAAA'',
     cx_upstreamOrigin = ''http://localhost:8080''\<rparr>"

definition sample_request :: request where
  "sample_request = \<lparr>rq_method = ''GET'', rq_url = ''/v1/resource'',
     rq_headers = [(''accept'', HText ''*/*''), (''cookie'', HText ''a=b''), (''x-api-key'', HText ''mine'')],
     rq_events = [End]\<rparr>"

definition sample_fetch :: fetch_impl where
  "sample_fetch fr = Inr \<lparr>up_opaqueredirect = False, up_status = 200,
     up_headers = [(''content-type'', ''text/plain''), (''set-cookie'', ''s=1'')],
     up_body = Some [Chunk ''ok'']\<rparr>"



text \<open>C1: the handler makes at most one outbound request, and makes it exactly when the target
  is unambiguous, resolves to the policy's path, carries the policy's method and has a complete
  body within the limit; the request is then the one the policy pins.\<close>

theorem broker_fetches_exactly_when_pinned:
  "(t_fetches (handleBrokerRequest fetch cx req) = [] \<or>
      (\<exists>fr. t_fetches (handleBrokerRequest fetch cx req) = [fr])) \<and>
   (\<forall>fr. t_fetches (handleBrokerRequest fetch cx req) = [fr] \<longleftrightarrow> pinned_fetch cx req fr)"
  using handle_cases [of cx fetch req] by blast





text \<open>C18: nothing the handler logs, in a message or anywhere in its metadata, contains a variant
  the redactor covers, whatever the caller sent, the upstream answered or the platform's error
  message said.\<close>

theorem broker_log_redacted:
  assumes "e \<in> set (t_logs (handleBrokerRequest fetch cx req))" "v \<in> set (cx_variants cx)" "broker_safe v"
  shows "\<not> contains (lg_message e) v \<and> (\<forall>m. lg_meta e = Some m \<longrightarrow> (\<forall>s \<in> texts m. \<not> contains s v))"
proof -
  from handle_cases [of cx fetch req] assms(1) obtain l m d where "e = brokerLog (cx_variants cx) l m d"
    unfolding made_by_log_def by blast
  then show ?thesis using redactText_removes [OF assms(3,2)] redact_values(1) [OF assms(3,2)]
    by (auto simp: brokerLog_def)
qed

theorem broker_log_redacted_witness:
  "\<exists>e. e \<in> set (t_logs (handleBrokerRequest sample_fetch sample_ctx
        (sample_request\<lparr>rq_method := ''bw-fake-AAAA''\<rparr>))) \<and> \<not> contains (lg_message e) ''bw-fake-AAAA''"
proof -
  let ?t = "handleBrokerRequest sample_fetch sample_ctx (sample_request\<lparr>rq_method := ''bw-fake-AAAA''\<rparr>)"
  have s: "''bw-fake-AAAA'' \<in> set (cx_variants sample_ctx)" "broker_safe ''bw-fake-AAAA''" "t_logs ?t \<noteq> []"
    by code_simp+
  then obtain e where "e \<in> set (t_logs ?t)" by (cases "t_logs ?t") auto
  with broker_log_redacted [OF this s(1,2)] show ?thesis by blast
qed

text \<open>C14: a broker starts only for a validated policy of one of the four HTTP classes, listens
  on a loopback host, forwards to the policy's upstream, and holds exactly the material its
  class needs: a credential bundle and no sentinel for Basic, a sentinel and no bundle for the
  others; the injected value is built from it and the secret is among the forms looked for.\<close>

theorem started_broker_sound:
  assumes "startBroker listen opts = Inr sb"
  shows "\<exists>p. validatePolicy (op_policy opts) = Inr p \<and> cx_policy (sb_ctx sb) = p \<and>
     version_of p \<in> {1, 2, 3, 6} \<and> upstream_of p = Some (cx_upstreamOrigin (sb_ctx sb)) \<and>
     sb_host sb \<in> LOOPBACK_HOSTS \<and>
     ((\<exists>cr. version_of p = 3 \<and> op_sentinel opts = JUndef \<and>
         validateBasicCredentials (op_credentials opts) = Inr cr \<and>
         cx_credential (sb_ctx sb) = basicAuthorizationValue cr \<and>
         {username cr, password cr, basicAuthorizationValue cr} \<subseteq> set (cx_variants (sb_ctx sb))) \<or>
      (\<exists>s. version_of p \<noteq> 3 \<and> op_credentials opts = JUndef \<and> op_sentinel opts = JStr s \<and> s \<noteq> [] \<and>
         s \<in> set (cx_variants (sb_ctx sb)) \<and>
         cx_credential (sb_ctx sb) = (if version_of p = 1 then ''Bearer '' @ s else s)))"
proof -
  from assms obtain p c up bu credential variants where a:
    "validatePolicy (op_policy opts) = Inr p"
    "runtimeMaterial p (op_sentinel opts) (op_credentials opts) = Inr (credential, variants)"
    "http_common p = Some c" "upstream_of p = Some up"
    "parseLoopbackHttpUrl (JStr (hf_bind c)) ''policy.bind'' = Inr bu"
    "sb_ctx sb = \<lparr>cx_policy = p, cx_credential = credential, cx_variants = variants, cx_upstreamOrigin = up\<rparr>"
    "sb_host sb = u_host bu"
    by (rule startBroker_Inr)
  obtain h q f g where "loopback_parts h q f g" "bu = loopback_url h q f g"
    using a(5) by (rule parseLoopbackHttpUrl_Inr)
  then have "u_host bu \<in> LOOPBACK_HOSTS" by (simp add: loopback_parts_def loopback_url_def)
  moreover have "version_of p \<in> {1, 2, 3, 6}" using a(3,4) by (cases p) auto
  ultimately show ?thesis using a(1,4,6,7) runtimeMaterial_Inr [OF a(2)] by auto
qed

definition sample_options :: broker_options where
  "sample_options = \<lparr>op_policy = sample_policy, op_sentinel = JStr ''bw-fake-AAAA'', op_credentials = JUndef\<rparr>"

theorem started_broker_sound_witness:
  "\<exists>sb. startBroker (\<lambda>h q. Inr (Some 4000)) sample_options = Inr sb \<and> sb_host sb \<in> LOOPBACK_HOSTS"
proof -
  have "\<not> fails (startBroker (\<lambda>h q. Inr (Some 4000)) sample_options)" by code_simp
  then obtain sb where "startBroker (\<lambda>h q. Inr (Some 4000)) sample_options = Inr sb"
    by (auto simp: fails_iff) (metis old.sum.exhaust)
  with started_broker_sound [OF this] show ?thesis by blast
qed


text \<open>C30: a request target of a slash and a backslash passes the check for ambiguous targets and
  then makes the URL constructor throw outside every handler of the asynchronous function: the
  request is never answered and the rejection is not caught.\<close>

theorem backslash_target_throws:
  "t_thrown (handleBrokerRequest fetch cx (req\<lparr>rq_url := [CHR ''/'', CHR 0x5C]\<rparr>)) \<and>
   t_response (handleBrokerRequest fetch cx (req\<lparr>rq_url := [CHR ''/'', CHR 0x5C]\<rparr>)) = None"
proof -
  have "newURL_at [CHR ''/'', CHR 0x5C] ''http://127.0.0.1'' = None" "\<not> ambiguousTarget [CHR ''/'', CHR 0x5C]"
    by code_simp+
  then show ?thesis by (simp add: handleBrokerRequest_def threw_def)
qed


end
