(* ===== verification/SessionProtocol.thy ===== *)
theory SessionProtocol
  imports Redaction
begin

text \<open>
  The JSON-lines client the SSH and FTP brokers speak to their targets with
  (\<open>fake-session-protocol.mjs\<close>), and what the two brokers share word for word: the forms of
  a credential they look for, the check and the redactor over them, fixed error replies and
  the bounded body reader.

  The network is an argument: given the target and the lines written, it answers with the
  socket's events in order. When they run out without settling the exchange, the timer fires.
\<close>

subsection \<open>exchangeJsonLines\<close>

datatype socket_event = SockData bytes | SockClose | SockError string

type_synonym network = "string \<Rightarrow> int \<Rightarrow> string list \<Rightarrow> socket_event list"

definition MAX_RESPONSE :: nat where "MAX_RESPONSE = 65536"

definition newline :: char where "newline = CHR 0x0A"

text \<open>The loop over the complete lines of the buffer: the rest of the buffer, the replies, and
  how the promise was settled, if it was. It runs on after \<open>finish\<close>, and stops at a line that
  is not JSON.\<close>

function drain_lines ::
  "nat \<Rightarrow> string \<Rightarrow> jsval list \<Rightarrow> (string + unit) option \<Rightarrow> string \<times> jsval list \<times> (string + unit) option" where
  "drain_lines n buffer replies settled =
     (case indexOf buffer newline of
        None \<Rightarrow> (buffer, replies, settled)
      | Some i \<Rightarrow>
          (let line = trim (take i buffer); rest = drop (Suc i) buffer
           in if line = [] then drain_lines n rest replies settled
              else (case json_parse line of
                 None \<Rightarrow> (rest, replies, if settled = None then Some (Inl ''invalid_json'') else settled)
               | Some v \<Rightarrow>
                   drain_lines n rest (replies @ [v])
                     (if settled = None \<and> length (replies @ [v]) \<ge> 1 + n then Some (Inr ()) else settled))))"
  by pat_completeness auto
termination
  by (relation "measure (\<lambda>(n, b, r, s). length b)") (auto dest!: indexOf_Some)

declare drain_lines.simps [simp del]

fun exchange_events :: "nat \<Rightarrow> string \<Rightarrow> jsval list \<Rightarrow> socket_event list \<Rightarrow> string + jsval list" where
  "exchange_events n buffer replies [] = Inl ''timeout''"
| "exchange_events n buffer replies (SockData chunk # es) =
     (if MAX_RESPONSE < length (buffer @ chunk) then Inl ''oversized''
      else case drain_lines n (buffer @ chunk) replies None of
             (b, rs, None) \<Rightarrow> exchange_events n b rs es
           | (b, rs, Some (Inl e)) \<Rightarrow> Inl e
           | (b, rs, Some (Inr _)) \<Rightarrow> Inr rs)"
| "exchange_events n buffer replies (SockClose # es) =
     (if length replies \<ge> 2 then Inr replies else Inl ''closed_early'')"
| "exchange_events n buffer replies (SockError e # es) = Inl e"

definition exchangeJsonLines :: "network \<Rightarrow> string \<Rightarrow> int \<Rightarrow> jsval list \<Rightarrow> string + jsval list" where
  "exchangeJsonLines network host port messages =
     exchange_events (length messages) [] []
       (network host port (map (\<lambda>m. stringify m @ [newline]) messages))"

lemma drain_lines_replies:
  "drain_lines n b rs st = (b', rs', st') \<Longrightarrow>
     length rs \<le> length rs' \<and> (st' = Some (Inr ()) \<longrightarrow> st = Some (Inr ()) \<or> length rs' \<ge> 1 + n)"
proof (induction n b rs st arbitrary: b' rs' st' rule: drain_lines.induct)
  case (1 n b rs st)
  show ?case
  proof (cases "indexOf b newline")
    case None
    with "1.prems" show ?thesis by (simp add: drain_lines.simps [of n b])
  next
    case (Some i)
    show ?thesis
    proof (cases "trim (take i b) = []")
      case True
      with Some "1.prems" "1.IH"(1) [OF Some refl refl True] show ?thesis
        by (simp add: drain_lines.simps [of n b])
    next
      case line: False
      show ?thesis
      proof (cases "json_parse (trim (take i b))")
        case None
        with Some line "1.prems" show ?thesis
          by (auto simp: drain_lines.simps [of n b] split: if_splits)
      next
        case v: (Some v)
        with Some line "1.prems" have "drain_lines n (drop (Suc i) b) (rs @ [v])
            (if st = None \<and> length (rs @ [v]) \<ge> 1 + n then Some (Inr ()) else st) = (b', rs', st')"
          by (simp add: drain_lines.simps [of n b])
        from "1.IH"(2) [OF Some refl refl line v this] show ?thesis by (auto split: if_splits)
      qed
    qed
  qed
qed

lemma exchange_events_replies:
  "exchange_events n b rs es = Inr out \<Longrightarrow> length out \<ge> 2 \<or> length out \<ge> 1 + n"
proof (induction n b rs es rule: exchange_events.induct)
  case (2 n b rs chunk es)
  obtain b' rs' st' where d: "drain_lines n (b @ chunk) rs None = (b', rs', st')"
    by (metis prod_cases3)
  from 2 d drain_lines_replies [OF d] show ?case
    by (auto split: if_splits option.splits sum.splits)
qed (auto split: if_splits)

subsection \<open>Credentials in text\<close>

definition buildSensitive :: "basic_credentials \<Rightarrow> string list" where
  "buildSensitive c = jsSet (concat (map (\<lambda>v. [v, encodeURIComponent v, base64 v]) [username c, password c]))"

definition containsSensitive :: "string \<Rightarrow> string list \<Rightarrow> bool" where
  "containsSensitive text sensitive = list_ex (\<lambda>v. 4 \<le> length v \<and> contains text v) sensitive"

definition split_join :: "string \<Rightarrow> string \<Rightarrow> string" where
  "split_join s v = (if 4 \<le> length v then replaceAll v ''[redacted]'' s else s)"

fun redact :: "string list \<Rightarrow> jsval \<Rightarrow> jsval"
  and redact_list :: "string list \<Rightarrow> jsval list \<Rightarrow> jsval list"
  and redact_props :: "string list \<Rightarrow> (string \<times> jsval) list \<Rightarrow> (string \<times> jsval) list" where
  "redact sensitive (JStr s) = JStr (foldl split_join s sensitive)"
| "redact sensitive (JArr vs) = JArr (redact_list sensitive vs)"
| "redact sensitive (JObj ps) = JObj (assign_all [] (redact_props sensitive ps))"
| "redact sensitive v = v"
| "redact_list sensitive [] = []"
| "redact_list sensitive (v # vs) = redact sensitive v # redact_list sensitive vs"
| "redact_props sensitive [] = []"
| "redact_props sensitive ((k, v) # ps) = (k, redact sensitive v) # redact_props sensitive ps"

text \<open>Literal replacement is the scan of a text against itself.\<close>

lemma replaceAll_step:
  "v \<noteq> [] \<Longrightarrow> prefix v (c # cs) \<Longrightarrow> replaceAll v m (c # cs) = m @ replaceAll v m (drop (length v) (c # cs))"
  "\<not> (v \<noteq> [] \<and> prefix v (c # cs)) \<Longrightarrow> replaceAll v m (c # cs) = c # replaceAll v m cs"
  by (subst replaceAll.simps, simp only: simp_thms if_True if_False)+

lemma replaceAll_scan: "replaceAll v m s = mark_scan m v s s"
proof (induction v m s rule: replaceAll.induct)
  case (2 v m c cs)
  show ?case
  proof (cases "v \<noteq> [] \<and> prefix v (c # cs)")
    case True
    then have v: "v \<noteq> []" "prefix v (c # cs)" by blast+
    show ?thesis
      unfolding replaceAll_step(1) [OF v] mark_scan_simps(2) [OF v] using "2.IH"(1) [OF True] by (rule arg_cong)
  next
    case False
    show ?thesis
      unfolding replaceAll_step(2) [OF False] mark_scan_simps(3) [OF False] using "2.IH"(2) [OF False] by (rule arg_cong)
  qed
qed (simp add: mark_scan_simps)

definition session_safe :: "string \<Rightarrow> bool" where
  "session_safe v \<longleftrightarrow> 4 \<le> length v \<and> marker_safe ''redacted'' v"

lemma session_marker: "''[redacted]'' = bracketed ''redacted''"
  by (simp add: bracketed_def)

interpretation session_redactor: text_redactor split_join session_safe
proof unfold_locales
  fix v t
  assume s: "session_safe v"
  then have "\<not> contains (mark_scan (bracketed ''redacted'') v t t) v"
    by (intro mark_scan_removes) (auto simp: session_safe_def)
  with s show "\<not> contains (split_join t v) v"
    by (simp add: split_join_def session_safe_def replaceAll_scan session_marker)
next
  fix v t n
  assume s: "session_safe v" "\<not> contains t v"
  then have "\<not> contains (mark_scan (bracketed ''redacted'') n t t) v"
    by (intro mark_scan_preserves) (auto simp: session_safe_def)
  with s show "\<not> contains (split_join t n) v"
    by (simp add: split_join_def replaceAll_scan session_marker)
qed

subsection \<open>Replies and bodies\<close>

record session_response =
  sr_status :: int
  sr_body :: string

definition writeFixed :: "int \<Rightarrow> string \<Rightarrow> session_response" where
  "writeFixed status c = \<lparr>sr_status = status, sr_body = stringify (JObj [(''error'', JStr c)])\<rparr>"

datatype read_event = ReadData bytes | ReadEnd | ReadError

text \<open>\<open>None\<close> while the body is neither complete nor refused.\<close>

fun readBody :: "nat \<Rightarrow> bytes \<Rightarrow> read_event list \<Rightarrow> (unit + string) option" where
  "readBody maxBytes acc [] = None"
| "readBody maxBytes acc (ReadData c # es) =
     (if maxBytes < length acc + length c then Some (Inl ()) else readBody maxBytes (acc @ c) es)"
| "readBody maxBytes acc (ReadEnd # es) = Some (Inr acc)"
| "readBody maxBytes acc (ReadError # es) = Some (Inl ())"

lemma readBody_bound: "readBody m acc es = Some (Inr b) \<Longrightarrow> length acc \<le> m \<Longrightarrow> length b \<le> m"
  by (induction m acc es rule: readBody.induct) (auto split: if_splits)

end
