(* ===== verification/SessionPool.thy ===== *)
theory SessionPool
  imports Prelude
begin

text \<open>
  The counter of live sessions that every session broker keeps in a module variable. A start
  reserves a slot before its first \<open>await\<close>, so starts, failures and closes of different
  sessions interleave freely; the step relation below runs them in any order. The locale
  \<open>session_pool\<close> states what a broker's operations promise about the counter, and its
  theorems hold for every broker that interprets it.
\<close>

subsection \<open>Lifecycle\<close>

datatype slot = Pending | Open | Closed

fun slot_rank :: "slot \<Rightarrow> nat" where
  "slot_rank Pending = 0"
| "slot_rank Open = 1"
| "slot_rank Closed = 2"

instantiation slot :: linorder
begin

definition less_eq_slot :: "slot \<Rightarrow> slot \<Rightarrow> bool" where
  "less_eq_slot a b \<longleftrightarrow> slot_rank a \<le> slot_rank b"

definition less_slot :: "slot \<Rightarrow> slot \<Rightarrow> bool" where
  "less_slot a b \<longleftrightarrow> slot_rank a < slot_rank b"

instance
proof
  fix a b :: slot
  show "a \<le> b \<Longrightarrow> b \<le> a \<Longrightarrow> a = b"
    by (cases a; cases b) (simp_all add: less_eq_slot_def)
qed (auto simp: less_eq_slot_def less_slot_def)

end

subsection \<open>Interleavings\<close>

text \<open>A world: the counter, the sessions between \<open>begin\<close> and \<open>finish\<close>, and the started ones.\<close>

record 's world =
  w_active :: nat
  w_pending :: "'s list"
  w_started :: "'s list"

definition remove_nth :: "nat \<Rightarrow> 'a list \<Rightarrow> 'a list" where
  "remove_nth i xs = take i xs @ drop (Suc i) xs"

inductive pool_step ::
  "(nat \<Rightarrow> 'o \<Rightarrow> nat \<times> ('e + 's)) \<Rightarrow> (nat \<Rightarrow> 's \<Rightarrow> 'r \<Rightarrow> nat \<times> ('e + 's)) \<Rightarrow> (nat \<Rightarrow> 's \<Rightarrow> nat \<times> 's)
   \<Rightarrow> 's world \<Rightarrow> 's world \<Rightarrow> bool"
  for start_op finish_op close_op where
  Begin: "start_op (w_active w) opts = (n, Inr s) \<Longrightarrow>
     pool_step start_op finish_op close_op w (w\<lparr>w_active := n, w_pending := w_pending w @ [s]\<rparr>)"
| BeginFails: "start_op (w_active w) opts = (n, Inl e) \<Longrightarrow>
     pool_step start_op finish_op close_op w (w\<lparr>w_active := n\<rparr>)"
| Finish: "i < length (w_pending w) \<Longrightarrow> finish_op (w_active w) (w_pending w ! i) r = (n, Inr s) \<Longrightarrow>
     pool_step start_op finish_op close_op w
       (w\<lparr>w_active := n, w_pending := remove_nth i (w_pending w), w_started := w_started w @ [s]\<rparr>)"
| FinishFails: "i < length (w_pending w) \<Longrightarrow> finish_op (w_active w) (w_pending w ! i) r = (n, Inl e) \<Longrightarrow>
     pool_step start_op finish_op close_op w (w\<lparr>w_active := n, w_pending := remove_nth i (w_pending w)\<rparr>)"
| Close: "i < length (w_started w) \<Longrightarrow> close_op (w_active w) (w_started w ! i) = (n, s) \<Longrightarrow>
     pool_step start_op finish_op close_op w (w\<lparr>w_active := n, w_started := (w_started w)[i := s]\<rparr>)"

inductive_cases pool_stepE: "pool_step start_op finish_op close_op w w'"

definition empty_world :: "'s world" where
  "empty_world = \<lparr>w_active = 0, w_pending = [], w_started = []\<rparr>"

definition pool_reach ::
  "(nat \<Rightarrow> 'o \<Rightarrow> nat \<times> ('e + 's)) \<Rightarrow> (nat \<Rightarrow> 's \<Rightarrow> 'r \<Rightarrow> nat \<times> ('e + 's)) \<Rightarrow> (nat \<Rightarrow> 's \<Rightarrow> nat \<times> 's)
   \<Rightarrow> 's world \<Rightarrow> bool" where
  "pool_reach start_op finish_op close_op w \<longleftrightarrow> (pool_step start_op finish_op close_op)\<^sup>*\<^sup>* empty_world w"

lemma length_remove_nth [simp]: "i < length xs \<Longrightarrow> length (remove_nth i xs) = length xs - 1"
  by (simp add: remove_nth_def)

lemma count_update:
  "i < length xs \<Longrightarrow> P (xs ! i) \<Longrightarrow> \<not> P y \<Longrightarrow> length (filter P (xs[i := y])) = length (filter P xs) - 1"
proof (induction xs arbitrary: i)
  case (Cons x xs)
  show ?case
  proof (cases i)
    case 0
    with Cons.prems show ?thesis by simp
  next
    case (Suc j)
    with Cons have "length (filter P (xs[j := y])) = length (filter P xs) - 1" by simp
    moreover have "0 < length (filter P xs)"
      using Cons.prems Suc by (auto simp: filter_empty_conv)
    ultimately show ?thesis using Suc by simp
  qed
qed simp

lemma count_positive: "i < length xs \<Longrightarrow> P (xs ! i) \<Longrightarrow> 0 < length (filter P xs)"
  by (auto simp: filter_empty_conv)

subsection \<open>The contract\<close>

locale session_pool =
  fixes cap :: nat
    and start_op :: "nat \<Rightarrow> 'o \<Rightarrow> nat \<times> ('e + 's)"
    and finish_op :: "nat \<Rightarrow> 's \<Rightarrow> 'r \<Rightarrow> nat \<times> ('e + 's)"
    and close_op :: "nat \<Rightarrow> 's \<Rightarrow> nat \<times> 's"
    and started :: "'s \<Rightarrow> bool"
    and closed :: "'s \<Rightarrow> bool"
  assumes start_ok: "start_op n opts = (m, Inr s) \<Longrightarrow> n < cap \<and> m = Suc n \<and> \<not> closed s"
    and start_err: "start_op n opts = (m, Inl e) \<Longrightarrow> m = n"
    and finish_ok: "\<not> closed s \<Longrightarrow> finish_op n s r = (m, Inr s') \<Longrightarrow> m = n \<and> \<not> closed s' \<and> started s'"
    and finish_err: "\<not> closed s \<Longrightarrow> finish_op n s r = (m, Inl e) \<Longrightarrow> m = n - 1"
    and close_open: "started s \<Longrightarrow> \<not> closed s \<Longrightarrow> close_op n s = (m, s') \<Longrightarrow> m = n - 1 \<and> closed s' \<and> started s'"
    and close_closed: "closed s \<Longrightarrow> close_op n s = (n, s)"
begin

definition inv :: "'s world \<Rightarrow> bool" where
  "inv w \<longleftrightarrow> w_active w = length (w_pending w) + length (filter (\<lambda>s. \<not> closed s) (w_started w)) \<and>
     w_active w \<le> cap \<and> (\<forall>s \<in> set (w_pending w). \<not> closed s) \<and>
     (\<forall>s \<in> set (w_started w). started s)"

lemma inv_empty: "inv empty_world"
  by (simp add: inv_def empty_world_def)

lemma pending_kept: "\<forall>s \<in> set xs. \<not> closed s \<Longrightarrow> \<forall>s \<in> set (remove_nth i xs). \<not> closed s"
  by (auto simp: remove_nth_def dest: in_set_takeD in_set_dropD)

lemma inv_step:
  assumes "pool_step start_op finish_op close_op w w'" "inv w"
  shows "inv w'"
  using assms
proof (induction rule: pool_step.induct)
  case (Begin w opts n s)
  with start_ok [OF Begin(1)] show ?case by (auto simp: inv_def)
next
  case (BeginFails w opts n e)
  with start_err [OF BeginFails(1)] show ?case by (auto simp: inv_def)
next
  case (Finish i w r n s)
  then have "\<not> closed (w_pending w ! i)" by (simp add: inv_def)
  note f = finish_ok [OF this Finish(2)]
  with Finish pending_kept [of "w_pending w" i] show ?case by (auto simp: inv_def)
next
  case (FinishFails i w r n e)
  then have "\<not> closed (w_pending w ! i)" by (simp add: inv_def)
  note f = finish_err [OF this FinishFails(2)]
  with FinishFails pending_kept [of "w_pending w" i] show ?case by (auto simp: inv_def)
next
  case (Close i w n s)
  have st: "started (w_started w ! i)" using Close(1,3) by (simp add: inv_def)
  show ?case
  proof (cases "closed (w_started w ! i)")
    case True
    with Close close_closed [OF True, of "w_active w"] show ?thesis by (auto simp: inv_def)
  next
    case False
    note c = close_open [OF st False Close(2)]
    have "length (filter (\<lambda>s. \<not> closed s) ((w_started w)[i := s])) = length (filter (\<lambda>s. \<not> closed s) (w_started w)) - 1"
      using count_update [of i "w_started w" "\<lambda>s. \<not> closed s" s] Close(1) False c by simp
    moreover obtain k where "length (filter (\<lambda>s. \<not> closed s) (w_started w)) = Suc k"
      using count_positive [of i "w_started w" "\<lambda>s. \<not> closed s"] Close(1) False gr0_implies_Suc by blast
    moreover have "\<forall>t \<in> set ((w_started w)[i := s]). started t"
      using c Close(3) set_update_subset_insert [of "w_started w" i s] by (auto simp: inv_def)
    ultimately show ?thesis using c Close(3) by (simp add: inv_def)
  qed
qed

theorem inv_reachable: "pool_reach start_op finish_op close_op w \<Longrightarrow> inv w"
  unfolding pool_reach_def
  by (induction rule: rtranclp_induct) (auto intro: inv_empty inv_step)

lemma counter_exact:
  assumes "pool_reach start_op finish_op close_op w"
  shows "w_active w = length (w_pending w) + length (filter (\<lambda>s. \<not> closed s) (w_started w)) \<and> w_active w \<le> cap"
  using inv_reachable [OF assms] by (simp add: inv_def)

end

end
