(* ===== verification/SessionCore.thy ===== *)
theory SessionCore
  imports SessionProtocol Policy SessionPool
begin

text \<open>
  The session state the SSH and FTP brokers keep in closures, and the parts of their request
  handlers that are the same in both files: expiry, the status reply, closing, and the two
  phases of a start around its \<open>await\<close>s.
\<close>

record session_log =
  sl_level :: string
  sl_message :: string
  sl_meta :: "jsval option"

record 'p session =
  ss_policy :: 'p
  ss_credentials :: basic_credentials
  ss_sensitive :: "string list"
  ss_id :: string
  ss_created :: int
  ss_lastUsed :: int
  ss_closed :: bool
  ss_baseUrl :: string
  ss_logs :: "session_log list"

record session_options =
  so_policy :: jsval
  so_credentials :: jsval
  so_now :: int
  so_random :: bytes

record session_env =
  se_network :: network
  se_listen :: "string \<Rightarrow> nat \<Rightarrow> unit + nat option"

record session_request =
  q_method :: string
  q_url :: string
  q_events :: "read_event list"
  q_now :: int

text \<open>A request is answered at once, or waits for the exchange of its operation; \<open>Waiting\<close> is a
  body that never completes, \<open>Throws\<close> the URL constructor's exception.\<close>

datatype 'c handled = Reply session_response | Await 'c | Waiting | Throws

definition hex_string :: "bytes \<Rightarrow> string" where
  "hex_string bs = concat (map (\<lambda>c. [lower_hex (code c div 16), lower_hex (code c mod 16)]) bs)"

definition sessionLog :: "string list \<Rightarrow> string \<Rightarrow> string \<Rightarrow> jsval option \<Rightarrow> session_log" where
  "sessionLog sensitive level message meta =
     \<lparr>sl_level = level, sl_message = foldl split_join message sensitive,
      sl_meta = map_option (redact sensitive) meta\<rparr>"

definition authMessage :: "basic_credentials \<Rightarrow> jsval" where
  "authMessage c = JObj [(''op'', JStr ''auth''), (''username'', JStr (username c)), (''password'', JStr (password c))]"

definition quitMessage :: jsval where
  "quitMessage = JObj [(''op'', JStr ''quit'')]"

text \<open>\<open>replies[i]\<close>\<close>

definition replyAt :: "jsval list \<Rightarrow> nat \<Rightarrow> jsval" where
  "replyAt replies i = (if i < length replies then replies ! i else JUndef)"

definition authenticated :: "string + jsval list \<Rightarrow> bool" where
  "authenticated r = (case r of Inl _ \<Rightarrow> False
     | Inr replies \<Rightarrow> getProp (replyAt replies 1) ''ok'' = JBool True
         \<and> getProp (replyAt replies 1) ''code'' = JStr ''authenticated'')"

definition beginSession :: "'p \<Rightarrow> basic_credentials \<Rightarrow> session_options \<Rightarrow> 'p session" where
  "beginSession p c opts =
     \<lparr>ss_policy = p, ss_credentials = c, ss_sensitive = buildSensitive c, ss_id = hex_string (so_random opts),
      ss_created = so_now opts, ss_lastUsed = so_now opts, ss_closed = False, ss_baseUrl = [], ss_logs = []\<rparr>"

text \<open>From the authentication exchange to the returned handle.\<close>

definition finishSession ::
  "string \<Rightarrow> string \<Rightarrow> string \<Rightarrow> int \<Rightarrow> nat \<Rightarrow> 'p session \<Rightarrow> session_env \<Rightarrow> nat \<times> (string + 'p session)" where
  "finishSession message bindText host port active s env =
     (if \<not> authenticated (exchangeJsonLines (se_network env) host port [authMessage (ss_credentials s)])
      then (active - 1, Inl ''auth_failed'')
      else case newURL bindText of
        None \<Rightarrow> (active - 1, Inl ''bind_failed'')
      | Some u \<Rightarrow>
          (case se_listen env (u_host u) (read_nat (port_str u) 0) of
             Inl _ \<Rightarrow> (active - 1, Inl ''bind_failed'')
           | Inr None \<Rightarrow> (active - 1, Inl ''bind_failed'')
           | Inr (Some p) \<Rightarrow>
               (let baseUrl = ''http://'' @ u_host u @ '':'' @ show_nat p
                in (active, Inr (s\<lparr>ss_baseUrl := baseUrl,
                      ss_logs := [sessionLog (ss_sensitive s) ''info'' message
                                    (Some (JObj [(''bind'', JStr baseUrl)]))]\<rparr>)))))"

definition closeSession :: "nat \<Rightarrow> 'p session \<Rightarrow> nat \<times> 'p session" where
  "closeSession active s =
     (if ss_closed s then (active, s) else (active - 1, s\<lparr>ss_closed := True, ss_sensitive := []\<rparr>))"

definition sessionExpired :: "int \<Rightarrow> int \<Rightarrow> 'p session \<Rightarrow> int \<Rightarrow> bool" where
  "sessionExpired ttl idle s now \<longleftrightarrow> ttl < now - ss_created s \<or> idle < now - ss_lastUsed s"

text \<open>A success body, unless it contains a form of the credential.\<close>

definition checkedReply :: "string list \<Rightarrow> jsval \<Rightarrow> session_response" where
  "checkedReply sensitive v =
     (if containsSensitive (stringify v) sensitive then writeFixed 502 ''sensitive_response_blocked''
      else \<lparr>sr_status = 200, sr_body = stringify v\<rparr>)"

definition statusBody :: "string \<Rightarrow> 'p session \<Rightarrow> jsval" where
  "statusBody cls s = JObj [(''ok'', JBool True), (''logged_in'', JBool True),
     (''session_id'', JStr (ss_id s)), (''credential_class'', JStr cls)]"

text \<open>The guards before the routes: closed, expired, and the request URL.\<close>

definition admitRequest :: "int \<Rightarrow> int \<Rightarrow> 'p session \<Rightarrow> session_request \<Rightarrow> 'p session \<times> 'c handled + ('p session \<times> url)" where
  "admitRequest ttl idle s q =
     (if ss_closed s then Inl (s, Reply (writeFixed 503 ''session_closed''))
      else if sessionExpired ttl idle s (q_now q) then Inl (s, Reply (writeFixed 401 ''session_expired''))
      else case newURL_at (q_url q) ''http://127.0.0.1'' of
             None \<Rightarrow> Inl (s\<lparr>ss_lastUsed := q_now q\<rparr>, Throws)
           | Some u \<Rightarrow> Inr (s\<lparr>ss_lastUsed := q_now q\<rparr>, u))"

subsection \<open>The pool contract\<close>

text \<open>A policy that validated has a parsable bind, but the contract needs no such fact: every
  failing path gives the slot back.\<close>

lemma finishSession_counter:
  assumes "finishSession msg b h q n s env = (m, r)"
  shows "(case r of Inl e \<Rightarrow> m = n - 1 | Inr s' \<Rightarrow> m = n \<and> ss_closed s' = ss_closed s)"
  using assms unfolding finishSession_def
  by (auto simp: Let_def split: if_splits option.splits sum.splits)

lemma closeSession_counter:
  "\<not> ss_closed s \<Longrightarrow> closeSession n s = (m, s') \<Longrightarrow> m = n - 1 \<and> ss_closed s'"
  "ss_closed s \<Longrightarrow> closeSession n s = (n, s)"
  by (auto simp: closeSession_def)

lemma beginSession_open [simp]: "\<not> ss_closed (beginSession p c opts)"
  by (simp add: beginSession_def)

lemma checkedReply_safe:
  "v \<in> set sensitive \<Longrightarrow> 4 \<le> length v \<Longrightarrow> r = checkedReply sensitive x \<Longrightarrow>
     r = writeFixed 502 ''sensitive_response_blocked'' \<or> \<not> contains (sr_body r) v"
  by (auto simp: checkedReply_def containsSensitive_def list_ex_iff)

lemma admitRequest_Inr:
  "admitRequest ttl idle s q = Inr (s', u) \<Longrightarrow>
     \<not> ss_closed s \<and> \<not> sessionExpired ttl idle s (q_now q) \<and> s' = s\<lparr>ss_lastUsed := q_now q\<rparr> \<and>
     newURL_at (q_url q) ''http://127.0.0.1'' = Some u"
  by (auto simp: admitRequest_def split: if_splits option.splits)

end
