(* ===== verification/SshBroker.thy ===== *)
theory SshBroker
  imports SessionCore
begin

text \<open>
  The SSH session broker (\<open>ssh-session-broker.mjs\<close>): start in two phases around its
  \<open>await\<close>s, the routes \<open>/status\<close> and \<open>/exec\<close>, and close. An execution is split at the
  exchange with the target, so that another operation of the session can come in between.
\<close>

definition MAX_SSH_SESSION_BROKERS :: nat where "MAX_SSH_SESSION_BROKERS = 8"

type_synonym ssh_session = "ssh_policy session"

text \<open>The placeholder test of the code always holds for an accepted policy.\<close>

definition sshBegin :: "nat \<Rightarrow> session_options \<Rightarrow> nat \<times> (string + ssh_session)" where
  "sshBegin active opts =
     (if MAX_SSH_SESSION_BROKERS \<le> active then (active, Inl ''concurrent_session_forbidden'')
      else case validatePolicy (so_policy opts) of
        Inl _ \<Rightarrow> (active, Inl ''invalid_policy'')
      | Inr (SshPolicy p) \<Rightarrow>
          (if sp_target_port p < 1 then (active, Inl ''target_unbound'')
           else case validateBasicCredentials (so_credentials opts) of
             Inl _ \<Rightarrow> (active, Inl ''invalid_credentials'')
           | Inr c \<Rightarrow> (active + 1, Inr (beginSession p c opts)))
      | Inr _ \<Rightarrow> (active, Inl ''wrong_broker''))"

definition sshFinish :: "nat \<Rightarrow> ssh_session \<Rightarrow> session_env \<Rightarrow> nat \<times> (string + ssh_session)" where
  "sshFinish active s env =
     finishSession ''ssh session broker listening'' (sp_bind (ss_policy s)) (sp_target_host (ss_policy s))
       (sp_target_port (ss_policy s)) active s env"

definition sshClose :: "nat \<Rightarrow> ssh_session \<Rightarrow> nat \<times> ssh_session" where
  "sshClose active s = closeSession active s"



definition execMessages :: "ssh_session \<Rightarrow> string \<Rightarrow> jsval list" where
  "execMessages s command =
     [authMessage (ss_credentials s), JObj [(''op'', JStr ''exec''), (''command'', JStr command)], quitMessage]"

definition sshExec :: "network \<Rightarrow> ssh_session \<Rightarrow> string \<Rightarrow> string + jsval list" where
  "sshExec network s command =
     exchangeJsonLines network (sp_target_host (ss_policy s)) (sp_target_port (ss_policy s)) (execMessages s command)"


interpretation ssh_pool: session_pool MAX_SSH_SESSION_BROKERS sshBegin sshFinish sshClose "\<lambda>_. True" ss_closed
proof unfold_locales
  show "sshBegin n opts = (m, Inr s) \<Longrightarrow> n < MAX_SSH_SESSION_BROKERS \<and> m = Suc n \<and> \<not> ss_closed s" for n opts m s
    by (auto simp: sshBegin_def split: if_splits sum.splits policy.splits)
  show "sshBegin n opts = (m, Inl e) \<Longrightarrow> m = n" for n opts m e
    by (auto simp: sshBegin_def split: if_splits sum.splits policy.splits)
qed (auto simp: sshFinish_def sshClose_def closeSession_counter dest!: finishSession_counter dest: closeSession_counter(1))


subsection \<open>Properties\<close>

definition sample_ssh_policy :: jsval where
  "sample_ssh_policy = JObj
     [(''version'', JNum 7), (''service'', JStr ''shell''), (''credential_class'', JStr ''ssh''),
      (''bind'', JStr ''http://127.0.0.1:0''), (''target_host'', JStr ''127.0.0.1''), (''target_port'', JNum 2222),
      (''allowed_commands'', JArr [JStr ''status'', JStr ''uptime'']),
      (''username_value'', JStr ''{{username}}''), (''password_value'', JStr ''{{password}}''),
      (''session_ttl_ms'', JNum 60000), (''idle_ttl_ms'', JNum 30000)]"

definition ssh_options :: "string \<Rightarrow> session_options" where
  "ssh_options pw = \<lparr>so_policy = sample_ssh_policy,
     so_credentials = JObj [(''username'', JStr ''operator''), (''password'', JStr pw)],
     so_now = 1000, so_random = ''abcd''\<rparr>"



lemma ssh_begin_sample:
  "\<exists>s. sshBegin 0 (ssh_options ''pass word'') = (1, Inr s)"
proof -
  have "fst (sshBegin 0 (ssh_options ''pass word'')) = 1 \<and> \<not> fails (snd (sshBegin 0 (ssh_options ''pass word'')))"
    by code_simp
  then show ?thesis
    by (cases "sshBegin 0 (ssh_options ''pass word'')"; cases "snd (sshBegin 0 (ssh_options ''pass word''))") auto
qed

text \<open>C9: in every interleaving of starts, failures and closes of SSH sessions the module's
  counter is the number of sessions that are starting or open, and never exceeds eight.\<close>

theorem ssh_sessions_bounded:
  assumes "pool_reach sshBegin sshFinish sshClose w"
  shows "w_active w = length (w_pending w) + length (filter (\<lambda>s. \<not> ss_closed s) (w_started w)) \<and> w_active w \<le> 8"
  using ssh_pool.counter_exact [OF assms] by (simp add: MAX_SSH_SESSION_BROKERS_def)

theorem ssh_sessions_bounded_witness:
  "\<exists>w. pool_reach sshBegin sshFinish sshClose w \<and> w_active w = 1 \<and> length (w_pending w) = 1"
proof -
  obtain s where s: "sshBegin 0 (ssh_options ''pass word'') = (1, Inr s)"
    using ssh_begin_sample by blast
  let ?w = "empty_world\<lparr>w_active := 1, w_pending := w_pending empty_world @ [s]\<rparr>"
  have "pool_step sshBegin sshFinish sshClose empty_world ?w"
    by (rule pool_step.Begin [where w = empty_world and opts = "ssh_options ''pass word''"])
       (simp add: s empty_world_def)
  then have "pool_reach sshBegin sshFinish sshClose ?w" by (simp add: pool_reach_def)
  with ssh_sessions_bounded [OF this] show ?thesis by (intro exI [of _ ?w]) (simp add: empty_world_def)
qed








end
