(* ===== verification/FtpBroker.thy ===== *)
theory FtpBroker
  imports SessionCore
begin


type_synonym ftp_session = "ftp_policy session"

datatype ftp_request = ListRequest | RetrRequest string






fun ftpMessages :: "ftp_session \<Rightarrow> ftp_request \<Rightarrow> jsval list" where
  "ftpMessages s ListRequest = [authMessage (ss_credentials s), JObj [(''op'', JStr ''list'')], quitMessage]"
| "ftpMessages s (RetrRequest p) =
     [authMessage (ss_credentials s), JObj [(''op'', JStr ''retr''), (''path'', JStr p)], quitMessage]"

definition ftpExchange :: "network \<Rightarrow> ftp_session \<Rightarrow> ftp_request \<Rightarrow> string + jsval list" where
  "ftpExchange network s r =
     exchangeJsonLines network (fp_target_host (ss_policy s)) (fp_target_port (ss_policy s)) (ftpMessages s r)"

definition failed_reply :: "ftp_session \<Rightarrow> string \<Rightarrow> string \<Rightarrow> ftp_session \<times> session_response" where
  "failed_reply s message c =
     (s\<lparr>ss_logs := ss_logs s @ [sessionLog (ss_sensitive s) ''error'' message None]\<rparr>, writeFixed 502 c)"

text \<open>After the exchange, on the session as it is then.\<close>

fun ftpReply :: "ftp_session \<Rightarrow> ftp_request \<Rightarrow> string + jsval list \<Rightarrow> ftp_session \<times> session_response" where
  "ftpReply s ListRequest (Inl e) = failed_reply s ''ftp list failed'' ''list_failed''"
| "ftpReply s (RetrRequest p) (Inl e) = failed_reply s ''ftp retr failed'' ''retr_failed''"
| "ftpReply s ListRequest (Inr replies) =
     (let reply = replyAt replies 2
      in case arr_of (getProp reply ''entries'') of
           None \<Rightarrow> (s, writeFixed 502 ''list_failed'')
         | Some es \<Rightarrow>
             if getProp reply ''ok'' \<noteq> JBool True then (s, writeFixed 502 ''list_failed'')
             else (s, checkedReply (ss_sensitive s) (JObj [(''ok'', JBool True),
               (''entries'', JArr (filter (\<lambda>e. e \<in> set (map JStr (fp_allowed_paths (ss_policy s)))) es))])))"
| "ftpReply s (RetrRequest p) (Inr replies) =
     (let reply = replyAt replies 2
      in case str_of (getProp reply ''body'') of
           None \<Rightarrow> (s, writeFixed 502 ''retr_failed'')
         | Some body \<Rightarrow>
             if getProp reply ''ok'' \<noteq> JBool True then (s, writeFixed 502 ''retr_failed'')
             else (s, checkedReply (ss_sensitive s) (JObj [(''ok'', JBool True), (''path'', JStr p),
               (''size'', JNum (int (length body))), (''body'', JStr body)])))"


subsection \<open>Properties\<close>








text \<open>C37: a listing answered with success names only paths of the policy, whatever entries the
  target sent.\<close>

theorem ftp_listing_filtered:
  "snd (ftpReply s ListRequest result) \<in>
     {writeFixed 502 ''list_failed'', writeFixed 502 ''sensitive_response_blocked''} \<or>
   (\<exists>ps. set ps \<subseteq> set (fp_allowed_paths (ss_policy s)) \<and>
      snd (ftpReply s ListRequest result) = \<lparr>sr_status = 200,
        sr_body = stringify (JObj [(''ok'', JBool True), (''entries'', JArr (map JStr ps))])\<rparr>)"
proof (cases result)
  case (Inl e)
  then show ?thesis by (simp add: failed_reply_def)
next
  case (Inr replies)
  have sub: "\<exists>ps. set ps \<subseteq> set allowed \<and> filter (\<lambda>e. e \<in> set (map JStr allowed)) es = map JStr ps"
    for allowed and es
    by (induction es) (auto intro: exI [of _ "[]"] exI [of _ "_ # _"], metis list.simps(9) set_ConsD subset_code(1))
  show ?thesis
  proof (cases "arr_of (getProp (replyAt replies 2) ''entries'')")
    case None
    with Inr show ?thesis by (simp add: Let_def)
  next
    case (Some es)
    obtain ps where "set ps \<subseteq> set (fp_allowed_paths (ss_policy s))"
      "filter (\<lambda>e. e \<in> set (map JStr (fp_allowed_paths (ss_policy s)))) es = map JStr ps"
      using sub by blast
    with Inr Some show ?thesis
      by (auto simp: Let_def checkedReply_def simp del: set_map list.set_map)
  qed
qed

end
