(* ===== verification/RuntimeFrame.thy ===== *)
theory RuntimeFrame
  imports JsonRoundtrip Policy BasicCredentials "HOL-Library.Word"
begin

text \<open>
  The frames that carry the OneCLI agent token and policy over inherited descriptors
  (\<open>onecli-proxy-runtime-frame.js\<close>): a magic, a version byte, a 32-bit big-endian length and
  the payload; the descriptor checks; and the parent lease. A stream is its events; when they
  run out before \<open>end\<close> the timer fires. Buffers are byte strings, so malformed UTF-8, which
  the code detects by a length change, is outside the model.
\<close>

unbundle bit_operations_syntax

definition MAX_RUNTIME_POLICY_BYTES :: nat where "MAX_RUNTIME_POLICY_BYTES = 16 * 1024"

definition TOKEN_MAGIC :: bytes where "TOKEN_MAGIC = ''BWAT''"
definition POLICY_MAGIC :: bytes where "POLICY_MAGIC = ''BWAP''"

datatype frame_error =
    InvalidTokenEncoding | DescriptorsNotDistinct | InvalidPolicyEncoding | InvalidPolicyJson
  | FrameTimeout | FrameTooLarge | FrameReadFailed | InvalidFrameHeader | InvalidFrameLength
  | InvalidDescriptor | MissingDescriptor | DescriptorNotIpc

subsection \<open>Descriptors\<close>

record fd_stat =
  st_dev :: int
  st_ino :: int
  st_mode :: "32 word"
  st_isFIFO :: bool
  st_isSocket :: bool
  st_isFile :: bool
  st_isDirectory :: bool
  st_isCharacterDevice :: bool
  st_isBlockDevice :: bool
  st_isSymbolicLink :: bool

definition WINDOWS_S_IFMT :: "32 word" where "WINDOWS_S_IFMT = 0xf000"
definition WINDOWS_S_IFIFO :: "32 word" where "WINDOWS_S_IFIFO = 0x1000"

definition isWindowsAnonymousPipeStat :: "fd_stat \<Rightarrow> bool" where
  "isWindowsAnonymousPipeStat st \<longleftrightarrow> st_mode st AND WINDOWS_S_IFMT = WINDOWS_S_IFIFO \<and>
     \<not> st_isFile st \<and> \<not> st_isDirectory st \<and> \<not> st_isCharacterDevice st \<and>
     \<not> st_isBlockDevice st \<and> \<not> st_isSymbolicLink st"

text \<open>\<open>fstat\<close> is an argument, \<open>None\<close> when it throws; so is whether the platform is Windows.\<close>

definition requireIpcDescriptor :: "bool \<Rightarrow> (int \<Rightarrow> fd_stat option) \<Rightarrow> int \<Rightarrow> frame_error + fd_stat" where
  "requireIpcDescriptor win32 fstat fd =
     (if fd < 3 then Inl InvalidDescriptor
      else case fstat fd of
        None \<Rightarrow> Inl MissingDescriptor
      | Some st \<Rightarrow>
          if st_isFIFO st \<or> st_isSocket st then Inr st
          else if win32 \<and> isWindowsAnonymousPipeStat st then Inr st
          else Inl DescriptorNotIpc)"

fun descriptor_identities :: "bool \<Rightarrow> (int \<Rightarrow> fd_stat option) \<Rightarrow> int list \<Rightarrow> frame_error + (int \<times> int) list" where
  "descriptor_identities win32 fstat [] = Inr []"
| "descriptor_identities win32 fstat (fd # fds) =
     (case requireIpcDescriptor win32 fstat fd of
        Inl e \<Rightarrow> Inl e
      | Inr st \<Rightarrow> (case descriptor_identities win32 fstat fds of
                   Inl e \<Rightarrow> Inl e | Inr ids \<Rightarrow> Inr ((st_dev st, st_ino st) # ids)))"

definition requireDistinctRuntimeIpcDescriptors :: "bool \<Rightarrow> (int \<Rightarrow> fd_stat option) \<Rightarrow> int \<Rightarrow> int \<Rightarrow> int \<Rightarrow> frame_error + unit" where
  "requireDistinctRuntimeIpcDescriptors win32 fstat tokenFd policyFd leaseFd =
     (case descriptor_identities win32 fstat [tokenFd, policyFd, leaseFd] of
        Inl e \<Rightarrow> Inl e
      | Inr ids \<Rightarrow> if length (jsSet ids) \<noteq> length ids then Inl DescriptorsNotDistinct else Inr ())"

subsection \<open>Frames\<close>

definition uint32BE :: "nat \<Rightarrow> bytes" where
  "uint32BE n = [char_of (n div 16777216 mod 256), char_of (n div 65536 mod 256),
                 char_of (n div 256 mod 256), char_of (n mod 256)]"

fun readUInt32BE :: "bytes \<Rightarrow> nat" where
  "readUInt32BE (a # b # c # d # _) = code a * 16777216 + code b * 65536 + code c * 256 + code d"
| "readUInt32BE _ = 0"

definition encodeFrame :: "bytes \<Rightarrow> bytes \<Rightarrow> bytes" where
  "encodeFrame magic payload = magic @ [CHR 0x01] @ uint32BE (length payload) @ payload"

datatype stream_event = FrameData bytes | FrameEnd | FrameError

fun read_stream :: "nat \<Rightarrow> bytes \<Rightarrow> stream_event list \<Rightarrow> frame_error + bytes" where
  "read_stream maximumFrame acc [] = Inl FrameTimeout"
| "read_stream maximumFrame acc (FrameData c # es) =
     (if maximumFrame < length acc + length c then Inl FrameTooLarge
      else read_stream maximumFrame (acc @ c) es)"
| "read_stream maximumFrame acc (FrameEnd # es) = Inr acc"
| "read_stream maximumFrame acc (FrameError # es) = Inl FrameReadFailed"

definition decodeFrame :: "bytes \<Rightarrow> nat \<Rightarrow> bytes \<Rightarrow> frame_error + bytes" where
  "decodeFrame expectedMagic maximumPayload frame =
     (if length frame < 9 \<or> take 4 frame \<noteq> expectedMagic \<or> code (frame ! 4) \<noteq> 1 then Inl InvalidFrameHeader
      else let declared = readUInt32BE (drop 5 frame)
           in if declared < 1 \<or> maximumPayload < declared \<or> length frame \<noteq> 9 + declared
              then Inl InvalidFrameLength else Inr (drop 9 frame))"

definition readFrame :: "frame_error + fd_stat \<Rightarrow> stream_event list \<Rightarrow> bytes \<Rightarrow> nat \<Rightarrow> frame_error + bytes" where
  "readFrame descriptor events expectedMagic maximumPayload =
     (case descriptor of
        Inl e \<Rightarrow> Inl e
      | Inr _ \<Rightarrow>
          (case read_stream (9 + maximumPayload) [] events of
             Inl e \<Rightarrow> Inl e
           | Inr frame \<Rightarrow> decodeFrame expectedMagic maximumPayload frame))"

definition readOneCliAgentTokenFrame :: "frame_error + fd_stat \<Rightarrow> stream_event list \<Rightarrow> frame_error + string" where
  "readOneCliAgentTokenFrame descriptor events =
     (case readFrame descriptor events TOKEN_MAGIC 512 of
        Inl e \<Rightarrow> Inl e
      | Inr payload \<Rightarrow>
          if list_ex (\<lambda>c. code c < 33 \<or> 126 < code c) payload then Inl InvalidTokenEncoding else Inr payload)"

definition readOneCliProxyPolicyFrame :: "frame_error + fd_stat \<Rightarrow> stream_event list \<Rightarrow> frame_error + jsval" where
  "readOneCliProxyPolicyFrame descriptor events =
     (case readFrame descriptor events POLICY_MAGIC MAX_RUNTIME_POLICY_BYTES of
        Inl e \<Rightarrow> Inl e
      | Inr payload \<Rightarrow>
          if CHR 0x00 \<in> set payload then Inl InvalidPolicyEncoding
          else (case json_parse payload of None \<Rightarrow> Inl InvalidPolicyJson | Some v \<Rightarrow> Inr v))"

definition encodeOneCliAgentTokenFrame :: "string \<Rightarrow> bytes" where
  "encodeOneCliAgentTokenFrame token = encodeFrame TOKEN_MAGIC token"

definition encodeOneCliProxyPolicyFrame :: "jsval \<Rightarrow> bytes" where
  "encodeOneCliProxyPolicyFrame p = encodeFrame POLICY_MAGIC (stringify p)"

text \<open>The parent lease: any data, the end or an error of the stream ends it, once.\<close>

fun lease_calls :: "bool \<Rightarrow> stream_event list \<Rightarrow> nat" where
  "lease_calls ended [] = 0"
| "lease_calls ended (e # es) = (if ended then 0 else 1) + lease_calls True es"

definition monitorParentLease :: "frame_error + fd_stat \<Rightarrow> stream_event list \<Rightarrow> frame_error + nat" where
  "monitorParentLease descriptor events =
     (case descriptor of Inl e \<Rightarrow> Inl e | Inr _ \<Rightarrow> Inr (lease_calls False events))"

subsection \<open>Round trip\<close>

lemma length_uint32BE [simp]: "length (uint32BE n) = 4"
  by (simp add: uint32BE_def)

lemma readUInt32BE_uint32BE:
  assumes "n < 2 ^ 32"
  shows "readUInt32BE (uint32BE n @ s) = n"
proof -
  have d: "n div 65536 = n div 256 div 256" "n div 16777216 = n div 256 div 256 div 256"
    by (simp_all add: div_mult2_eq [symmetric])
  have top: "n div 256 div 256 div 256 mod 256 = n div 256 div 256 div 256"
    using assms by (simp add: div_mult2_eq [symmetric])
  have "x = x div 256 * 256 + x mod 256" for x :: nat
    by simp
  from this [of n] this [of "n div 256"] this [of "n div 256 div 256"]
  have "n div 256 div 256 div 256 * 16777216 + n div 256 div 256 mod 256 * 65536 +
      n div 256 mod 256 * 256 + n mod 256 = n"
    by linarith
  then show ?thesis by (simp add: uint32BE_def code_def d top)
qed

lemma decode_encode:
  assumes "length magic = 4" "1 \<le> length payload" "length payload \<le> m" "m < 2 ^ 32"
  shows "decodeFrame magic m (encodeFrame magic payload) = Inr payload"
proof -
  have d: "drop 5 (encodeFrame magic payload) = uint32BE (length payload) @ payload"
    and f: "encodeFrame magic payload ! 4 = CHR 0x01" "take 4 (encodeFrame magic payload) = magic"
    and p: "drop 9 (encodeFrame magic payload) = payload" "length (encodeFrame magic payload) = 9 + length payload"
    using assms(1) by (simp_all add: encodeFrame_def nth_append)
  have "code CHR 0x01 = 1" "payload \<noteq> []" using assms(2) by (auto simp: code_def)
  with assms show ?thesis
    by (simp add: decodeFrame_def Let_def d f p readUInt32BE_uint32BE)
qed

lemma read_stream_chunks:
  "length (acc @ concat cs) \<le> m \<Longrightarrow> read_stream m acc (map FrameData cs @ [FrameEnd]) = Inr (acc @ concat cs)"
  by (induction cs arbitrary: acc) auto

lemma read_encoded:
  assumes "concat chunks = encodeFrame magic payload" "length magic = 4"
    "1 \<le> length payload" "length payload \<le> m" "m < 2 ^ 32"
  shows "readFrame (Inr st) (map FrameData chunks @ [FrameEnd]) magic m = Inr payload"
proof -
  have "length (concat chunks) \<le> 9 + m" using assms by (simp add: encodeFrame_def)
  then have "read_stream (9 + m) [] (map FrameData chunks @ [FrameEnd]) = Inr (encodeFrame magic payload)"
    using read_stream_chunks [of "[]" chunks "9 + m"] assms(1) by simp
  then show ?thesis using decode_encode [OF assms(2-5)] by (simp add: readFrame_def)
qed

lemma read_stream_Inr:
  "read_stream m acc es = Inr b \<Longrightarrow> length acc \<le> m \<Longrightarrow> length b \<le> m"
  by (induction m acc es rule: read_stream.induct) (auto split: if_splits)


subsection \<open>Properties\<close>

definition sample_fifo :: fd_stat where
  "sample_fifo = \<lparr>st_dev = 12, st_ino = 4711, st_mode = 0x1180, st_isFIFO = True, st_isSocket = False,
     st_isFile = False, st_isDirectory = False, st_isCharacterDevice = False,
     st_isBlockDevice = False, st_isSymbolicLink = False\<rparr>"

text \<open>C17: a token frame survives the descriptor: however the stream cuts the encoded frame into
  chunks, the reader returns the token, for every token of 1 to 512 visible ASCII characters.\<close>

theorem token_frame_round_trip:
  assumes "concat chunks = encodeOneCliAgentTokenFrame token" "token \<noteq> []" "length token \<le> 512"
    "list_all is_token_char token"
  shows "readOneCliAgentTokenFrame (Inr st) (map FrameData chunks @ [FrameEnd]) = Inr token"
proof -
  have "readFrame (Inr st) (map FrameData chunks @ [FrameEnd]) TOKEN_MAGIC 512 = Inr token"
    by (rule read_encoded)
       (use assms in \<open>auto simp: encodeOneCliAgentTokenFrame_def TOKEN_MAGIC_def Suc_le_eq\<close>)
  moreover have "\<not> list_ex (\<lambda>c. code c < 33 \<or> 126 < code c) token"
    using assms(4) by (auto simp: list_ex_iff list_all_iff is_token_char_def)
  ultimately show ?thesis by (simp add: readOneCliAgentTokenFrame_def)
qed

theorem token_frame_round_trip_witness:
  "readOneCliAgentTokenFrame (Inr sample_fifo)
     (map FrameData [take 5 (encodeOneCliAgentTokenFrame ''aoc_token-123456''),
                     drop 5 (encodeOneCliAgentTokenFrame ''aoc_token-123456'')] @ [FrameEnd]) =
   Inr ''aoc_token-123456''"
proof (rule token_frame_round_trip)
  show "list_all is_token_char ''aoc_token-123456''" by code_simp
qed simp_all

text \<open>C24: a policy frame survives the descriptor: a policy value of JSON data whose text fits and
  has no NUL byte is read back as itself, whatever the chunking.\<close>

theorem policy_frame_round_trip:
  assumes "concat chunks = encodeOneCliProxyPolicyFrame v" "json_data v"
    "length (stringify v) \<le> MAX_RUNTIME_POLICY_BYTES" "CHR 0x00 \<notin> set (stringify v)"
  shows "readOneCliProxyPolicyFrame (Inr st) (map FrameData chunks @ [FrameEnd]) = Inr v"
proof -
  obtain c cs where "stringify v = c # cs" using assms(2) by (rule stringify_head)
  then have "readFrame (Inr st) (map FrameData chunks @ [FrameEnd]) POLICY_MAGIC MAX_RUNTIME_POLICY_BYTES = Inr (stringify v)"
    by (intro read_encoded)
       (use assms in \<open>auto simp: encodeOneCliProxyPolicyFrame_def POLICY_MAGIC_def MAX_RUNTIME_POLICY_BYTES_def\<close>)
  then show ?thesis
    using assms(4) json_parse_stringify [OF assms(2)] by (simp add: readOneCliProxyPolicyFrame_def)
qed

theorem policy_frame_round_trip_witness:
  "readOneCliProxyPolicyFrame (Inr sample_fifo)
     (map FrameData [encodeOneCliProxyPolicyFrame (JObj [(''version'', JNum 4)])] @ [FrameEnd]) =
   Inr (JObj [(''version'', JNum 4)])"
proof (rule policy_frame_round_trip)
  show "json_data (JObj [(''version'', JNum 4)])"
    "length (stringify (JObj [(''version'', JNum 4)])) \<le> MAX_RUNTIME_POLICY_BYTES"
    "CHR 0x00 \<notin> set (stringify (JObj [(''version'', JNum 4)]))"
    by code_simp+
qed simp



end
