(* ===== verification/Targeting.thy ===== *)
theory Targeting
  imports Policy "HOL-Library.Char_ord" "HOL-Library.List_Lexorder" "HOL-Library.Multiset"
begin

text \<open>
  The targeting contract of a bridge-owned browser (\<open>bridge-browser-targeting.mjs\<close>): the facts
  of a login page, read from its HTML with the code's regular expressions written out as
  scanners, the candidates an agent may choose from, the parsing and the authorization of a
  choice, and the check of the live page before injection. Errors are the code's error codes.
  White space in the patterns is ASCII white space.
\<close>

definition ALLOWED_AGENT_OPS :: "string list" where
  "ALLOWED_AGENT_OPS =
     [''status'', ''contract'', ''snapshot'', ''select_targets'', ''inject_login'', ''goto'', ''screenshot'']"

definition FORBIDDEN_AGENT_OPS :: "string list" where
  "FORBIDDEN_AGENT_OPS =
     [''eval'', ''run_code'', ''cdp'', ''cookie_list'', ''cookie_get'', ''cookie_set'', ''cookie_clear'',
      ''state_save'', ''state_load'', ''fill'', ''type'', ''press'', ''pdf'', ''localstorage_list'',
      ''localstorage_get'', ''sessionstorage_list'', ''sessionstorage_get'', ''playwright'',
      ''playwright_cli'', ''request'', ''request_body'', ''response_body'', ''fill_password'']"

definition AGENT_ERROR_CODES :: "string list" where
  "AGENT_ERROR_CODES =
     [''adapter_failed'', ''already_logged_in'', ''captcha_required'', ''challenge_blocked'',
      ''command_forbidden'', ''concurrent_session_forbidden'', ''extra_field_forbidden'',
      ''inject_before_select'', ''invalid_request'', ''mfa_required'', ''not_found'', ''not_logged_in'',
      ''origin_mismatch'', ''path_denied'', ''playwright_absent'', ''playwright_launch_failed'',
      ''password_entry_active'', ''screenshot_too_large'', ''screenshot_unsupported'',
      ''sensitive_response_blocked'', ''session_expired'', ''session_material_forbidden'',
      ''stale_generation'', ''success_path_mismatch'', ''target_kind_mismatch'']"

definition SELECT_KEYS :: "string list" where
  "SELECT_KEYS = [''generation'', ''username_index'', ''password_index'', ''submit_index'']"

subsection \<open>Challenge patterns\<close>

definition word_char :: "char \<Rightarrow> bool" where
  "word_char c \<longleftrightarrow> is_alpha c \<or> is_digit c \<or> c = CHR ''_''"

text \<open>A pattern is tested at every position of the lower-case text, with the character before it.\<close>

fun scan_at :: "(char option \<Rightarrow> string \<Rightarrow> bool) \<Rightarrow> char option \<Rightarrow> string \<Rightarrow> bool" where
  "scan_at m prev [] = m prev []"
| "scan_at m prev (c # cs) = (m prev (c # cs) \<or> scan_at m (Some c) cs)"

definition word_start :: "char option \<Rightarrow> bool" where
  "word_start prev = (case prev of None \<Rightarrow> True | Some c \<Rightarrow> \<not> word_char c)"

definition word_end :: "string \<Rightarrow> bool" where
  "word_end s = (case s of [] \<Rightarrow> True | c # _ \<Rightarrow> \<not> word_char c)"

text \<open>\<open>w1[-\s]?w2\<close>: what follows it.\<close>

definition joined_words :: "string \<Rightarrow> string \<Rightarrow> string \<Rightarrow> string option" where
  "joined_words w1 w2 s =
     (let r = drop (length w1) s
      in if \<not> prefix w1 s then None
         else if prefix w2 r then Some (drop (length w2) r)
         else if r \<noteq> [] \<and> (hd r = CHR ''-'' \<or> is_space (hd r)) \<and> prefix w2 (tl r) then Some (drop (length w2) (tl r))
         else None)"

definition mfa_word :: "char option \<Rightarrow> string \<Rightarrow> bool" where
  "mfa_word prev s \<longleftrightarrow> word_start prev \<and>
     (list_ex (\<lambda>w. prefix w s) [''mfa'', ''2fa'', ''totp'', ''otp''] \<or> joined_words ''one'' ''time'' s \<noteq> None)"

definition MFA_HINT :: "string \<Rightarrow> bool" where
  "MFA_HINT html = scan_at (\<lambda>prev s. mfa_word prev s \<or> prefix ''enter mfa code'' s \<or>
       prefix ''mfa_required'' s \<or> (prefix ''otp_required'' s \<and> word_end (drop 12 s))) None (toLowerCase html)"

definition CAPTCHA_HINT :: "string \<Rightarrow> bool" where
  "CAPTCHA_HINT html = scan_at (\<lambda>prev s. word_start prev \<and>
       (list_ex (\<lambda>w. prefix w s \<and> word_end (drop (length w) s)) [''captcha'', ''recaptcha'', ''hcaptcha''] \<or>
        (case joined_words ''bot'' ''check'' s of None \<Rightarrow> False | Some r \<Rightarrow> word_end r))) None (toLowerCase html)"

subsection \<open>Tags and attributes\<close>

definition prefix_ci :: "string \<Rightarrow> string \<Rightarrow> bool" where
  "prefix_ci w s \<longleftrightarrow> toLowerCase (take (length w) s) = w"

text \<open>\<open><name\b([^>]*)>\<close> at the start of a text: the attributes and the rest.\<close>

definition open_tag :: "string \<Rightarrow> string \<Rightarrow> (string \<times> string) option" where
  "open_tag name s =
     (let r = drop (Suc (length name)) s
      in if prefix_ci (''<'' @ name) s \<and> word_end r
         then map_option (\<lambda>i. (take i r, drop (Suc i) r)) (indexOf r (CHR ''>''))
         else None)"

fun split_ci :: "string \<Rightarrow> string \<Rightarrow> (string \<times> string) option" where
  "split_ci w [] = (if w = [] then Some ([], []) else None)"
| "split_ci w (c # cs) =
     (if prefix_ci w (c # cs) then Some ([], drop (length w) (c # cs))
      else map_option (\<lambda>(a, b). (c # a, b)) (split_ci w cs))"

text \<open>The first \<open><name ...>\<close>, and the first \<open><name ...>...</name>\<close>.\<close>

fun find_tag :: "string \<Rightarrow> string \<Rightarrow> (string \<times> string) option" where
  "find_tag name [] = None"
| "find_tag name (c # cs) =
     (case open_tag name (c # cs) of Some t \<Rightarrow> Some t | None \<Rightarrow> find_tag name cs)"

definition element_at :: "string \<Rightarrow> string \<Rightarrow> (string \<times> string \<times> string) option" where
  "element_at name s =
     (case open_tag name s of
        None \<Rightarrow> None
      | Some (attrs, r) \<Rightarrow>
          map_option (\<lambda>(inner, rest). (attrs, inner, rest)) (split_ci (''</'' @ name @ ''>'') r))"

fun find_element :: "string \<Rightarrow> string \<Rightarrow> (string \<times> string \<times> string) option" where
  "find_element name [] = None"
| "find_element name (c # cs) =
     (case element_at name (c # cs) of Some e \<Rightarrow> Some e | None \<Rightarrow> find_element name cs)"

lemma open_tag_length: "open_tag name s = Some (a, r) \<Longrightarrow> length r < length s"
proof -
  assume o: "open_tag name s = Some (a, r)"
  then obtain i where "indexOf (drop (Suc (length name)) s) (CHR ''>'') = Some i"
      "r = drop (Suc i) (drop (Suc (length name)) s)"
    by (auto simp: open_tag_def Let_def split: if_splits)
  then show ?thesis using indexOf_Some by fastforce
qed

lemma split_ci_length: "split_ci w s = Some (a, b) \<Longrightarrow> length b \<le> length s"
  by (induction w s arbitrary: a b rule: split_ci.induct) (auto split: if_splits)

lemma find_tag_length: "find_tag name s = Some (a, r) \<Longrightarrow> length r < length s"
  by (induction name s rule: find_tag.induct) (auto split: option.splits dest!: open_tag_length)

lemma element_at_length: "element_at name s = Some (a, i, r) \<Longrightarrow> length r < length s"
  by (auto simp: element_at_def split: option.splits dest!: open_tag_length split_ci_length)

lemma find_element_length: "find_element name s = Some (a, i, r) \<Longrightarrow> length r < length s"
  by (induction name s rule: find_element.induct) (auto split: option.splits dest!: element_at_length)

text \<open>The loops \<open>while ((match = re.exec(...)) !== null)\<close>.\<close>

function all_tags :: "string \<Rightarrow> string \<Rightarrow> string list" where
  "all_tags name s = (case find_tag name s of None \<Rightarrow> [] | Some (attrs, rest) \<Rightarrow> attrs # all_tags name rest)"
  by pat_completeness auto
termination
  by (relation "measure (\<lambda>(n, s). length s)") (auto dest: find_tag_length)

function all_elements :: "string \<Rightarrow> string \<Rightarrow> (string \<times> string) list" where
  "all_elements name s =
     (case find_element name s of
        None \<Rightarrow> [] | Some (attrs, inner, rest) \<Rightarrow> (attrs, inner) # all_elements name rest)"
  by pat_completeness auto
termination
  by (relation "measure (\<lambda>(n, s). length s)") (auto dest: find_element_length)

declare all_tags.simps [simp del] all_elements.simps [simp del]

definition attr_start :: "char \<Rightarrow> bool" where
  "attr_start c \<longleftrightarrow> is_alpha c \<or> c = CHR ''_'' \<or> c = CHR '':''"

definition attr_char :: "char \<Rightarrow> bool" where
  "attr_char c \<longleftrightarrow> word_char c \<or> c \<in> set '':.-''"

text \<open>A quoted or bare attribute value, and the rest.\<close>

definition attr_value :: "string \<Rightarrow> (string \<times> string) option" where
  "attr_value s =
     (case s of
        [] \<Rightarrow> None
      | q # t \<Rightarrow>
          (let bare = takeWhile (\<lambda>c. \<not> is_space c \<and> c \<noteq> CHR ''>'') s
           in if (q = CHR 0x22 \<or> q = CHR 0x27) \<and> q \<in> set t
              then Some (takeWhile (\<lambda>c. c \<noteq> q) t, tl (dropWhile (\<lambda>c. c \<noteq> q) t))
              else if bare = [] then None else Some (bare, drop (length bare) s)))"

definition attr_rest :: "string \<Rightarrow> string \<times> string" where
  "attr_rest r =
     (case dropWhile is_space r of
        [] \<Rightarrow> ([], r)
      | e # t \<Rightarrow> if e = CHR ''='' then (case attr_value (dropWhile is_space t) of None \<Rightarrow> ([], r) | Some vr \<Rightarrow> vr)
                 else ([], r))"

lemma attr_rest_length: "length (snd (attr_rest r)) \<le> length r"
proof -
  have d: "length (dropWhile P s) \<le> length s" for P and s :: string
    by (rule length_dropWhile_le)
  have t: "length (dropWhile P s) - Suc 0 \<le> Suc (length s)" for P and s :: string
    using d [of P s] by linarith
  have v: "length b \<le> length s" if "attr_value s = Some (a, b)" for s a b
    using that t by (auto simp: attr_value_def Let_def split: list.splits if_splits)
  show ?thesis
  proof (cases "dropWhile is_space r")
    case Nil
    then show ?thesis unfolding attr_rest_def Nil by simp
  next
    case (Cons e t)
    have "length (e # t) \<le> length r" using d [of is_space r] Cons by simp
    with Cons v d [of is_space t] show ?thesis
      by (fastforce simp: attr_rest_def split: option.splits)
  qed
qed

function parseAttrsFrom :: "(string \<times> string) list \<Rightarrow> string \<Rightarrow> (string \<times> string) list" where
  "parseAttrsFrom attrs [] = attrs"
| "parseAttrsFrom attrs (c # cs) =
     (if attr_start c then
        (let r = attr_rest (dropWhile attr_char cs)
         in parseAttrsFrom (obj_assign attrs (toLowerCase (c # takeWhile attr_char cs)) (fst r)) (snd r))
      else parseAttrsFrom attrs cs)"
  by pat_completeness auto
termination
  by (relation "measure (\<lambda>(a, s). length s)")
     (auto intro!: le_imp_less_Suc le_trans [OF attr_rest_length] length_dropWhile_le)

definition parseAttrs :: "string \<Rightarrow> (string \<times> string) list" where
  "parseAttrs raw = parseAttrsFrom [] raw"

function stripTags :: "string \<Rightarrow> string" where
  "stripTags [] = []"
| "stripTags (c # cs) =
     (if c = CHR ''<'' \<and> cs \<noteq> [] \<and> hd cs \<noteq> CHR ''>'' \<and> CHR ''>'' \<in> set cs
      then stripTags (tl (dropWhile (\<lambda>d. d \<noteq> CHR ''>'') cs))
      else c # stripTags cs)"
  by pat_completeness auto
termination
  by (relation "measure length")
     (auto intro!: le_imp_less_Suc le_trans [OF diff_le_self] length_dropWhile_le)

subsection \<open>Page facts\<close>

datatype challenge = NoChallenge | Mfa | Captcha

record page_field =
  pf_name :: string
  pf_type :: string
  pf_hidden :: bool

record page_button =
  pb_type :: string
  pb_label :: string

record page_facts =
  fa_origin :: string
  fa_path :: string
  fa_form_action :: string
  fa_challenge :: challenge
  fa_fields :: "page_field list"
  fa_buttons :: "page_button list"

definition challengeOf :: "string \<Rightarrow> challenge" where
  "challengeOf html = (if MFA_HINT html then Mfa else if CAPTCHA_HINT html then Captcha else NoChallenge)"

text \<open>\<open>attrs.type || otherwise\<close>\<close>

definition typeOr :: "string \<Rightarrow> (string \<times> string) list \<Rightarrow> string" where
  "typeOr otherwise attrs =
     toLowerCase (case map_of attrs ''type'' of None \<Rightarrow> otherwise | Some t \<Rightarrow> if t = [] then otherwise else t)"

fun pageFields :: "string list \<Rightarrow> page_field list" where
  "pageFields [] = []"
| "pageFields (raw # raws) =
     (let attrs = parseAttrs raw;
          name = (case map_of attrs ''name'' of None \<Rightarrow> [] | Some n \<Rightarrow> n);
          ty = typeOr ''text'' attrs
      in if name = [] then pageFields raws
         else \<lparr>pf_name = name, pf_type = ty, pf_hidden = (ty = ''hidden'')\<rparr> # pageFields raws)"

definition pageButton :: "string \<times> string \<Rightarrow> page_button" where
  "pageButton e =
     (let label = trim (stripTags (snd e))
      in \<lparr>pb_type = typeOr ''submit'' (parseAttrs (fst e)), pb_label = (if label = [] then ''submit'' else label)\<rparr>)"

definition MAX_PAGE_LENGTH :: nat where "MAX_PAGE_LENGTH = 256 * 1024"

definition parseLoginPageFacts :: "string \<Rightarrow> string \<Rightarrow> string + page_facts" where
  "parseLoginPageFacts html pageUrl =
     (if MAX_PAGE_LENGTH < length html then Inl ''page_unreadable''
      else case newURL pageUrl of
        None \<Rightarrow> Inl ''origin_mismatch''
      | Some url \<Rightarrow>
          (let form = find_element ''form'' html;
               formAttrs = (case form of None \<Rightarrow> [] | Some (a, _, _) \<Rightarrow> parseAttrs a);
               formInner = (case form of None \<Rightarrow> html | Some (_, inner, _) \<Rightarrow> inner);
               actionRaw = (case map_of formAttrs ''action'' of None \<Rightarrow> pathname url | Some a \<Rightarrow> a)
           in case url_parse (Some url) actionRaw of
                None \<Rightarrow> Inl ''origin_mismatch''
              | Some action \<Rightarrow>
                  Inr \<lparr>fa_origin = origin url, fa_path = pathname url, fa_form_action = href action,
                       fa_challenge = challengeOf html,
                       fa_fields = pageFields (all_tags ''input'' formInner),
                       fa_buttons = map pageButton (all_elements ''button'' formInner)\<rparr>))"

subsection \<open>Candidates\<close>

datatype candidate_kind = KUsername | KPassword | KSubmit

record candidate =
  ca_index :: nat
  ca_kind :: candidate_kind
  ca_name :: string

definition fieldKind :: "page_field \<Rightarrow> candidate_kind option" where
  "fieldKind f =
     (if pf_hidden f then None
      else if pf_type f = ''password'' then Some KPassword
      else if pf_type f \<in> {''text'', ''email'', []} then Some KUsername else None)"

fun fieldCandidates :: "nat \<Rightarrow> page_field list \<Rightarrow> candidate list" where
  "fieldCandidates index [] = []"
| "fieldCandidates index (f # fs) =
     (case fieldKind f of
        None \<Rightarrow> fieldCandidates index fs
      | Some k \<Rightarrow> \<lparr>ca_index = index, ca_kind = k, ca_name = pf_name f\<rparr> # fieldCandidates (index + 1) fs)"

fun buttonCandidates :: "nat \<Rightarrow> page_button list \<Rightarrow> candidate list" where
  "buttonCandidates index [] = []"
| "buttonCandidates index (b # bs) =
     (if pb_type b = ''submit'' \<or> pb_type b = ''button''
      then \<lparr>ca_index = index, ca_kind = KSubmit, ca_name = pb_label b\<rparr> # buttonCandidates (index + 1) bs
      else buttonCandidates index bs)"

definition enumerateAgentCandidates :: "page_facts \<Rightarrow> candidate list" where
  "enumerateAgentCandidates facts =
     (if fa_challenge facts \<noteq> NoChallenge then []
      else let cs = fieldCandidates 0 (fa_fields facts)
           in cs @ buttonCandidates (length cs) (fa_buttons facts))"

subsection \<open>Selection\<close>

record selection =
  sel_generation :: int
  sel_username :: int
  sel_password :: int
  sel_submit :: int

definition parseTargetSelection :: "jsval \<Rightarrow> string + selection" where
  "parseTargetSelection raw =
     (let keys = sort (own_keys raw); n = \<lambda>k. int_of (getProp raw k)
      in if \<not> is_object raw then Inl ''invalid_request''
         else if length keys \<noteq> length SELECT_KEYS \<or> joinWith '','' keys \<noteq> joinWith '','' (sort SELECT_KEYS)
           then Inl ''extra_field_forbidden''
         else if list_ex (\<lambda>k. case n k of None \<Rightarrow> True | Some i \<Rightarrow> i < 0) SELECT_KEYS then Inl ''invalid_request''
         else if the (n ''generation'') < 1 then Inl ''invalid_request''
         else Inr \<lparr>sel_generation = the (n ''generation''), sel_username = the (n ''username_index''),
                   sel_password = the (n ''password_index''), sel_submit = the (n ''submit_index'')\<rparr>)"

record snapshot =
  sn_generation :: int
  sn_origin :: string
  sn_candidates :: "candidate list"
  sn_form_action :: string

record authorized =
  au_username :: candidate
  au_password :: candidate
  au_submit :: candidate

definition candidateAt :: "candidate list \<Rightarrow> int \<Rightarrow> string + candidate" where
  "candidateAt cs index =
     (case find (\<lambda>c. int (ca_index c) = index) cs of None \<Rightarrow> Inl ''invalid_request'' | Some c \<Rightarrow> Inr c)"

definition originOf :: "string \<Rightarrow> string + string" where
  "originOf t = (case newURL t of None \<Rightarrow> Inl ''origin_mismatch'' | Some u \<Rightarrow> Inr (origin u))"

definition authorizeTargetSelection :: "snapshot \<Rightarrow> selection \<Rightarrow> browser_policy \<Rightarrow> string + authorized" where
  "authorizeTargetSelection snap sel p =
     (if sel_generation sel \<noteq> sn_generation snap then Inl ''stale_generation''
      else case originOf (login_origin p) of
        Inl e \<Rightarrow> Inl e
      | Inr expectedOrigin \<Rightarrow>
      (if sn_origin snap \<noteq> expectedOrigin then Inl ''origin_mismatch''
       else case originOf (sn_form_action snap) of
         Inl e \<Rightarrow> Inl e
       | Inr formOrigin \<Rightarrow>
      (if formOrigin \<noteq> expectedOrigin then Inl ''origin_mismatch''
       else case candidateAt (sn_candidates snap) (sel_username sel) of
         Inl e \<Rightarrow> Inl e
       | Inr u \<Rightarrow>
      (case candidateAt (sn_candidates snap) (sel_password sel) of
         Inl e \<Rightarrow> Inl e
       | Inr w \<Rightarrow>
      (case candidateAt (sn_candidates snap) (sel_submit sel) of
         Inl e \<Rightarrow> Inl e
       | Inr s \<Rightarrow>
          if ca_kind u \<noteq> KUsername then Inl ''target_kind_mismatch''
          else if ca_kind w \<noteq> KPassword then Inl ''target_kind_mismatch''
          else if ca_kind s \<noteq> KSubmit then Inl ''target_kind_mismatch''
          else if ca_name u \<noteq> username_field p \<or> ca_name w \<noteq> password_field p then Inl ''target_kind_mismatch''
          else Inr \<lparr>au_username = u, au_password = w, au_submit = s\<rparr>)))))"

definition assertInjectSafe :: "page_facts \<Rightarrow> authorized \<Rightarrow> browser_policy \<Rightarrow> string + unit" where
  "assertInjectSafe live a p =
     (if fa_challenge live \<noteq> NoChallenge then Inl ''challenge_blocked''
      else case originOf (login_origin p) of
        Inl e \<Rightarrow> Inl e
      | Inr expectedOrigin \<Rightarrow>
      (if fa_origin live \<noteq> expectedOrigin then Inl ''origin_mismatch''
       else case originOf (fa_form_action live) of
         Inl e \<Rightarrow> Inl e
       | Inr formOrigin \<Rightarrow>
      (if formOrigin \<noteq> expectedOrigin then Inl ''origin_mismatch''
       else case find (\<lambda>f. pf_name f = ca_name (au_password a)) (fa_fields live) of
         None \<Rightarrow> Inl ''target_kind_mismatch''
       | Some w \<Rightarrow>
          (if pf_type w \<noteq> ''password'' \<or> pf_hidden w then Inl ''target_kind_mismatch''
           else case find (\<lambda>f. pf_name f = ca_name (au_username a)) (fa_fields live) of
             None \<Rightarrow> Inl ''target_kind_mismatch''
           | Some u \<Rightarrow>
               if pf_hidden u \<or> pf_type u = ''password'' then Inl ''target_kind_mismatch'' else Inr ()))))"

definition denyAgentOp :: "string \<Rightarrow> string option" where
  "denyAgentOp op =
     (if op \<in> set FORBIDDEN_AGENT_OPS then
        (if startsWith op ''cookie_'' \<or> startsWith op ''state_'' \<or>
            op \<in> {''eval'', ''run_code'', ''cdp'', ''fill_password'', ''fill'', ''type''}
         then Some ''session_material_forbidden'' else Some ''command_forbidden'')
      else if op \<notin> set ALLOWED_AGENT_OPS then Some ''command_forbidden'' else None)"

subsection \<open>What candidates and selections are\<close>

lemma fieldCandidates_index:
  "map ca_index (fieldCandidates n fs) = [n..<n + length (fieldCandidates n fs)]"
  by (induction n fs rule: fieldCandidates.induct) (auto simp: upt_conv_Cons simp del: upt_Suc split: option.splits)

lemma buttonCandidates_index:
  "map ca_index (buttonCandidates n bs) = [n..<n + length (buttonCandidates n bs)]"
  by (induction n bs rule: buttonCandidates.induct) (auto simp: upt_conv_Cons simp del: upt_Suc)

lemma enumerate_index:
  "map ca_index (enumerateAgentCandidates facts) = [0..<length (enumerateAgentCandidates facts)]"
proof (cases "fa_challenge facts = NoChallenge")
  case True
  let ?f = "fieldCandidates 0 (fa_fields facts)"
  let ?b = "buttonCandidates (length ?f) (fa_buttons facts)"
  have "map ca_index ?f @ map ca_index ?b = [0..<length ?f] @ [length ?f..<length ?f + length ?b]"
    unfolding fieldCandidates_index buttonCandidates_index by simp
  also have "\<dots> = [0..<length ?f + length ?b]" by (metis add.left_neutral upt_add_eq_append zero_le)
  finally show ?thesis using True by (simp add: enumerateAgentCandidates_def Let_def)
qed (simp add: enumerateAgentCandidates_def)

lemma find_by_position:
  assumes "map g cs = [0..<length cs]"
  shows "find (\<lambda>c. int (g c) = i) cs = (if 0 \<le> i \<and> i < int (length cs) then Some (cs ! nat i) else None)"
proof -
  have g: "g (cs ! k) = k" if "k < length cs" for k
    using that assms by (metis nth_map nth_upt add.left_neutral)
  show ?thesis
  proof (cases "0 \<le> i \<and> i < int (length cs)")
    case True
    then have "nat i < length cs" "int (g (cs ! nat i)) = i" using g by auto
    moreover have "int (g (cs ! k)) \<noteq> i" if "k < nat i" for k
      using that g [of k] True by auto
    ultimately show ?thesis using True by (auto simp: find_Some_iff)
  next
    case False
    have "int (g c) \<noteq> i" if "c \<in> set cs" for c
      using that g False by (auto simp: in_set_conv_nth)
    then have "find (\<lambda>c. int (g c) = i) cs = None" by (simp add: find_None_iff)
    with False show ?thesis by auto
  qed
qed

lemma fieldCandidates_from:
  "c \<in> set (fieldCandidates n fs) \<Longrightarrow> \<exists>f \<in> set fs. fieldKind f = Some (ca_kind c) \<and> ca_name c = pf_name f"
  by (induction n fs rule: fieldCandidates.induct) (auto split: option.splits)

lemma buttonCandidates_from:
  "c \<in> set (buttonCandidates n bs) \<Longrightarrow> ca_kind c = KSubmit \<and> (\<exists>b \<in> set bs. ca_name c = pb_label b)"
  by (induction n bs rule: buttonCandidates.induct) (auto split: if_splits)

lemma fieldKind_Some:
  "fieldKind f = Some k \<Longrightarrow> \<not> pf_hidden f \<and> k \<noteq> KSubmit \<and> (k = KPassword \<longleftrightarrow> pf_type f = ''password'')"
  by (auto simp: fieldKind_def split: if_splits)

lemma enumerate_from:
  assumes "c \<in> set (enumerateAgentCandidates facts)"
  shows "(ca_kind c = KSubmit \<and> (\<exists>b \<in> set (fa_buttons facts). ca_name c = pb_label b)) \<or>
         (ca_kind c \<noteq> KSubmit \<and> (\<exists>f \<in> set (fa_fields facts). \<not> pf_hidden f \<and> ca_name c = pf_name f \<and>
            (ca_kind c = KPassword \<longleftrightarrow> pf_type f = ''password'')))"
  using assms by (fastforce simp: enumerateAgentCandidates_def Let_def split: if_splits
      dest: fieldCandidates_from buttonCandidates_from fieldKind_Some)

text \<open>Joining loses nothing when the parts hold no separator; and a list of the same length with
  the same join cannot hold one either.\<close>

lemma splitOn_joinWith:
  "ps \<noteq> [] \<Longrightarrow> splitOn sep (joinWith [sep] ps) = concat (map (splitOn sep) ps)"
proof (induction "[sep]" ps rule: joinWith.induct)
  case (3 p q ps)
  have "splitOn sep (a @ sep # b) = splitOn sep a @ splitOn sep b" for a b
    by (induction a) (auto split: list.splits)
  with 3 show ?case by simp
qed simp_all

lemma splitOn_no_occurrence: "sep \<notin> set p \<Longrightarrow> splitOn sep p = [p]"
  by (induction p) auto

lemma splitOn_singleton: "length (splitOn sep p) = 1 \<Longrightarrow> splitOn sep p = [p]"
proof -
  assume "length (splitOn sep p) = 1"
  then obtain q where q: "splitOn sep p = [q]" by (cases "splitOn sep p") auto
  with joinWith_splitOn [of sep p] show ?thesis by simp
qed

lemma concat_singletons: "(\<And>p. p \<in> set ps \<Longrightarrow> f p = [p]) \<Longrightarrow> concat (map f ps) = ps"
  by (induction ps) auto

lemma length_concat_splits:
  "length ps \<le> length (concat (map (splitOn sep) ps)) \<and>
   (length (concat (map (splitOn sep) ps)) = length ps \<longrightarrow> (\<forall>p \<in> set ps. splitOn sep p = [p]))"
proof (induction ps)
  case (Cons p ps)
  have "1 \<le> length (splitOn sep p)" by (simp add: Suc_le_eq)
  with Cons splitOn_singleton [of sep p] show ?case by auto
qed simp

lemma joinWith_inj:
  assumes "joinWith [sep] ps = joinWith [sep] qs" "length ps = length qs" "qs \<noteq> []"
    "\<And>q. q \<in> set qs \<Longrightarrow> sep \<notin> set q"
  shows "ps = qs"
proof -
  have "ps \<noteq> []" using assms(2,3) by auto
  with assms have "concat (map (splitOn sep) ps) = concat (map (splitOn sep) qs)"
    by (metis splitOn_joinWith)
  also have "\<dots> = qs" using assms(4) by (intro concat_singletons splitOn_no_occurrence)
  finally have e: "concat (map (splitOn sep) ps) = qs" .
  then have "\<forall>p \<in> set ps. splitOn sep p = [p]"
    using length_concat_splits [of ps sep] assms(2) by simp
  then have "concat (map (splitOn sep) ps) = ps" by (intro concat_singletons) blast
  with e show ?thesis by simp
qed

lemma select_keys_exact:
  assumes "length keys = length SELECT_KEYS" "joinWith '','' (sort keys) = joinWith '','' (sort SELECT_KEYS)"
  shows "mset keys = mset SELECT_KEYS"
proof -
  have "CHR '','' \<notin> set q" if "q \<in> set (sort SELECT_KEYS)" for q
    using that by (auto simp: SELECT_KEYS_def)
  with assms have "sort keys = sort SELECT_KEYS"
    by (intro joinWith_inj [where sep = "CHR '',''"]) (auto simp: SELECT_KEYS_def)
  then show ?thesis by (metis mset_sort)
qed

lemma parseTargetSelection_Inr:
  assumes "parseTargetSelection raw = Inr sel"
  shows "is_object raw \<and> mset (own_keys raw) = mset SELECT_KEYS \<and>
    getProp raw ''generation'' = JNum (sel_generation sel) \<and> 1 \<le> sel_generation sel \<and>
    getProp raw ''username_index'' = JNum (sel_username sel) \<and> 0 \<le> sel_username sel \<and>
    getProp raw ''password_index'' = JNum (sel_password sel) \<and> 0 \<le> sel_password sel \<and>
    getProp raw ''submit_index'' = JNum (sel_submit sel) \<and> 0 \<le> sel_submit sel"
proof -
  have g: "is_object raw" "length (sort (own_keys raw)) = length SELECT_KEYS"
    "joinWith '','' (sort (own_keys raw)) = joinWith '','' (sort SELECT_KEYS)"
    "\<forall>k \<in> set SELECT_KEYS. \<exists>i. getProp raw k = JNum i \<and> 0 \<le> i"
    "1 \<le> the (int_of (getProp raw ''generation''))"
    and s: "sel = \<lparr>sel_generation = the (int_of (getProp raw ''generation'')),
       sel_username = the (int_of (getProp raw ''username_index'')),
       sel_password = the (int_of (getProp raw ''password_index'')),
       sel_submit = the (int_of (getProp raw ''submit_index''))\<rparr>"
  proof -
    define A where "A \<longleftrightarrow> length (sort (own_keys raw)) \<noteq> length SELECT_KEYS \<or>
      joinWith '','' (sort (own_keys raw)) \<noteq> joinWith '','' (sort SELECT_KEYS)"
    define B where "B \<longleftrightarrow> list_ex (\<lambda>k. case int_of (getProp raw k) of None \<Rightarrow> True | Some i \<Rightarrow> i < 0) SELECT_KEYS"
    define r where "r = \<lparr>sel_generation = the (int_of (getProp raw ''generation'')),
       sel_username = the (int_of (getProp raw ''username_index'')),
       sel_password = the (int_of (getProp raw ''password_index'')),
       sel_submit = the (int_of (getProp raw ''submit_index''))\<rparr>"
    have e: "parseTargetSelection raw =
        (if \<not> is_object raw then Inl ''invalid_request'' else if A then Inl ''extra_field_forbidden''
         else if B then Inl ''invalid_request''
         else if the (int_of (getProp raw ''generation'')) < 1 then Inl ''invalid_request'' else Inr r)"
      by (simp only: parseTargetSelection_def Let_def A_def B_def r_def)
    have c: "is_object raw \<and> \<not> A \<and> \<not> B \<and> \<not> the (int_of (getProp raw ''generation'')) < 1 \<and> sel = r"
      using assms unfolding e by (simp split: if_split_asm)
    show "is_object raw" "sel = r" "1 \<le> the (int_of (getProp raw ''generation''))" using c by auto
    show "length (sort (own_keys raw)) = length SELECT_KEYS"
      "joinWith '','' (sort (own_keys raw)) = joinWith '','' (sort SELECT_KEYS)"
      using c unfolding A_def by blast+
    show "\<forall>k \<in> set SELECT_KEYS. \<exists>i. getProp raw k = JNum i \<and> 0 \<le> i"
    proof
      fix k
      assume "k \<in> set SELECT_KEYS"
      with c have "\<not> (case int_of (getProp raw k) of None \<Rightarrow> True | Some i \<Rightarrow> i < 0)"
        unfolding B_def list_ex_iff by blast
      then show "\<exists>i. getProp raw k = JNum i \<and> 0 \<le> i" by (auto split: option.splits)
    qed
  qed
  have "length (own_keys raw) = length SELECT_KEYS" using g(2) by (simp only: length_sort)
  then have "mset (own_keys raw) = mset SELECT_KEYS" using g(3) by (rule select_keys_exact)
  moreover obtain n u w b where
      "getProp raw ''generation'' = JNum n" "getProp raw ''username_index'' = JNum u" "0 \<le> u"
      "getProp raw ''password_index'' = JNum w" "0 \<le> w" "getProp raw ''submit_index'' = JNum b" "0 \<le> b"
    using g(4) by (simp add: SELECT_KEYS_def) blast
  ultimately show ?thesis using g(1,5) s by simp
qed

lemma candidateAt_Inr: "candidateAt cs i = Inr c \<Longrightarrow> c \<in> set cs \<and> int (ca_index c) = i"
  by (auto simp: candidateAt_def find_Some_iff split: option.splits)

definition on_login_origin :: "browser_policy \<Rightarrow> string \<Rightarrow> string \<Rightarrow> bool" where
  "on_login_origin p pageOrigin formAction \<longleftrightarrow>
     (\<exists>u f. newURL (login_origin p) = Some u \<and> newURL formAction = Some f \<and>
        pageOrigin = origin u \<and> origin f = origin u)"

lemma authorize_Inr:
  assumes "authorizeTargetSelection snap sel p = Inr a"
  shows "sel_generation sel = sn_generation snap \<and> on_login_origin p (sn_origin snap) (sn_form_action snap) \<and>
    {au_username a, au_password a, au_submit a} \<subseteq> set (sn_candidates snap) \<and>
    ca_kind (au_username a) = KUsername \<and> ca_name (au_username a) = username_field p \<and>
    ca_kind (au_password a) = KPassword \<and> ca_name (au_password a) = password_field p \<and>
    ca_kind (au_submit a) = KSubmit"
  using assms unfolding authorizeTargetSelection_def originOf_def on_login_origin_def
  by (auto split: if_split_asm option.split_asm sum.split_asm dest!: candidateAt_Inr)

lemma assertInjectSafe_Inr:
  assumes "assertInjectSafe live a p = Inr ()"
  shows "fa_challenge live = NoChallenge \<and> on_login_origin p (fa_origin live) (fa_form_action live) \<and>
    (\<exists>f \<in> set (fa_fields live). pf_name f = ca_name (au_password a) \<and> pf_type f = ''password'' \<and> \<not> pf_hidden f) \<and>
    (\<exists>f \<in> set (fa_fields live). pf_name f = ca_name (au_username a) \<and> pf_type f \<noteq> ''password'' \<and> \<not> pf_hidden f)"
  using assms unfolding assertInjectSafe_def originOf_def on_login_origin_def
  by (auto split: if_split_asm option.split_asm sum.split_asm simp: find_Some_iff)

subsection \<open>Properties\<close>

text \<open>C39: the indices an agent may name are exactly the positions of the enumerated list, and each
  candidate is a button or a visible field of the page, a password candidate a password field.\<close>

theorem agent_candidates_exact:
  "candidateAt (enumerateAgentCandidates facts) i = Inr c \<longleftrightarrow>
     0 \<le> i \<and> i < int (length (enumerateAgentCandidates facts)) \<and> c = enumerateAgentCandidates facts ! nat i \<and>
     (if ca_kind c = KSubmit then \<exists>b \<in> set (fa_buttons facts). ca_name c = pb_label b
      else \<exists>f \<in> set (fa_fields facts). \<not> pf_hidden f \<and> ca_name c = pf_name f \<and>
             (ca_kind c = KPassword \<longleftrightarrow> pf_type f = ''password''))"
proof -
  have "candidateAt (enumerateAgentCandidates facts) i = Inr c \<longleftrightarrow>
      0 \<le> i \<and> i < int (length (enumerateAgentCandidates facts)) \<and> c = enumerateAgentCandidates facts ! nat i"
    unfolding candidateAt_def find_by_position [OF enumerate_index] by auto
  moreover have "enumerateAgentCandidates facts ! nat i \<in> set (enumerateAgentCandidates facts)"
    if "0 \<le> i" "i < int (length (enumerateAgentCandidates facts))" using that by simp
  ultimately show ?thesis using enumerate_from [of c facts] by auto
qed

text \<open>C40: a selection body is accepted only as an object with exactly the four fields, each once,
  all of them integers of at least 0, the generation at least 1, and it is read as it is.\<close>

theorem selection_body_typed:
  assumes "parseTargetSelection raw = Inr sel"
  shows "is_object raw \<and> mset (own_keys raw) = mset SELECT_KEYS \<and>
    getProp raw ''generation'' = JNum (sel_generation sel) \<and> 1 \<le> sel_generation sel \<and>
    getProp raw ''username_index'' = JNum (sel_username sel) \<and> 0 \<le> sel_username sel \<and>
    getProp raw ''password_index'' = JNum (sel_password sel) \<and> 0 \<le> sel_password sel \<and>
    getProp raw ''submit_index'' = JNum (sel_submit sel) \<and> 0 \<le> sel_submit sel"
  using parseTargetSelection_Inr [OF assms] .

theorem selection_body_typed_witness:
  "mset (own_keys (JObj [(''submit_index'', JNum 2), (''generation'', JNum 3), (''username_index'', JNum 0),
     (''password_index'', JNum 1)])) = mset SELECT_KEYS"
proof -
  have "parseTargetSelection (JObj [(''submit_index'', JNum 2), (''generation'', JNum 3),
      (''username_index'', JNum 0), (''password_index'', JNum 1)]) =
    Inr \<lparr>sel_generation = 3, sel_username = 0, sel_password = 1, sel_submit = 2\<rparr>"
    by code_simp
  from selection_body_typed [OF this] show ?thesis by blast
qed

end
