(* ===== verification/PageAdapter.thy ===== *)
theory PageAdapter
  imports Targeting
begin

text \<open>
  Page adapters: what a bridge-owned browser drives. The interface is a record of operations
  over the adapter's own state, so that a browser engine outside the repository fits it, and
  the fetch-backed adapter of the code (\<open>bridge-browser-fake-adapter.mjs\<close>) is an instance.

  Asynchronous code that may throw is a function from a state to a result and a state. The
  sites \<open>fetch\<close> reaches are an argument: a function of all requests made so far, the last one
  included, so a site may answer by its own state; \<open>None\<close> is a rejected \<open>fetch\<close>.
\<close>

subsection \<open>Throwing computations over a state\<close>

text \<open>\<open>Coded\<close> is an error the code raises with a code, \<open>Uncoded\<close> any other exception.\<close>

datatype thrown = Coded string | Uncoded

type_synonym ('s, 'x) act = "'s \<Rightarrow> (thrown + 'x) \<times> 's"

definition ret :: "'x \<Rightarrow> ('s, 'x) act" where
  "ret x s = (Inr x, s)"

definition raise :: "thrown \<Rightarrow> ('s, 'x) act" where
  "raise e s = (Inl e, s)"

definition andThen :: "('s, 'x) act \<Rightarrow> ('x \<Rightarrow> ('s, 'y) act) \<Rightarrow> ('s, 'y) act" where
  "andThen m f s = (case m s of (Inl e, s') \<Rightarrow> (Inl e, s') | (Inr x, s') \<Rightarrow> f x s')"

text \<open>A call of synchronous code that throws coded errors.\<close>

definition call :: "string + 'x \<Rightarrow> ('s, 'x) act" where
  "call r s = (case r of Inl e \<Rightarrow> (Inl (Coded e), s) | Inr x \<Rightarrow> (Inr x, s))"

definition guard :: "bool \<Rightarrow> string \<Rightarrow> ('s, unit) act" where
  "guard b e s = (if b then (Inr (), s) else (Inl (Coded e), s))"

lemma andThen_Inr [guard_simps]:
  "andThen m f s = (Inr y, s') \<longleftrightarrow> (\<exists>x t. m s = (Inr x, t) \<and> f x t = (Inr y, s'))"
  by (auto simp: andThen_def split: prod.splits sum.splits)

lemma call_Inr' [guard_simps]: "call r s = (Inr x, s') \<longleftrightarrow> r = Inr x \<and> s' = s"
  by (auto simp: call_def split: sum.splits)

lemma guard_Inr' [guard_simps]: "guard b e s = (Inr x, s') \<longleftrightarrow> b \<and> s' = s"
  by (auto simp: guard_def)

lemma ret_Inr [guard_simps]: "ret x s = (Inr y, s') \<longleftrightarrow> y = x \<and> s' = s"
  by (auto simp: ret_def)

lemma raise_Inr [guard_simps]: "raise e s = (Inr y, s') \<longleftrightarrow> False"
  by (simp add: raise_def)

text \<open>A property of states that every step of a computation keeps.\<close>

definition keeps :: "('s \<Rightarrow> bool) \<Rightarrow> ('s, 'x) act \<Rightarrow> bool" where
  "keeps P m \<longleftrightarrow> (\<forall>s. P s \<longrightarrow> P (snd (m s)))"

named_theorems keeps_intros \<open>computations that keep a property\<close>

lemma keeps_pure [keeps_intros]: "keeps P (ret x)" "keeps P (raise e)" "keeps P (call r)" "keeps P (guard b c)"
  by (auto simp: keeps_def ret_def raise_def call_def guard_def split: sum.splits)

lemma keeps_andThen [keeps_intros]:
  "keeps P m \<Longrightarrow> (\<And>x. keeps P (f x)) \<Longrightarrow> keeps P (andThen m f)"
  by (auto simp: keeps_def andThen_def split: prod.splits sum.splits)

lemma keepsD: "keeps P m \<Longrightarrow> P s \<Longrightarrow> m s = (r, s') \<Longrightarrow> P s'"
  by (metis keeps_def snd_conv)

subsection \<open>The interface\<close>

record page =
  pg_html :: string
  pg_url :: string
  pg_facts :: page_facts

record submission =
  sb_formAction :: string
  sb_usernameField :: string
  sb_passwordField :: string
  sb_username :: string
  sb_password :: string
  sb_hiddenNames :: "string list"
  sb_maxRedirectHops :: int
  sb_submitLabel :: string

text \<open>Operations an adapter may lack are options. A screenshot that is not a \<open>Buffer\<close> is \<open>None\<close>.\<close>

record 'a adapter =
  ad_snapshotPage :: "('a, page) act"
  ad_submitLogin :: "submission \<Rightarrow> ('a, page) act"
  ad_goto :: "string \<Rightarrow> ('a, page) act"
  ad_absorbCookies :: "('a, string list) act"
  ad_occupied :: "('a, bool) act option"
  ad_screenshotPage :: "('a, bytes option) act option"
  ad_currentUrl :: "'a \<Rightarrow> string"
  ad_resetLoginPage :: "('a, unit) act option"
  ad_close :: "('a, unit) act"

subsection \<open>Fetch\<close>

record fetch_call =
  fc_url :: string
  fc_method :: string
  fc_headers :: "(string \<times> string) list"
  fc_body :: "string option"

record fetch_answer =
  fa_status :: int
  fa_location :: "string option"
  fa_setCookie :: "string list"
  fa_body :: "bytes option"

type_synonym fetch = "fetch_call list \<Rightarrow> fetch_answer option"

text \<open>The adapter: its constants, cookie jar and current page, and the requests it made.\<close>

record fetch_state =
  fs_origin :: string
  fs_loginPage :: string
  fs_jar :: "(string \<times> string) list"
  fs_currentUrl :: string
  fs_calls :: "fetch_call list"

definition MAX_BODY_BYTES :: nat where "MAX_BODY_BYTES = 256 * 1024"

definition isRedirect :: "int \<Rightarrow> bool" where
  "isRedirect status \<longleftrightarrow> status \<in> {301, 302, 303, 307, 308}"

definition cookieHeader :: "(string \<times> string) list \<Rightarrow> string" where
  "cookieHeader jar = joinWith ''; '' (map (\<lambda>(k, v). k @ ''='' @ v) jar)"

fun absorbSetCookie :: "(string \<times> string) list \<Rightarrow> string list \<Rightarrow> (string \<times> string) list" where
  "absorbSetCookie jar [] = jar"
| "absorbSetCookie jar (line # rest) =
     (let pair = hd (splitOn (CHR '';'') line)
      in case indexOf pair (CHR ''='') of
           None \<Rightarrow> absorbSetCookie jar rest
         | Some eq \<Rightarrow>
             if eq = 0 then absorbSetCookie jar rest
             else absorbSetCookie (obj_define jar (trim (take eq pair)) (trim (drop (Suc eq) pair))) rest)"

definition readBoundedText :: "fetch_answer \<Rightarrow> thrown + string" where
  "readBoundedText r =
     (case fa_body r of
        None \<Rightarrow> Inl Uncoded
      | Some b \<Rightarrow> if MAX_BODY_BYTES < length b then Inl (Coded ''page_unreadable'') else Inr b)"

definition sendFetch :: "fetch \<Rightarrow> fetch_call \<Rightarrow> (fetch_state, fetch_answer) act" where
  "sendFetch fetch c s =
     (let calls = fs_calls s @ [c]; s' = s\<lparr>fs_calls := calls\<rparr>
      in case fetch calls of
           None \<Rightarrow> (Inl Uncoded, s')
         | Some r \<Rightarrow> (Inr r, s'\<lparr>fs_jar := absorbSetCookie (fs_jar s') (fa_setCookie r)\<rparr>))"

text \<open>The loop of \<open>request\<close>: the page and the URL it ended at.\<close>

function request ::
  "fetch \<Rightarrow> int \<Rightarrow> int \<Rightarrow> string \<Rightarrow> string \<Rightarrow> (string \<times> string) list \<Rightarrow> string option
   \<Rightarrow> (fetch_state, string \<times> string) act" where
  "request fetch maxHops hops current meth headers body s =
     (case sendFetch fetch
             \<lparr>fc_url = current, fc_method = meth,
              fc_headers = obj_define headers ''cookie'' (cookieHeader (fs_jar s)),
              fc_body = (if meth = ''GET'' then None else body)\<rparr> s of
        (Inl e, s') \<Rightarrow> (Inl e, s')
      | (Inr r, s') \<Rightarrow>
          (if isRedirect (fa_status r) then
             (case fa_location r of
                None \<Rightarrow> (Inl (Coded ''adapter_failed''), s')
              | Some location \<Rightarrow>
                  if location = [] \<or> maxHops < hops + 1 then (Inl (Coded ''adapter_failed''), s')
                  else (case newURL_at location current of
                          None \<Rightarrow> (Inl Uncoded, s')
                        | Some next \<Rightarrow>
                            if fa_body r = None then (Inl Uncoded, s')
                            else request fetch maxHops (hops + 1) (href next) ''GET'' [] None s'))
           else (case readBoundedText r of
                   Inl e \<Rightarrow> (Inl e, s') | Inr html \<Rightarrow> (Inr (html, current), s'))))"
  by pat_completeness auto
termination
  by (relation "measure (\<lambda>(f, m, h, _). nat (m - h))") auto

declare request.simps [simp del]

definition getPage :: "fetch \<Rightarrow> string \<Rightarrow> (fetch_state, string \<times> string) act" where
  "getPage fetch target = request fetch 3 0 target ''GET'' [] None"

definition setCurrentUrl :: "string \<Rightarrow> (fetch_state, unit) act" where
  "setCurrentUrl u s = (Inr (), s\<lparr>fs_currentUrl := u\<rparr>)"

definition pageOf :: "string \<times> string \<Rightarrow> (fetch_state, page) act" where
  "pageOf hu = andThen (call (parseLoginPageFacts (fst hu) (snd hu)))
     (\<lambda>facts. ret \<lparr>pg_html = fst hu, pg_url = snd hu, pg_facts = facts\<rparr>)"

text \<open>Every operation that loads a page: load, remember where it ended, read its facts.\<close>

definition loadPage :: "(fetch_state, string \<times> string) act \<Rightarrow> (fetch_state, page) act" where
  "loadPage load = andThen load (\<lambda>hu. andThen (setCurrentUrl (snd hu)) (\<lambda>_. pageOf hu))"

definition snapshotPage :: "fetch \<Rightarrow> (fetch_state, page) act" where
  "snapshotPage fetch s = loadPage (getPage fetch (fs_currentUrl s)) s"

text \<open>The first \<open>input\<close> tag whose attributes contain \<open>name="..."\<close>.\<close>

definition names_input :: "string \<Rightarrow> string \<Rightarrow> bool" where
  "names_input name attrs \<longleftrightarrow>
     list_ex (\<lambda>(p, q). contains (toLowerCase attrs) (''name='' @ [p] @ toLowerCase name @ [q]))
       [(CHR 0x22, CHR 0x22), (CHR 0x22, CHR 0x27), (CHR 0x27, CHR 0x22), (CHR 0x27, CHR 0x27)]"

fun findInput :: "string \<Rightarrow> string \<Rightarrow> string option" where
  "findInput name [] = None"
| "findInput name (c # cs) =
     (case open_tag ''input'' (c # cs) of
        None \<Rightarrow> findInput name cs
      | Some (attrs, _) \<Rightarrow> if names_input name attrs then Some attrs else findInput name cs)"

fun hiddenValues :: "(string \<times> string) list \<Rightarrow> string \<Rightarrow> string list \<Rightarrow> string + (string \<times> string) list" where
  "hiddenValues acc html [] = Inr acc"
| "hiddenValues acc html (name # names) =
     (case findInput name html of
        None \<Rightarrow> Inl ''target_kind_mismatch''
      | Some attrs \<Rightarrow>
          hiddenValues
            (obj_assign acc name (case map_of (parseAttrs attrs) ''value'' of None \<Rightarrow> [] | Some v \<Rightarrow> v))
            html names)"

definition loginBody :: "submission \<Rightarrow> (string \<times> string) list \<Rightarrow> string" where
  "loginBody sb hidden =
     serialize_params
       (foldl (\<lambda>ps (n, v). obj_define ps n v)
          (obj_define [(sb_usernameField sb, sb_username sb)] (sb_passwordField sb) (sb_password sb)) hidden)"

definition submitLogin :: "fetch \<Rightarrow> submission \<Rightarrow> (fetch_state, page) act" where
  "submitLogin fetch sb s =
     andThen (getPage fetch (fs_currentUrl s)) (\<lambda>login.
     andThen (pageOf login) (\<lambda>_.
     andThen (call (hiddenValues [] (fst login) (sb_hiddenNames sb))) (\<lambda>hidden.
     loadPage (request fetch (sb_maxRedirectHops sb) 0 (sb_formAction sb) ''POST''
       [(''content-type'', ''application/x-www-form-urlencoded'')] (Some (loginBody sb hidden)))))) s"

definition gotoPage :: "fetch \<Rightarrow> string \<Rightarrow> (fetch_state, page) act" where
  "gotoPage fetch absoluteUrl s =
     (case newURL absoluteUrl of
        None \<Rightarrow> (Inl Uncoded, s)
      | Some target \<Rightarrow>
          if origin target \<noteq> fs_origin s then (Inl (Coded ''origin_mismatch''), s)
          else loadPage (getPage fetch (href target)) s)"

definition absorbCookiesInto :: "(fetch_state, string list) act" where
  "absorbCookiesInto s = (Inr (filter (\<lambda>v. 8 \<le> length v) (map snd (fs_jar s))), s)"

definition resetLoginPage :: "fetch \<Rightarrow> (fetch_state, unit) act" where
  "resetLoginPage fetch s = andThen (loadPage (getPage fetch (fs_loginPage s))) (\<lambda>_. ret ()) s"

definition closeFetchAdapter :: "(fetch_state, unit) act" where
  "closeFetchAdapter s = (Inr (), s\<lparr>fs_jar := []\<rparr>)"

definition createFetchPageAdapter :: "fetch \<Rightarrow> fetch_state adapter" where
  "createFetchPageAdapter fetch =
     \<lparr>ad_snapshotPage = snapshotPage fetch, ad_submitLogin = submitLogin fetch, ad_goto = gotoPage fetch,
      ad_absorbCookies = absorbCookiesInto, ad_occupied = Some (ret False),
      ad_screenshotPage = Some (raise (Coded ''screenshot_unsupported'')),
      ad_currentUrl = fs_currentUrl, ad_resetLoginPage = Some (resetLoginPage fetch),
      ad_close = closeFetchAdapter\<rparr>"

text \<open>\<open>None\<close> when a URL constructor throws.\<close>

definition initialFetchState :: "string \<Rightarrow> string \<Rightarrow> fetch_state option" where
  "initialFetchState loginOrigin loginPath =
     (case newURL loginOrigin of
        None \<Rightarrow> None
      | Some u \<Rightarrow>
          map_option (\<lambda>l. \<lparr>fs_origin = origin u, fs_loginPage = href l, fs_jar = [],
                          fs_currentUrl = href l, fs_calls = []\<rparr>)
            (newURL_at loginPath (origin u @ ''/'')))"

subsection \<open>What an adapter sends\<close>

definition confined :: "(fetch_call \<Rightarrow> bool) \<Rightarrow> fetch_state \<Rightarrow> bool" where
  "confined Q s \<longleftrightarrow> (\<forall>c \<in> set (fs_calls s). fc_body c \<noteq> None \<longrightarrow> Q c)"

lemma sendFetch_calls:
  "sendFetch fetch c s = (r, s') \<Longrightarrow> fs_calls s' = fs_calls s @ [c] \<and> fs_origin s' = fs_origin s \<and> fs_loginPage s' = fs_loginPage s"
  by (auto simp: sendFetch_def Let_def split: option.splits)

text \<open>One turn of the loop: it stops after one request, or follows a redirect with a \<open>GET\<close>.\<close>

definition turn_call :: "string \<Rightarrow> string \<Rightarrow> (string \<times> string) list \<Rightarrow> string option \<Rightarrow> fetch_state \<Rightarrow> fetch_call" where
  "turn_call current meth headers body s =
     \<lparr>fc_url = current, fc_method = meth,
      fc_headers = obj_define headers ''cookie'' (cookieHeader (fs_jar s)),
      fc_body = (if meth = ''GET'' then None else body)\<rparr>"

lemma request_turn:
  obtains (stop) r s' where "sendFetch fetch (turn_call current meth headers body s) s = (r, s')"
      "snd (request fetch maxHops hops current meth headers body s) = s'"
  | (follow) r s' u where "sendFetch fetch (turn_call current meth headers body s) s = (Inr r, s')"
      "hops + 1 \<le> maxHops"
      "request fetch maxHops hops current meth headers body s =
         request fetch maxHops (hops + 1) (href u) ''GET'' [] None s'"
proof -
  obtain r s' where f: "sendFetch fetch (turn_call current meth headers body s) s = (r, s')" by force
  note unfolded = request.simps [of fetch maxHops hops current meth headers body s, folded turn_call_def, unfolded f]
  show thesis
  proof (cases "\<exists>a l u b. r = Inr a \<and> isRedirect (fa_status a) \<and> fa_location a = Some l \<and> l \<noteq> [] \<and>
      hops + 1 \<le> maxHops \<and> newURL_at l current = Some u \<and> fa_body a = Some b")
    case True
    with f show thesis by (auto simp: unfolded intro: follow)
  next
    case False
    then have "snd (request fetch maxHops hops current meth headers body s) = s'"
      unfolding unfolded by (auto split: sum.splits option.splits)
    with f show thesis by (rule stop)
  qed
qed

text \<open>The loop ends: at most \<open>maxHops\<close> redirects are followed, whatever the site answers.\<close>

lemma request_calls:
  "length (fs_calls (snd (request fetch maxHops hops current meth headers body s))) \<le>
     length (fs_calls s) + nat (maxHops - hops) + 1"
proof (induction "nat (maxHops - hops)" arbitrary: hops current meth headers body s rule: less_induct)
  case less
  show ?case
  proof (cases rule: request_turn [of fetch current meth headers body s maxHops hops])
    case (stop r s')
    with sendFetch_calls [OF stop(1)] show ?thesis by simp
  next
    case (follow r s' u)
    have "length (fs_calls (snd (request fetch maxHops (hops + 1) (href u) ''GET'' [] None s'))) \<le>
        length (fs_calls s') + nat (maxHops - (hops + 1)) + 1"
      using follow(2) by (intro less) auto
    with follow sendFetch_calls [OF follow(1)] show ?thesis by simp
  qed
qed

text \<open>Only the first request of the loop can carry a body.\<close>

lemma request_confined:
  assumes "confined Q s" "meth \<noteq> ''GET'' \<Longrightarrow> body \<noteq> None \<Longrightarrow> Q (turn_call current meth headers body s)"
  shows "confined Q (snd (request fetch maxHops hops current meth headers body s))"
  using assms
proof (induction "nat (maxHops - hops)" arbitrary: hops current meth headers body s rule: less_induct)
  case less
  have sent: "confined Q s'" if "sendFetch fetch (turn_call current meth headers body s) s = (r, s')" for r s'
    using sendFetch_calls [OF that] less.prems by (auto simp: confined_def turn_call_def)
  show ?case
  proof (cases rule: request_turn [of fetch current meth headers body s maxHops hops])
    case (stop r s')
    with sent show ?thesis by simp
  next
    case (follow r s' u)
    with sent [OF follow(1)] show ?thesis by (auto intro: less.hyps)
  qed
qed

lemma request_keeps: "keeps (confined Q) (request fetch maxHops hops current ''GET'' headers body)"
  by (auto simp: keeps_def intro: request_confined)

lemma request_constants:
  "fs_origin (snd (request fetch maxHops hops current meth headers body s)) = fs_origin s \<and>
   fs_loginPage (snd (request fetch maxHops hops current meth headers body s)) = fs_loginPage s"
proof (induction "nat (maxHops - hops)" arbitrary: hops current meth headers body s rule: less_induct)
  case less
  show ?case
  proof (cases rule: request_turn [of fetch current meth headers body s maxHops hops])
    case (stop r s')
    with sendFetch_calls [OF stop(1)] show ?thesis by simp
  next
    case (follow r s' u)
    with sendFetch_calls [OF follow(1)] show ?thesis by (simp add: less)
  qed
qed

lemma loadPage_keeps [keeps_intros]:
  "keeps (confined Q) load \<Longrightarrow> keeps (confined Q) (loadPage load)"
  unfolding loadPage_def pageOf_def
  by (intro keeps_intros) (auto simp: keeps_def setCurrentUrl_def confined_def)

lemma adapter_reads_keep [keeps_intros]:
  "keeps (confined Q) (snapshotPage fetch)" "keeps (confined Q) (gotoPage fetch t)"
  "keeps (confined Q) (resetLoginPage fetch)" "keeps (confined Q) absorbCookiesInto"
  "keeps (confined Q) closeFetchAdapter"
proof -
  have l: "keeps (confined Q) (loadPage (getPage fetch t))" for t
    unfolding getPage_def by (intro keeps_intros request_keeps)
  then show "keeps (confined Q) (snapshotPage fetch)" by (simp add: keeps_def snapshotPage_def)
  show "keeps (confined Q) (gotoPage fetch t)"
    using l by (auto simp: keeps_def gotoPage_def split: option.splits)
  have "keeps (confined Q) (andThen (loadPage (getPage fetch t)) (\<lambda>_. ret ()))" for t
    by (intro keeps_intros l)
  then show "keeps (confined Q) (resetLoginPage fetch)" by (simp add: keeps_def resetLoginPage_def)
  show "keeps (confined Q) absorbCookiesInto" by (simp add: keeps_def absorbCookiesInto_def)
  show "keeps (confined Q) closeFetchAdapter" by (simp add: keeps_def closeFetchAdapter_def confined_def)
qed

text \<open>A submission posts its body to the form action and nowhere else.\<close>

lemma submitLogin_confined:
  assumes "confined Q s"
    and "\<And>c. fc_url c = sb_formAction sb \<Longrightarrow> fc_method c = ''POST'' \<Longrightarrow> Q c"
  shows "confined Q (snd (submitLogin fetch sb s))"
proof -
  have post: "keeps (confined Q) (request fetch maxHops hops (sb_formAction sb) ''POST'' headers body)"
    for maxHops hops headers body
    unfolding keeps_def by (intro allI impI request_confined) (auto simp: turn_call_def intro: assms(2))
  have "keeps (confined Q)
     (andThen (getPage fetch (fs_currentUrl s)) (\<lambda>login.
      andThen (pageOf login) (\<lambda>_.
      andThen (call (hiddenValues [] (fst login) (sb_hiddenNames sb))) (\<lambda>hidden.
      loadPage (request fetch (sb_maxRedirectHops sb) 0 (sb_formAction sb) ''POST''
        [(''content-type'', ''application/x-www-form-urlencoded'')] (Some (loginBody sb hidden)))))))"
    unfolding getPage_def pageOf_def by (intro keeps_intros request_keeps post)
  then show ?thesis using assms(1) unfolding keeps_def submitLogin_def by blast
qed

subsection \<open>Properties\<close>

lemma pageOf_state: "snd (pageOf hu s) = s"
  by (auto simp: pageOf_def andThen_def call_def ret_def split: sum.splits)

lemma loadPage_calls: "fs_calls (snd (loadPage load s)) = fs_calls (snd (load s))"
  using pageOf_state by (auto simp: loadPage_def andThen_def setCurrentUrl_def split: prod.splits sum.splits)

lemma andThen_calls:
  assumes "length (fs_calls (snd (m s))) \<le> k"
    "\<And>x t. length (fs_calls t) \<le> k \<Longrightarrow> length (fs_calls (snd (f x t))) \<le> n" "k \<le> n"
  shows "length (fs_calls (snd (andThen m f s))) \<le> n"
  using assms by (fastforce simp: andThen_def split: prod.splits sum.splits)

text \<open>C19: loading a page ends after at most four requests, and a login after at most five more than
  the policy's redirect hops, whatever the sites answer: no redirect loop keeps an adapter busy.\<close>

theorem page_loads_bounded:
  "length (fs_calls (snd (snapshotPage fetch s))) \<le> length (fs_calls s) + 4 \<and>
   length (fs_calls (snd (submitLogin fetch sb s))) \<le> length (fs_calls s) + 5 + nat (sb_maxRedirectHops sb)"
proof
  have get: "length (fs_calls (snd (getPage fetch t s))) \<le> length (fs_calls s) + 4" for t
    using request_calls [of fetch 3 0 t "''GET''" "[]" None s] by (simp add: getPage_def)
  then show "length (fs_calls (snd (snapshotPage fetch s))) \<le> length (fs_calls s) + 4"
    by (simp add: snapshotPage_def loadPage_calls)
  have post: "length (fs_calls (snd (loadPage (request fetch (sb_maxRedirectHops sb) 0 u m h b) t))) \<le>
      length (fs_calls s) + 4 + (nat (sb_maxRedirectHops sb) + 1)"
    if "length (fs_calls t) \<le> length (fs_calls s) + 4" for u m h b t
    using request_calls [of fetch "sb_maxRedirectHops sb" 0 u m h b t] that by (simp add: loadPage_calls)
  have pure: "snd (call r t) = t" for r and t :: fetch_state
    by (simp add: call_def split: sum.split)
  have "length (fs_calls (snd (submitLogin fetch sb s))) \<le> (length (fs_calls s) + 4) + (nat (sb_maxRedirectHops sb) + 1)"
    unfolding submitLogin_def
  proof (rule andThen_calls [where k = "length (fs_calls s) + 4"])
    show "length (fs_calls (snd (getPage fetch (fs_currentUrl s) s))) \<le> length (fs_calls s) + 4" by (rule get)
  next
    fix login and t :: fetch_state
    assume t: "length (fs_calls t) \<le> length (fs_calls s) + 4"
    show "length (fs_calls (snd (andThen (pageOf login) (\<lambda>_. andThen (call (hiddenValues [] (fst login) (sb_hiddenNames sb)))
        (\<lambda>hidden. loadPage (request fetch (sb_maxRedirectHops sb) 0 (sb_formAction sb) ''POST''
          [(''content-type'', ''application/x-www-form-urlencoded'')] (Some (loginBody sb hidden))))) t)))
      \<le> (length (fs_calls s) + 4) + (nat (sb_maxRedirectHops sb) + 1)"
      using t by (intro andThen_calls [where k = "length (fs_calls s) + 4"] post) (simp_all add: pageOf_state pure)
  qed simp
  then show "length (fs_calls (snd (submitLogin fetch sb s))) \<le> length (fs_calls s) + 5 + nat (sb_maxRedirectHops sb)"
    by simp
qed




end
