(* ===== verification/OwnedBrowser.thy ===== *)
theory OwnedBrowser
  imports PageAdapter SessionCore
begin

text \<open>
  The bridge-owned browser (\<open>bridge-owned-browser.mjs\<close>): the agent lists candidates, chooses
  among them by index, and has the bridge inject the credential; cookies stay in the adapter.
  Requests run one after the other (the code chains them), so a request is one step here; a
  close that overlaps a request is not interleaved with it.
\<close>

definition MAX_BRIDGE_OWNED_BROWSERS :: nat where "MAX_BRIDGE_OWNED_BROWSERS = 1"

subsection \<open>The session\<close>

datatype driver = Fetch | Playwright

record 'a owned =
  ow_policy :: browser_policy
  ow_credentials :: basic_credentials
  ow_adapter :: 'a
  ow_sensitive :: "string list"
  ow_id :: string
  ow_created :: int
  ow_lastUsed :: int
  ow_closed :: bool
  ow_ended :: bool
  ow_loggedIn :: bool
  ow_passwordEntry :: bool
  ow_generation :: int
  ow_snapshot :: "snapshot option"
  ow_authorized :: "authorized option"
  ow_driver :: driver
  ow_headless :: bool
  ow_baseUrl :: string
  ow_logs :: "session_log list"

definition sensitiveForms :: "string \<Rightarrow> string list" where
  "sensitiveForms v =
     [v, encodeURIComponent v, replaceAll ''%20'' ''+'' (encodeURIComponent v), base64 v, base64url v]"

definition buildCredentialSensitiveVariants :: "basic_credentials \<Rightarrow> string list" where
  "buildCredentialSensitiveVariants c =
     jsSet (filter (\<lambda>v. 8 \<le> length v)
       (concat (map sensitiveForms [username c, password c, username c @ '':'' @ password c])))"

definition hasSensitive :: "string \<Rightarrow> string list \<Rightarrow> bool" where
  "hasSensitive text sensitive = list_ex (\<lambda>v. 8 \<le> length v \<and> contains text v) sensitive"

definition redactVariant :: "string \<Rightarrow> string \<Rightarrow> string" where
  "redactVariant s v = (if 8 \<le> length v then replaceAll v ''[REDACTED]'' s else s)"

definition ownedLog :: "string \<Rightarrow> string \<Rightarrow> 'a owned \<Rightarrow> 'a owned" where
  "ownedLog level message s =
     s\<lparr>ow_logs := ow_logs s @ [\<lparr>sl_level = level, sl_message = foldl redactVariant message (ow_sensitive s), sl_meta = None\<rparr>]\<rparr>"

definition bumpGeneration :: "('a owned, unit) act" where
  "bumpGeneration s =
     (Inr (), s\<lparr>ow_generation := ow_generation s + 1, ow_snapshot := None, ow_authorized := None\<rparr>)"

definition getState :: "('a owned \<Rightarrow> 'x) \<Rightarrow> ('a owned, 'x) act" where
  "getState f s = (Inr (f s), s)"

definition putState :: "('a owned \<Rightarrow> 'a owned) \<Rightarrow> ('a owned, unit) act" where
  "putState f s = (Inr (), f s)"

definition onAdapter :: "('a, 'x) act \<Rightarrow> ('a owned, 'x) act" where
  "onAdapter m s = (let (r, a) = m (ow_adapter s) in (r, s\<lparr>ow_adapter := a\<rparr>))"

text \<open>\<open>await adapter.absorbCookiesInto(sensitive)\<close>\<close>

definition absorbCookies :: "'a adapter \<Rightarrow> ('a owned, unit) act" where
  "absorbCookies ad =
     andThen (onAdapter (ad_absorbCookies ad)) (\<lambda>vs.
     putState (\<lambda>s. s\<lparr>ow_sensitive := jsSetFrom (ow_sensitive s) vs\<rparr>))"

subsection \<open>Answers\<close>

datatype answer =
    JsonAnswer session_response
  | PngAnswer "(string \<times> string) list" bytes

definition writeOwnedJson :: "string list \<Rightarrow> jsval \<Rightarrow> answer" where
  "writeOwnedJson sensitive payload =
     (let body = stringify payload
      in if hasSensitive body sensitive then JsonAnswer (writeFixed 502 ''sensitive_response_blocked'')
         else if contains (toLowerCase body) ([CHR 0x22] @ ''set-cookie'' @ [CHR 0x22]) \<or>
                 contains (toLowerCase body) ''cookie=''
           then JsonAnswer (writeFixed 502 ''sensitive_response_blocked'')
         else JsonAnswer \<lparr>sr_status = 200, sr_body = body\<rparr>)"

definition SAFE_SCREENSHOT_PATH :: "string \<Rightarrow> bool" where
  "SAFE_SCREENSHOT_PATH = name_pattern (\<lambda>c. c = CHR ''/'') (\<lambda>c. is_alpha c \<or> is_digit c \<or> c \<in> set ''/_.-'') 127"

text \<open>The two decodings of the image contain an ASCII text exactly when its bytes do.\<close>

definition writePng :: "string list \<Rightarrow> bytes \<Rightarrow> bool \<Rightarrow> string \<Rightarrow> answer" where
  "writePng sensitive png loggedIn pth =
     (if hasSensitive png sensitive \<or> hasSensitive (base64 png) sensitive
      then JsonAnswer (writeFixed 502 ''sensitive_response_blocked'')
      else if \<not> SAFE_SCREENSHOT_PATH pth then JsonAnswer (writeFixed 502 ''adapter_failed'')
      else PngAnswer [(''content-type'', ''image/png''), (''content-length'', show_nat (length png)),
                      (''cache-control'', ''no-store''), (''x-bridge-logged-in'', if loggedIn then ''true'' else ''false''),
                      (''x-bridge-path'', pth)] png)"

definition statusFor :: "string \<Rightarrow> int" where
  "statusFor c =
     (if c \<in> {''session_expired'', ''not_logged_in''} then 401
      else if c \<in> {''command_forbidden'', ''session_material_forbidden'', ''path_denied'', ''already_logged_in'',
                   ''password_entry_active''} then 403
      else if c \<in> {''mfa_required'', ''captcha_required'', ''challenge_blocked''} then 403
      else if c \<in> {''success_path_mismatch'', ''login_failed''} then 401 else 400)"

definition respond :: "jsval \<Rightarrow> ('a owned, answer) act" where
  "respond payload s = (Inr (writeOwnedJson (ow_sensitive s) payload), s)"

definition titleOf :: "string \<Rightarrow> string" where
  "titleOf html =
     (case (case find_element ''h1'' html of Some e \<Rightarrow> Some e | None \<Rightarrow> find_element ''title'' html) of
        None \<Rightarrow> [] | Some (_, inner, _) \<Rightarrow> take 64 (trim (stripTags inner)))"

definition opFromPath :: "string \<Rightarrow> string \<Rightarrow> string" where
  "opFromPath meth pth =
     (if meth = ''GET'' \<and> pth = ''/status'' then ''status''
      else if meth = ''GET'' \<and> pth = ''/contract'' then ''contract''
      else if meth = ''GET'' \<and> pth = ''/snapshot'' then ''snapshot''
      else if meth = ''GET'' \<and> pth = ''/screenshot'' then ''screenshot''
      else if meth = ''POST'' \<and> pth = ''/select_targets'' then ''select_targets''
      else if meth = ''POST'' \<and> pth = ''/inject_login'' then ''inject_login''
      else if meth = ''POST'' \<and> pth = ''/goto'' then ''goto''
      else if 1 < length pth then drop 1 pth else ''unknown'')"

subsection \<open>Bodies\<close>

text \<open>\<open>None\<close> while the body is neither complete nor refused.\<close>

fun readOwnedBody :: "nat \<Rightarrow> bytes \<Rightarrow> read_event list \<Rightarrow> (thrown + string) option" where
  "readOwnedBody maxBytes acc [] = None"
| "readOwnedBody maxBytes acc (ReadData c # es) =
     (if maxBytes < length acc + length c then Some (Inl (Coded ''invalid_request''))
      else readOwnedBody maxBytes (acc @ c) es)"
| "readOwnedBody maxBytes acc (ReadEnd # es) = Some (Inr acc)"
| "readOwnedBody maxBytes acc (ReadError # es) = Some (Inl Uncoded)"

definition parseJsonObject :: "thrown + string \<Rightarrow> thrown + jsval" where
  "parseJsonObject body =
     (case body of
        Inl e \<Rightarrow> Inl e
      | Inr raw \<Rightarrow>
          if raw = [] then Inr (JObj [])
          else (case json_parse raw of
                  None \<Rightarrow> Inl (Coded ''invalid_request'')
                | Some v \<Rightarrow> if is_object v then Inr v else Inl (Coded ''invalid_request'')))"

definition fromBody :: "thrown + 'x \<Rightarrow> ('s, 'x) act" where
  "fromBody r s = (r, s)"

subsection \<open>Operations\<close>

fun kindName :: "candidate_kind \<Rightarrow> string" where
  "kindName KUsername = ''username''"
| "kindName KPassword = ''password''"
| "kindName KSubmit = ''submit''"

fun challengeName :: "challenge \<Rightarrow> string" where
  "challengeName NoChallenge = ''none''"
| "challengeName Mfa = ''mfa''"
| "challengeName Captcha = ''captcha''"

fun driverName :: "driver \<Rightarrow> string" where
  "driverName Fetch = ''fetch''"
| "driverName Playwright = ''playwright''"

definition candidateJson :: "candidate \<Rightarrow> jsval" where
  "candidateJson c = JObj [(''index'', JNum (int (ca_index c))), (''kind'', JStr (kindName (ca_kind c))),
                           (''name'', JStr (ca_name c))]"

definition ownedStatus :: "'a owned \<Rightarrow> jsval" where
  "ownedStatus s = JObj
     [(''ok'', JBool True), (''logged_in'', JBool (ow_loggedIn s)), (''origin_bound'', JBool True),
      (''agent_cdp_absent'', JBool True), (''cookie_export_forbidden'', JBool True),
      (''screenshot_password_entry_forbidden'', JBool True),
      (''screenshot_unsupported'', JBool (ow_driver s = Fetch)), (''driver'', JStr (driverName (ow_driver s))),
      (''headless'', JBool (ow_headless s)), (''authorization_ready'', JBool False),
      (''helper_vault_free'', JBool True), (''agent_secret_visible'', JBool False),
      (''session_id'', JStr (ow_id s)), (''allowed_ops'', strings ALLOWED_AGENT_OPS)]"

definition ownedContract :: "'a owned \<Rightarrow> jsval" where
  "ownedContract s = JObj
     [(''ok'', JBool True), (''allowed_ops'', strings ALLOWED_AGENT_OPS),
      (''forbidden_ops'', strings FORBIDDEN_AGENT_OPS),
      (''allowed_paths'', strings (bp_allowed_paths (ow_policy s))),
      (''login_path'', JStr (login_path (ow_policy s))), (''success_path'', JStr (success_path (ow_policy s))),
      (''error_codes'', strings AGENT_ERROR_CODES), (''inject_login_body'', strings [''empty'', ''generation'']),
      (''cookie_export_forbidden'', JBool True), (''screenshot_password_entry_forbidden'', JBool True),
      (''screenshot_unsupported'', JBool (ow_driver s = Fetch)), (''screenshot_media_type'', JStr ''image/png''),
      (''screenshot_json_pixels_absent'', JBool True), (''driver'', JStr (driverName (ow_driver s))),
      (''headless'', JBool (ow_headless s)), (''agent_cdp_absent'', JBool True),
      (''authorization_ready'', JBool False), (''helper_vault_free'', JBool True)]"

definition challengeCode :: "challenge \<Rightarrow> string" where
  "challengeCode c = (if c = Mfa then ''mfa_required'' else ''captcha_required'')"

definition handleSnapshot :: "'a adapter \<Rightarrow> ('a owned, answer) act" where
  "handleSnapshot ad =
     andThen (onAdapter (ad_snapshotPage ad)) (\<lambda>page.
     andThen (absorbCookies ad) (\<lambda>_.
     andThen bumpGeneration (\<lambda>_.
     let facts = pg_facts page; candidates = enumerateAgentCandidates facts in
     andThen (guard (fa_challenge facts = NoChallenge) (challengeCode (fa_challenge facts))) (\<lambda>_.
     andThen (putState (\<lambda>s. s\<lparr>ow_snapshot := Some \<lparr>sn_generation = ow_generation s, sn_origin = fa_origin facts,
         sn_candidates = candidates, sn_form_action = fa_form_action facts\<rparr>\<rparr>)) (\<lambda>_.
     andThen (getState (\<lambda>s. s)) (\<lambda>s.
     andThen (guard (\<not> (ow_loggedIn s \<and> fa_path facts \<noteq> success_path (ow_policy s) \<and>
         fa_path facts \<notin> set (bp_allowed_paths (ow_policy s)))) ''path_denied'') (\<lambda>_.
     respond (JObj
       [(''ok'', JBool True), (''logged_in'', JBool (ow_loggedIn s)), (''generation'', JNum (ow_generation s)),
        (''origin'', JStr (fa_origin facts)), (''path'', JStr (fa_path facts)),
        (''challenge'', JStr (challengeName (fa_challenge facts))),
        (''candidates'', JArr (map candidateJson candidates)), (''title'', JStr (titleOf (pg_html page)))]))))))))"

definition handleSelect :: "thrown + string \<Rightarrow> ('a owned, answer) act" where
  "handleSelect body =
     andThen (fromBody (parseJsonObject body)) (\<lambda>raw.
     andThen (call (parseTargetSelection raw)) (\<lambda>sel.
     andThen (getState (\<lambda>s. s)) (\<lambda>s.
     case ow_snapshot s of
       None \<Rightarrow> raise (Coded ''stale_generation'')
     | Some snap \<Rightarrow>
         andThen (call (authorizeTargetSelection snap sel (ow_policy s))) (\<lambda>au.
         andThen (putState (\<lambda>s. s\<lparr>ow_authorized := Some au\<rparr>)) (\<lambda>_.
         respond (JObj
           [(''ok'', JBool True), (''selected'', JBool True), (''generation'', JNum (sel_generation sel)),
            (''username_kind'', JStr (kindName (ca_kind (au_username au)))),
            (''password_kind'', JStr (kindName (ca_kind (au_password au)))),
            (''submit_kind'', JStr (kindName (ca_kind (au_submit au))))]))))))"

definition submissionOf :: "'a owned \<Rightarrow> authorized \<Rightarrow> page_facts \<Rightarrow> submission" where
  "submissionOf s au live =
     \<lparr>sb_formAction = fa_form_action live, sb_usernameField = ca_name (au_username au),
      sb_passwordField = ca_name (au_password au), sb_username = username (ow_credentials s),
      sb_password = password (ow_credentials s), sb_hiddenNames = hidden_fields (ow_policy s),
      sb_maxRedirectHops = max_redirect_hops (ow_policy s), sb_submitLabel = ca_name (au_submit au)\<rparr>"

text \<open>The body of the \<open>try\<close> of \<open>handleInject\<close>.\<close>

definition performInject :: "'a adapter \<Rightarrow> authorized \<Rightarrow> ('a owned, answer) act" where
  "performInject ad au =
     andThen (onAdapter (ad_snapshotPage ad)) (\<lambda>live.
     andThen (getState (\<lambda>s. s)) (\<lambda>s.
     andThen (call (assertInjectSafe (pg_facts live) au (ow_policy s))) (\<lambda>_.
     andThen (guard (fa_challenge (pg_facts live) = NoChallenge) (challengeCode (fa_challenge (pg_facts live)))) (\<lambda>_.
     andThen (onAdapter (ad_submitLogin ad (submissionOf s au (pg_facts live)))) (\<lambda>submitted.
     andThen (absorbCookies ad) (\<lambda>_.
     case (newURL (pg_url submitted), newURL (login_origin (ow_policy s))) of
       (Some landed, Some u) \<Rightarrow>
         andThen (guard (origin landed = origin u) ''origin_mismatch'') (\<lambda>_.
         andThen (guard (pathname landed = success_path (ow_policy s)) ''success_path_mismatch'') (\<lambda>_.
         andThen (putState (\<lambda>s. s\<lparr>ow_loggedIn := True\<rparr>)) (\<lambda>_.
         andThen bumpGeneration (\<lambda>_.
         respond (JObj
           [(''ok'', JBool True), (''logged_in'', JBool True), (''origin_bound'', JBool True),
            (''cookie_export_forbidden'', JBool True), (''agent_secret_visible'', JBool False)])))))
     | _ \<Rightarrow> raise Uncoded))))))"

definition resetAfter :: "'a adapter \<Rightarrow> 'a owned \<Rightarrow> 'a owned" where
  "resetAfter ad s =
     (case ad_resetLoginPage ad of None \<Rightarrow> s | Some m \<Rightarrow> s\<lparr>ow_adapter := snd (m (ow_adapter s))\<rparr>)"

text \<open>\<open>try ... catch (reset, rethrow) finally (clear the flag)\<close>\<close>

definition injecting :: "'a adapter \<Rightarrow> authorized \<Rightarrow> ('a owned, answer) act" where
  "injecting ad au s =
     (case performInject ad au (s\<lparr>ow_passwordEntry := True\<rparr>) of
        (Inr x, s') \<Rightarrow> (Inr x, s'\<lparr>ow_passwordEntry := False\<rparr>)
      | (Inl e, s') \<Rightarrow> (Inl e, (resetAfter ad s')\<lparr>ow_passwordEntry := False\<rparr>))"

definition handleInject :: "'a adapter \<Rightarrow> thrown + string \<Rightarrow> ('a owned, answer) act" where
  "handleInject ad body =
     andThen (fromBody (parseJsonObject body)) (\<lambda>raw.
     let keys = own_keys raw in
     andThen (guard (\<not> (1 < length keys \<or> (length keys = 1 \<and> hd keys \<noteq> ''generation''))) ''extra_field_forbidden'') (\<lambda>_.
     andThen (getState (\<lambda>s. s)) (\<lambda>s.
     andThen (guard (\<not> ow_loggedIn s) ''already_logged_in'') (\<lambda>_.
     case (ow_authorized s, ow_snapshot s) of
       (Some au, Some snap) \<Rightarrow>
         andThen (guard (\<not> (length keys = 1 \<and> getProp raw ''generation'' \<noteq> JNum (sn_generation snap))) ''stale_generation'')
           (\<lambda>_. injecting ad au)
     | _ \<Rightarrow> raise (Coded ''inject_before_select'')))))"

definition handleGoto :: "'a adapter \<Rightarrow> thrown + string \<Rightarrow> ('a owned, answer) act" where
  "handleGoto ad body =
     andThen (fromBody (parseJsonObject body)) (\<lambda>raw.
     case str_of (getProp raw ''path'') of
       None \<Rightarrow> raise (Coded ''invalid_request'')
     | Some pth \<Rightarrow>
         andThen (guard (own_keys raw = [''path'']) ''invalid_request'') (\<lambda>_.
         andThen (getState (\<lambda>s. s)) (\<lambda>s.
         andThen (guard (ow_loggedIn s) ''not_logged_in'') (\<lambda>_.
         andThen (guard (pth \<in> set (bp_allowed_paths (ow_policy s))) ''path_denied'') (\<lambda>_.
         case newURL_at pth (login_origin (ow_policy s) @ ''/'') of
           None \<Rightarrow> raise Uncoded
         | Some target \<Rightarrow>
             andThen (onAdapter (ad_goto ad (href target))) (\<lambda>page.
             andThen (absorbCookies ad) (\<lambda>_.
             andThen bumpGeneration (\<lambda>_.
             respond (JObj
               [(''ok'', JBool True), (''logged_in'', JBool True), (''path'', JStr (fa_path (pg_facts page))),
                (''title'', JStr (titleOf (pg_html page)))]))))))))) "

definition handleScreenshot :: "'a adapter \<Rightarrow> ('a owned, answer) act" where
  "handleScreenshot ad =
     andThen (getState (\<lambda>s. s)) (\<lambda>s.
     andThen (guard (\<not> ow_passwordEntry s) ''password_entry_active'') (\<lambda>_.
     case ad_screenshotPage ad of
       None \<Rightarrow> raise (Coded ''screenshot_unsupported'')
     | Some shoot \<Rightarrow>
         andThen (case ad_occupied ad of None \<Rightarrow> ret False | Some m \<Rightarrow> onAdapter m) (\<lambda>occupied.
         andThen (guard (\<not> occupied) ''password_entry_active'') (\<lambda>_.
         andThen (onAdapter shoot) (\<lambda>image.
         case image of
           None \<Rightarrow> raise (Coded ''adapter_failed'')
         | Some png \<Rightarrow>
             andThen (getState (\<lambda>s. s)) (\<lambda>s.
             case newURL (ad_currentUrl ad (ow_adapter s)) of
               None \<Rightarrow> raise (Coded ''adapter_failed'')
             | Some u \<Rightarrow> ret (writePng (ow_sensitive s) png (ow_loggedIn s) (pathname u))))))))"

subsection \<open>Requests\<close>

datatype handled_owned = Answered answer | Stalled | Rejected

definition codeOf :: "thrown \<Rightarrow> string" where
  "codeOf e = (case e of Coded c \<Rightarrow> c | Uncoded \<Rightarrow> ''adapter_failed'')"

definition needsBody :: "string \<Rightarrow> bool" where
  "needsBody op \<longleftrightarrow> op \<in> {''select_targets'', ''inject_login'', ''goto''}"

definition dispatch :: "'a adapter \<Rightarrow> string \<Rightarrow> string \<Rightarrow> thrown + string \<Rightarrow> ('a owned, answer) act" where
  "dispatch ad op meth body =
     (if op = ''status'' \<and> meth = ''GET'' then andThen (getState ownedStatus) respond
      else if op = ''contract'' \<and> meth = ''GET'' then andThen (getState ownedContract) respond
      else if op = ''snapshot'' \<and> meth = ''GET'' then handleSnapshot ad
      else if op = ''select_targets'' \<and> meth = ''POST'' then handleSelect body
      else if op = ''inject_login'' \<and> meth = ''POST'' then handleInject ad body
      else if op = ''goto'' \<and> meth = ''POST'' then handleGoto ad body
      else if op = ''screenshot'' \<and> meth = ''GET'' then handleScreenshot ad
      else ret (JsonAnswer (writeFixed 404 ''not_found'')))"

text \<open>\<open>Stalled\<close> is a body that never completes; the requests behind it wait as well. \<open>Rejected\<close> is
  the exception of the URL constructor, which no handler catches.\<close>

definition handleAgentRequest :: "'a adapter \<Rightarrow> 'a owned \<Rightarrow> session_request \<Rightarrow> handled_owned \<times> 'a owned" where
  "handleAgentRequest ad s q =
     (if ow_closed s then (Answered (JsonAnswer (writeFixed 503 ''session_closed'')), s)
      else if bp_session_ttl_ms (ow_policy s) < q_now q - ow_created s \<or>
              bp_idle_ttl_ms (ow_policy s) < q_now q - ow_lastUsed s
        then (Answered (JsonAnswer (writeFixed 401 ''session_expired'')), s)
      else let s' = s\<lparr>ow_lastUsed := q_now q\<rparr>
           in case newURL_at (q_url q) ''http://127.0.0.1'' of
                None \<Rightarrow> (Rejected, s')
              | Some u \<Rightarrow>
                  (let op = opFromPath (q_method q) (pathname u)
                   in case denyAgentOp op of
                        Some c \<Rightarrow> (Answered (JsonAnswer (writeFixed 403 c)), s')
                      | None \<Rightarrow>
                          (case (if needsBody op \<and> q_method q = ''POST''
                                 then readOwnedBody 4096 [] (q_events q) else Some (Inr [])) of
                             None \<Rightarrow> (Stalled, s')
                           | Some body \<Rightarrow>
                               (case dispatch ad op (q_method q) body s' of
                                  (Inr x, t) \<Rightarrow> (Answered x, t)
                                | (Inl e, t) \<Rightarrow>
                                    (Answered (JsonAnswer (writeFixed (statusFor (codeOf e)) (codeOf e))),
                                     ownedLog ''error'' ''bridge-owned browser op failed'' t)))))"

subsection \<open>Start and close\<close>

record owned_options =
  oo_policy :: jsval
  oo_credentials :: jsval
  oo_driver :: jsval
  oo_headless :: jsval

definition driverOf :: "jsval \<Rightarrow> driver option" where
  "driverOf v =
     (if v = JUndef \<or> v = JNull \<or> v = JStr ''fetch'' then Some Fetch
      else if v = JStr ''playwright'' then Some Playwright else None)"

text \<open>What a start has validated before its first \<open>await\<close>, and a started session.\<close>

datatype 'a lease =
    Starting browser_policy basic_credentials driver bool
  | Running "'a owned"

definition ownedBegin :: "nat \<Rightarrow> owned_options \<Rightarrow> nat \<times> (string + 'a lease)" where
  "ownedBegin active opts =
     (if MAX_BRIDGE_OWNED_BROWSERS \<le> active then (active, Inl ''concurrent_session_forbidden'')
      else case validatePolicy (oo_policy opts) of
        Inl _ \<Rightarrow> (active, Inl ''invalid_policy'')
      | Inr (BrowserFormLoginPolicy p) \<Rightarrow>
          (case validateBasicCredentials (oo_credentials opts) of
             Inl _ \<Rightarrow> (active, Inl ''invalid_credentials'')
           | Inr c \<Rightarrow>
               (case driverOf (oo_driver opts) of
                  None \<Rightarrow> (active, Inl ''invalid_request'')
                | Some d \<Rightarrow>
                    if d = Fetch \<and> oo_headless opts = JBool False then (active, Inl ''invalid_request'')
                    else (active + 1, Inr (Starting p c d (d = Fetch \<or> oo_headless opts \<noteq> JBool False)))))
      | Inr _ \<Rightarrow> (active, Inl ''wrong_broker''))"

record 'a owned_env =
  oe_adapter :: "thrown + 'a"
  oe_random :: bytes
  oe_now :: int
  oe_listen :: "string \<Rightarrow> nat \<Rightarrow> unit + nat option"

definition freshSession :: "browser_policy \<Rightarrow> basic_credentials \<Rightarrow> driver \<Rightarrow> bool \<Rightarrow> 'a \<Rightarrow> bytes \<Rightarrow> int \<Rightarrow> 'a owned" where
  "freshSession p c d headless a random now =
     \<lparr>ow_policy = p, ow_credentials = c, ow_adapter = a, ow_sensitive = buildCredentialSensitiveVariants c,
      ow_id = hex_string random, ow_created = now, ow_lastUsed = now, ow_closed = False, ow_ended = False,
      ow_loggedIn = False, ow_passwordEntry = False, ow_generation = 0, ow_snapshot = None,
      ow_authorized = None, ow_driver = d, ow_headless = headless, ow_baseUrl = [], ow_logs = []\<rparr>"

text \<open>The adapter is created, then the server listens. The URL of \<open>bind\<close> parses for every accepted
  policy, so its branch for a throwing constructor is never taken.\<close>

definition ownedFinish :: "nat \<Rightarrow> 'a lease \<Rightarrow> 'a owned_env \<Rightarrow> nat \<times> (string + 'a lease)" where
  "ownedFinish active l env =
     (case l of
        Running s \<Rightarrow> (active, Inr (Running s))
      | Starting p c d headless \<Rightarrow>
          (case oe_adapter env of
             Inl (Coded e) \<Rightarrow> (active - 1, Inl e)
           | Inl Uncoded \<Rightarrow> (active - 1, Inl ''playwright_launch_failed'')
           | Inr a \<Rightarrow>
               (case newURL (bp_bind p) of
                  None \<Rightarrow> (active - 1, Inl ''bind_failed'')
                | Some u \<Rightarrow>
                    (case oe_listen env (u_host u) (read_nat (port_str u) 0) of
                       Inl _ \<Rightarrow> (active - 1, Inl ''bind_failed'')
                     | Inr None \<Rightarrow> (active - 1, Inl ''bind_failed'')
                     | Inr (Some n) \<Rightarrow>
                         (active, Inr (Running ((freshSession p c d headless a (oe_random env) (oe_now env))
                            \<lparr>ow_baseUrl := ''http://'' @ u_host u @ '':'' @ show_nat n,
                             ow_logs := [\<lparr>sl_level = ''info'',
                               sl_message = foldl redactVariant ''bridge-owned browser listening''
                                 (buildCredentialSensitiveVariants c),
                               sl_meta = Some (JObj [(''bind'', JStr (foldl redactVariant
                                 (''http://'' @ u_host u @ '':'' @ show_nat n)
                                 (buildCredentialSensitiveVariants c)))])\<rparr>]\<rparr>)))))))"

text \<open>A close stops the requests at once and gives the slot back when the adapter and the server
  have closed; only then are the credential forms dropped. Further calls do nothing.\<close>

definition closeBegins :: "'a owned \<Rightarrow> 'a owned" where
  "closeBegins s = s\<lparr>ow_closed := True\<rparr>"

definition closeEnds :: "'a adapter \<Rightarrow> 'a owned \<Rightarrow> 'a owned" where
  "closeEnds ad s = s\<lparr>ow_adapter := snd (ad_close ad (ow_adapter s)), ow_ended := True, ow_sensitive := []\<rparr>"

fun ended :: "'a lease \<Rightarrow> bool" where
  "ended (Starting p c d h) = False"
| "ended (Running s) = ow_ended s"

fun running :: "'a lease \<Rightarrow> bool" where
  "running (Starting p c d h) = False"
| "running (Running s) = True"

text \<open>Only a started session has a handle to close.\<close>

fun ownedClose :: "'a adapter \<Rightarrow> nat \<Rightarrow> 'a lease \<Rightarrow> nat \<times> 'a lease" where
  "ownedClose ad active (Running s) =
     (if ow_ended s then (active, Running s) else (active - 1, Running (closeEnds ad (closeBegins s))))"
| "ownedClose ad active (Starting p c d h) = (active, Starting p c d h)"

end
