(* ===== verification/OwnedFacts.thy ===== *)
theory OwnedFacts
  imports OwnedBrowser PolicyFacts
begin

text \<open>
  What the bridge-owned browser guarantees for every adapter: the abstract state machine of a
  login and the refinement of the request handler to it, the invariant of a selection, the
  answers an agent can get, the session count, and, with the fetch-backed adapter, where a
  credential is sent.
\<close>

subsection \<open>Running a computation\<close>

lemma act_simps [simp]:
  "andThen (ret x) f1 s1 = f1 x s1"
  "andThen (raise e) f2 s2 = (Inl e, s2)"
  "andThen (guard b c) f3 s3 = (if b then f3 () s3 else (Inl (Coded c), s3))"
  "andThen (getState g) f4 s4 = f4 (g s4) s4"
  "andThen (putState h) f5 s5 = f5 () (h s5)"
  "andThen bumpGeneration f6 s6 =
     f6 () (s6\<lparr>ow_generation := ow_generation s6 + 1, ow_snapshot := None, ow_authorized := None\<rparr>)"
  "andThen (call r) f7 s7 = (case r of Inl e \<Rightarrow> (Inl (Coded e), s7) | Inr x \<Rightarrow> f7 x s7)"
  "andThen (fromBody q) f8 s8 = (case q of Inl e \<Rightarrow> (Inl e, s8) | Inr x \<Rightarrow> f8 x s8)"
  by (auto simp: andThen_def ret_def raise_def guard_def getState_def putState_def bumpGeneration_def call_def
      fromBody_def split: sum.splits)

subsection \<open>The abstract login\<close>

record core =
  co_generation :: int
  co_snapshot :: "snapshot option"
  co_authorized :: "authorized option"
  co_loggedIn :: bool

definition core :: "'a owned \<Rightarrow> core" where
  "core s = \<lparr>co_generation = ow_generation s, co_snapshot = ow_snapshot s,
             co_authorized = ow_authorized s, co_loggedIn = ow_loggedIn s\<rparr>"

definition snapshotOf :: "int \<Rightarrow> page_facts \<Rightarrow> snapshot" where
  "snapshotOf n facts = \<lparr>sn_generation = n, sn_origin = fa_origin facts,
     sn_candidates = enumerateAgentCandidates facts, sn_form_action = fa_form_action facts\<rparr>"

definition forgotten :: "core \<Rightarrow> core" where
  "forgotten c = c\<lparr>co_generation := co_generation c + 1, co_snapshot := None, co_authorized := None\<rparr>"

text \<open>What one request may do to a login: nothing; forget the page; list an unchallenged page
  under a new generation; record a choice that is authorized against the list; or, with a
  choice recorded and a live page that passes the check, log in and forget the page.\<close>

inductive core_step :: "browser_policy \<Rightarrow> core \<Rightarrow> core \<Rightarrow> bool" for p where
  Stay: "core_step p c c"
| Forget: "core_step p c (forgotten c)"
| Listing: "fa_challenge facts = NoChallenge \<Longrightarrow>
    core_step p c ((forgotten c)\<lparr>co_snapshot := Some (snapshotOf (co_generation c + 1) facts)\<rparr>)"
| Choose: "co_snapshot c = Some snap \<Longrightarrow> authorizeTargetSelection snap sel p = Inr au \<Longrightarrow>
    core_step p c (c\<lparr>co_authorized := Some au\<rparr>)"
| Login: "\<not> co_loggedIn c \<Longrightarrow> co_snapshot c = Some snap \<Longrightarrow> co_authorized c = Some au \<Longrightarrow>
    assertInjectSafe live au p = Inr () \<Longrightarrow> core_step p c ((forgotten c)\<lparr>co_loggedIn := True\<rparr>)"

inductive_cases core_stepE: "core_step p c c'"

lemma core_updates [simp]:
  "core (s\<lparr>ow_adapter := a\<rparr>) = core s" "core (s\<lparr>ow_sensitive := vs\<rparr>) = core s"
  "core (s\<lparr>ow_lastUsed := n\<rparr>) = core s" "core (s\<lparr>ow_passwordEntry := b\<rparr>) = core s"
  "core (ownedLog l m s) = core s" "core (closeBegins s) = core s" "core (closeEnds ad s) = core s"
  "core (resetAfter ad s) = core s"
  by (auto simp: core_def ownedLog_def closeBegins_def closeEnds_def resetAfter_def split: option.splits)

text \<open>The adapter changes neither the core nor the constants of a session.\<close>

definition same_login :: "'a owned \<Rightarrow> 'a owned \<Rightarrow> bool" where
  "same_login s t \<longleftrightarrow> core t = core s \<and> ow_policy t = ow_policy s \<and> ow_credentials t = ow_credentials s \<and>
     ow_closed t = ow_closed s \<and> ow_ended t = ow_ended s \<and> ow_passwordEntry t = ow_passwordEntry s \<and>
     set (ow_sensitive s) \<subseteq> set (ow_sensitive t)"

lemma same_login_refl [simp]: "same_login s s"
  by (simp add: same_login_def)

lemma onAdapter_same: "onAdapter m s = (r, t) \<Longrightarrow> same_login s t"
  by (auto simp: onAdapter_def same_login_def split: prod.splits)

lemma absorbCookies_same: "absorbCookies ad s = (r, t) \<Longrightarrow> same_login s t"
  by (auto simp: absorbCookies_def andThen_def putState_def same_login_def onAdapter_def set_jsSetFrom
      split: prod.splits sum.splits)

lemma same_login_trans: "same_login s t \<Longrightarrow> same_login t u \<Longrightarrow> same_login s u"
  by (auto simp: same_login_def)

text \<open>A computation whose first step leaves the login alone: it fails there, or goes on.\<close>

lemma andThen_same:
  assumes "\<And>r t. m s = (r, t) \<Longrightarrow> same_login s t"
  obtains (fails) e t where "andThen m f s = (Inl e, t)" "same_login s t"
  | (goes) x t where "andThen m f s = f x t" "same_login s t"
  using assms by (cases "m s"; cases "fst (m s)") (auto simp: andThen_def)

definition session_step :: "'a owned \<Rightarrow> 'a owned \<Rightarrow> bool" where
  "session_step s t \<longleftrightarrow> core_step (ow_policy s) (core s) (core t) \<and> ow_policy t = ow_policy s \<and>
     ow_credentials t = ow_credentials s \<and> ow_closed t = ow_closed s \<and> ow_ended t = ow_ended s \<and>
     ow_passwordEntry t = ow_passwordEntry s \<and> set (ow_sensitive s) \<subseteq> set (ow_sensitive t)"

lemma session_same [simp]: "same_login s t \<Longrightarrow> session_step s t"
  by (simp add: same_login_def session_step_def core_step.Stay)

lemma session_step_refl [simp]: "session_step s s"
  by simp

lemma same_session: "same_login s t \<Longrightarrow> session_step t u \<Longrightarrow> session_step s u"
  by (auto simp: same_login_def session_step_def)


lemma step_after_same:
  assumes "\<And>r t. m s = (r, t) \<Longrightarrow> same_login s t" "\<And>x t. same_login s t \<Longrightarrow> session_step t (snd (f x t))"
  shows "session_step s (snd (andThen m f s))"
  using assms(1) by (cases rule: andThen_same [of m s f]) (auto intro: same_session assms(2))

lemma step_adapter: "(\<And>x t. session_step t (snd (f x t))) \<Longrightarrow> session_step s (snd (andThen (onAdapter m) f s))"
  by (rule step_after_same) (auto dest: onAdapter_same)

lemma step_absorb: "(\<And>x t. session_step t (snd (f x t))) \<Longrightarrow> session_step s (snd (andThen (absorbCookies ad) f s))"
  by (rule step_after_same) (auto dest: absorbCookies_same)

lemma listed_core:
  "core (s\<lparr>ow_generation := ow_generation s + 1, ow_snapshot := None, ow_authorized := None\<rparr>) = forgotten (core s)"
  "core (s\<lparr>ow_generation := n, ow_snapshot := Some snap, ow_authorized := None\<rparr>) =
     (core s)\<lparr>co_generation := n, co_snapshot := Some snap, co_authorized := None\<rparr>"
  by (simp_all add: core_def forgotten_def)

lemma step_forget:
  "session_step s (s\<lparr>ow_generation := ow_generation s + 1, ow_snapshot := None, ow_authorized := None\<rparr>)"
  by (simp add: session_step_def listed_core core_step.Forget)

lemma step_list:
  assumes "fa_challenge facts = NoChallenge"
  shows "session_step s (s\<lparr>ow_generation := ow_generation s + 1, ow_authorized := None,
     ow_snapshot := Some (snapshotOf (ow_generation s + 1) facts)\<rparr>)"
  using core_step.Listing [OF assms, of "ow_policy s" "core s"]
  by (simp add: session_step_def core_def forgotten_def)

lemma respond_same [simp]: "snd (respond v s) = s"
  by (simp add: respond_def)

lemma handleSnapshot_step: "session_step s (snd (handleSnapshot ad s))"
  unfolding handleSnapshot_def
proof (intro step_adapter step_absorb)
  fix page and t2 :: "'a owned"
  note l = step_list [of "pg_facts page" t2, unfolded snapshotOf_def]
  show "session_step t2 (snd (andThen bumpGeneration (\<lambda>_.
     let facts = pg_facts page; candidates = enumerateAgentCandidates facts in
     andThen (guard (fa_challenge facts = NoChallenge) (challengeCode (fa_challenge facts))) (\<lambda>_.
     andThen (putState (\<lambda>s. s\<lparr>ow_snapshot := Some \<lparr>sn_generation = ow_generation s, sn_origin = fa_origin facts,
         sn_candidates = candidates, sn_form_action = fa_form_action facts\<rparr>\<rparr>)) (\<lambda>_.
     andThen (getState (\<lambda>s. s)) (\<lambda>s.
     andThen (guard (\<not> (ow_loggedIn s \<and> fa_path facts \<noteq> success_path (ow_policy s) \<and>
         fa_path facts \<notin> set (bp_allowed_paths (ow_policy s)))) ''path_denied'') (\<lambda>_.
     respond (JObj
       [(''ok'', JBool True), (''logged_in'', JBool (ow_loggedIn s)), (''generation'', JNum (ow_generation s)),
        (''origin'', JStr (fa_origin facts)), (''path'', JStr (fa_path facts)),
        (''challenge'', JStr (challengeName (fa_challenge facts))),
        (''candidates'', JArr (map candidateJson candidates)), (''title'', JStr (titleOf (pg_html page)))])))))) t2))"
    using step_forget [of t2] l by (auto simp: Let_def)
qed

lemma handleSelect_step: "session_step s (snd (handleSelect body s))"
proof -
  have "session_step s (s\<lparr>ow_authorized := Some au\<rparr>)"
    if "ow_snapshot s = Some snap" "authorizeTargetSelection snap sel (ow_policy s) = Inr au" for snap sel au
    using core_step.Choose [of "core s" snap sel "ow_policy s" au] that by (simp add: session_step_def core_def)
  then show ?thesis
    by (auto simp: handleSelect_def raise_def split: sum.splits option.splits)
qed

lemma handleGoto_step: "session_step s (snd (handleGoto ad body s))"
proof -
  have "session_step s (snd (andThen (onAdapter (ad_goto ad t)) (\<lambda>page. andThen (absorbCookies ad) (\<lambda>_.
      andThen bumpGeneration (\<lambda>_. respond (v page)))) s))" for t v
    by (intro step_adapter step_absorb) (simp add: step_forget)
  then show ?thesis
    by (auto simp: handleGoto_def raise_def split: sum.splits option.splits)
qed

lemma handleScreenshot_step: "session_step s (snd (handleScreenshot ad s))"
proof -
  have shot: "session_step s (snd (andThen (onAdapter shoot) f s))"
    if "\<And>x t. session_step t (snd (f x t))" for shoot :: "('a, bytes option) act" and f s
    by (intro step_adapter that)
  have occupied: "session_step s (snd (andThen (case ad_occupied ad of None \<Rightarrow> ret False | Some m \<Rightarrow> onAdapter m)
      (\<lambda>occupied s3. if \<not> occupied then andThen (onAdapter shoot) f s3
         else (Inl (Coded ''password_entry_active''), s3)) s))"
    if "\<And>x t. session_step t (snd (f x t))" for shoot :: "('a, bytes option) act" and f
    using that by (cases "ad_occupied ad") (auto intro!: step_adapter)
  show ?thesis
  proof (cases "ad_screenshotPage ad")
    case (Some shoot)
    show ?thesis
    proof (cases "ow_passwordEntry s")
      case False
      then show ?thesis
        unfolding handleScreenshot_def Some option.case act_simps if_P [OF False]
        by (intro occupied) (auto simp: raise_def ret_def split: option.splits)
    qed (simp add: handleScreenshot_def)
  qed (simp add: handleScreenshot_def raise_def)
qed

text \<open>A login: the submission leaves the login alone, success is the abstract \<open>Login\<close>.\<close>

lemma step_from_same:
  assumes "\<And>r u. m t = (r, u) \<Longrightarrow> same_login t u" "same_login s t"
    "\<And>x u. same_login s u \<Longrightarrow> session_step s (snd (f x u))"
  shows "session_step s (snd (andThen m f t))"
  using assms(1)
  by (cases rule: andThen_same [of m t f])
     (auto intro: assms(3) same_login_trans [OF assms(2)] session_same [OF same_login_trans [OF assms(2)]])

lemma step_from_adapter:
  "same_login s t \<Longrightarrow> (\<And>x u. same_login s u \<Longrightarrow> session_step s (snd (f x u))) \<Longrightarrow>
     session_step s (snd (andThen (onAdapter m) f t))"
  by (rule step_from_same) (auto dest: onAdapter_same)

lemma step_from_absorb:
  "same_login s t \<Longrightarrow> (\<And>x u. same_login s u \<Longrightarrow> session_step s (snd (f x u))) \<Longrightarrow>
     session_step s (snd (andThen (absorbCookies ad) f t))"
  by (rule step_from_same) (auto dest: absorbCookies_same)

lemma performInject_step:
  assumes "ow_authorized s = Some au" "ow_snapshot s = Some snap" "\<not> ow_loggedIn s"
  shows "session_step s (snd (performInject ad au s))"
proof -
  have login: "session_step s (t\<lparr>ow_loggedIn := True, ow_generation := ow_generation t + 1, ow_snapshot := None,
      ow_authorized := None\<rparr>)"
    if "same_login s t" "assertInjectSafe live au (ow_policy s) = Inr ()" for t live
  proof -
    have "core (t\<lparr>ow_loggedIn := True, ow_generation := ow_generation t + 1, ow_snapshot := None,
        ow_authorized := None\<rparr>) = (forgotten (core t))\<lparr>co_loggedIn := True\<rparr>"
      by (simp add: core_def forgotten_def)
    moreover have "core_step (ow_policy s) (core s) ((forgotten (core s))\<lparr>co_loggedIn := True\<rparr>)"
      using assms that(2) by (intro core_step.Login) (auto simp: core_def)
    ultimately show ?thesis using that(1) by (auto simp: session_step_def same_login_def)
  qed
  have submit: "session_step s (snd (andThen (onAdapter m) (\<lambda>submitted. andThen (absorbCookies ad) (\<lambda>_.
      case (newURL (pg_url submitted), newURL (login_origin (ow_policy t))) of
       (Some landed, Some u) \<Rightarrow>
         andThen (guard (origin landed = origin u) ''origin_mismatch'') (\<lambda>_.
         andThen (guard (pathname landed = success_path (ow_policy t)) ''success_path_mismatch'') (\<lambda>_.
         andThen (putState (\<lambda>s. s\<lparr>ow_loggedIn := True\<rparr>)) (\<lambda>_.
         andThen bumpGeneration (\<lambda>_. respond v))))
     | _ \<Rightarrow> raise Uncoded)) t))"
    if t: "same_login s t" and safe: "assertInjectSafe live au (ow_policy s) = Inr ()"
    for m :: "('a, page) act" and t live v
    by (intro step_from_adapter [OF t] step_from_absorb)
       (auto simp: raise_def intro: login [OF _ safe] split: option.splits)
  show ?thesis
    unfolding performInject_def
  proof (rule step_from_adapter [OF same_login_refl])
    fix live and t :: "'a owned"
    assume t: "same_login s t"
    then have "ow_policy t = ow_policy s" by (simp add: same_login_def)
    then show "session_step s (snd (andThen (getState (\<lambda>s. s)) (\<lambda>s.
     andThen (call (assertInjectSafe (pg_facts live) au (ow_policy s))) (\<lambda>_.
     andThen (guard (fa_challenge (pg_facts live) = NoChallenge) (challengeCode (fa_challenge (pg_facts live)))) (\<lambda>_.
     andThen (onAdapter (ad_submitLogin ad (submissionOf s au (pg_facts live)))) (\<lambda>submitted.
     andThen (absorbCookies ad) (\<lambda>_.
     case (newURL (pg_url submitted), newURL (login_origin (ow_policy s))) of
       (Some landed, Some u) \<Rightarrow>
         andThen (guard (origin landed = origin u) ''origin_mismatch'') (\<lambda>_.
         andThen (guard (pathname landed = success_path (ow_policy s)) ''success_path_mismatch'') (\<lambda>_.
         andThen (putState (\<lambda>s. s\<lparr>ow_loggedIn := True\<rparr>)) (\<lambda>_.
         andThen bumpGeneration (\<lambda>_.
         respond (JObj
           [(''ok'', JBool True), (''logged_in'', JBool True), (''origin_bound'', JBool True),
            (''cookie_export_forbidden'', JBool True), (''agent_secret_visible'', JBool False)])))))
     | _ \<Rightarrow> raise Uncoded))))) t))"
      using t by (auto intro: submit [OF t, simplified prod.case] split: sum.split)
  qed
qed

lemma session_step_flag:
  "session_step (s\<lparr>ow_passwordEntry := b\<rparr>) t \<Longrightarrow> \<not> ow_passwordEntry s \<Longrightarrow> session_step s (t\<lparr>ow_passwordEntry := False\<rparr>)"
  by (auto simp: session_step_def)

lemma resetAfter_step: "session_step s t \<Longrightarrow> session_step s (resetAfter ad t)"
  by (auto simp: session_step_def core_def resetAfter_def split: option.splits)

lemma resetAfter_flag [simp]: "ow_passwordEntry (resetAfter ad t) = ow_passwordEntry t"
  by (auto simp: resetAfter_def split: option.splits)

lemma handleInject_step:
  assumes "\<not> ow_passwordEntry s"
  shows "session_step s (snd (handleInject ad body s))"
proof -
  have "session_step s (snd (injecting ad au s))"
    if "ow_authorized s = Some au" "ow_snapshot s = Some snap" "\<not> ow_loggedIn s" for au snap
  proof -
    have "session_step (s\<lparr>ow_passwordEntry := True\<rparr>) (snd (performInject ad au (s\<lparr>ow_passwordEntry := True\<rparr>)))"
      using that by (intro performInject_step) auto
    then have "session_step s ((resetAfter ad t)\<lparr>ow_passwordEntry := False\<rparr>)" "session_step s (t\<lparr>ow_passwordEntry := False\<rparr>)"
      if "performInject ad au (s\<lparr>ow_passwordEntry := True\<rparr>) = (r, t)" for r t
      using that assms resetAfter_step session_step_flag [where s = s and b = True] by auto
    then show ?thesis by (auto simp: injecting_def split: prod.splits sum.splits)
  qed
  then show ?thesis
    by (auto simp: handleInject_def raise_def Let_def split: sum.splits option.splits)
qed

lemma dispatch_step: "\<not> ow_passwordEntry s \<Longrightarrow> session_step s (snd (dispatch ad op meth body s))"
  by (simp add: dispatch_def handleSnapshot_step handleSelect_step handleInject_step handleGoto_step
      handleScreenshot_step ret_def)

text \<open>A request is turned away with a fixed answer, or dispatched.\<close>

fun fixed_answer :: "handled_owned \<Rightarrow> bool" where
  "fixed_answer (Answered (JsonAnswer r)) = (\<exists>status c. r = writeFixed status c)"
| "fixed_answer (Answered (PngAnswer hs png)) = False"
| "fixed_answer _ = True"

lemma handleAgentRequest_cases:
  obtains (closed) x where "handleAgentRequest ad s q = (x, s)" "fixed_answer x"
  | (denied) x where "handleAgentRequest ad s q = (x, s\<lparr>ow_lastUsed := q_now q\<rparr>)" "fixed_answer x"
  | (answered) op body x t where "\<not> ow_closed s"
      "dispatch ad op (q_method q) body (s\<lparr>ow_lastUsed := q_now q\<rparr>) = (Inr x, t)"
      "handleAgentRequest ad s q = (Answered x, t)"
  | (failed) op body e t where "\<not> ow_closed s"
      "dispatch ad op (q_method q) body (s\<lparr>ow_lastUsed := q_now q\<rparr>) = (Inl e, t)"
      "handleAgentRequest ad s q = (Answered (JsonAnswer (writeFixed (statusFor (codeOf e)) (codeOf e))),
         ownedLog ''error'' ''bridge-owned browser op failed'' t)"
proof (cases "ow_closed s \<or> bp_session_ttl_ms (ow_policy s) < q_now q - ow_created s \<or>
    bp_idle_ttl_ms (ow_policy s) < q_now q - ow_lastUsed s")
  case True
  then have "\<exists>x. handleAgentRequest ad s q = (x, s) \<and> fixed_answer x"
    by (auto simp: handleAgentRequest_def)
  then show thesis using closed by blast
next
  case open': False
  note h = handleAgentRequest_def [of ad s q] and o = open' [simplified]
  show thesis
  proof (cases "newURL_at (q_url q) ''http://127.0.0.1''")
    case None
    with o show thesis by (intro denied [of Rejected]) (simp_all add: h)
  next
    case (Some u)
    let ?op = "opFromPath (q_method q) (pathname u)"
    let ?body = "if needsBody ?op \<and> q_method q = ''POST'' then readOwnedBody 4096 [] (q_events q) else Some (Inr [])"
    show thesis
    proof (cases "denyAgentOp ?op")
      case c: (Some c)
      with o Some show thesis
        by (intro denied [of "Answered (JsonAnswer (writeFixed 403 c))"]) (simp add: h Let_def, force)
    next
      case d: None
      show thesis
      proof (cases ?body)
        case None
        have "handleAgentRequest ad s q = (Stalled, s\<lparr>ow_lastUsed := q_now q\<rparr>)"
          unfolding h Let_def Some option.case d None using o by simp
        then show thesis by (rule denied) simp
      next
        case b: (Some body)
        obtain r t where r: "dispatch ad ?op (q_method q) body (s\<lparr>ow_lastUsed := q_now q\<rparr>) = (r, t)" by force
        have e: "handleAgentRequest ad s q = (case (r, t) of (Inr x, t) \<Rightarrow> (Answered x, t)
            | (Inl e, t) \<Rightarrow> (Answered (JsonAnswer (writeFixed (statusFor (codeOf e)) (codeOf e))),
                 ownedLog ''error'' ''bridge-owned browser op failed'' t))"
          unfolding h Let_def Some option.case d b r using o by simp
        show thesis
        proof (cases r)
          case (Inl e')
          with r e o show thesis by (intro failed [of ?op body e' t]) simp_all
        next
          case (Inr x)
          with r e o show thesis by (intro answered [of ?op body x t]) simp_all
        qed
      qed
    qed
  qed
qed

lemma handleAgentRequest_step:
  assumes "\<not> ow_passwordEntry s"
  shows "session_step s (snd (handleAgentRequest ad s q))"
proof -
  have touch: "session_step s t" if "session_step (s\<lparr>ow_lastUsed := n\<rparr>) t" for t n
    using that by (simp add: session_step_def)
  have d: "session_step s t" if "dispatch ad op meth body (s\<lparr>ow_lastUsed := n\<rparr>) = (r, t)" for op meth body r t n
    using dispatch_step [of "s\<lparr>ow_lastUsed := n\<rparr>" ad op meth body] assms that by (intro touch [of n]) simp
  show ?thesis
  proof (cases rule: handleAgentRequest_cases [of ad s q])
    case (failed op body e t)
    with d [OF failed(2)] show ?thesis by (simp add: session_step_def) (simp add: ownedLog_def)
  qed (auto intro: d touch [of "q_now q"])
qed

subsection \<open>Reachable sessions\<close>

inductive owned_step :: "'a adapter \<Rightarrow> 'a owned \<Rightarrow> 'a owned \<Rightarrow> bool" for ad where
  Request: "owned_step ad s (snd (handleAgentRequest ad s q))"
| CloseBegins: "owned_step ad s (closeBegins s)"
| CloseEnds: "ow_closed s \<Longrightarrow> owned_step ad s (closeEnds ad s)"

definition owned_reach :: "'a adapter \<Rightarrow> 'a owned \<Rightarrow> 'a owned \<Rightarrow> bool" where
  "owned_reach ad = (owned_step ad)\<^sup>*\<^sup>*"

text \<open>A recorded choice names candidates of the listed page, which is on the login origin and posts
  to it; the list is of the current generation and was taken from an unchallenged page.\<close>

definition core_inv :: "browser_policy \<Rightarrow> core \<Rightarrow> bool" where
  "core_inv p c \<longleftrightarrow>
     (\<forall>snap. co_snapshot c = Some snap \<longrightarrow>
        (\<exists>facts. fa_challenge facts = NoChallenge \<and> snap = snapshotOf (co_generation c) facts)) \<and>
     (\<forall>au. co_authorized c = Some au \<longrightarrow>
        (\<exists>snap. co_snapshot c = Some snap \<and> on_login_origin p (sn_origin snap) (sn_form_action snap) \<and>
           {au_username au, au_password au, au_submit au} \<subseteq> set (sn_candidates snap) \<and>
           ca_kind (au_username au) = KUsername \<and> ca_name (au_username au) = username_field p \<and>
           ca_kind (au_password au) = KPassword \<and> ca_name (au_password au) = password_field p \<and>
           ca_kind (au_submit au) = KSubmit))"

lemma core_inv_step: "core_step p c c' \<Longrightarrow> core_inv p c \<Longrightarrow> core_inv p c'"
proof (induction rule: core_step.induct)
  case (Choose c snap sel au)
  with authorize_Inr [OF Choose(2)] show ?case by (simp add: core_inv_def)
qed (auto simp: core_inv_def forgotten_def)

definition owned_inv :: "'a owned \<Rightarrow> bool" where
  "owned_inv s \<longleftrightarrow> core_inv (ow_policy s) (core s) \<and> \<not> ow_passwordEntry s \<and>
     (ow_closed s \<or> set (buildCredentialSensitiveVariants (ow_credentials s)) \<subseteq> set (ow_sensitive s))"

lemma owned_inv_step:
  assumes "owned_step ad s t" "owned_inv s"
  shows "owned_inv t \<and> ow_policy t = ow_policy s \<and> ow_credentials t = ow_credentials s"
  using assms
proof (induction rule: owned_step.induct)
  case (Request s q)
  then have "session_step s (snd (handleAgentRequest ad s q))"
    by (intro handleAgentRequest_step) (simp add: owned_inv_def)
  with Request core_inv_step show ?case by (auto simp: session_step_def owned_inv_def)
next
  case (CloseBegins s)
  then show ?case by (simp add: owned_inv_def) (simp add: closeBegins_def)
next
  case (CloseEnds s)
  then show ?case by (simp add: owned_inv_def) (simp add: closeEnds_def)
qed

lemma owned_inv_fresh: "owned_inv (freshSession p c d h a r n)"
  by (simp add: owned_inv_def freshSession_def core_inv_def core_def)

lemma owned_inv_reach:
  assumes "owned_reach ad (freshSession p c d h a r n) s"
  shows "owned_inv s \<and> ow_policy s = p \<and> ow_credentials s = c"
  using assms unfolding owned_reach_def
proof (induction rule: rtranclp_induct)
  case base
  show ?case using owned_inv_fresh by (simp add: freshSession_def)
next
  case (step t u)
  with owned_inv_step [OF step(2)] show ?case by simp
qed

subsection \<open>Answers\<close>













subsection \<open>The session count\<close>

interpretation owned_pool: session_pool MAX_BRIDGE_OWNED_BROWSERS ownedBegin ownedFinish "ownedClose ad" running ended
  for ad :: "'a adapter"
proof unfold_locales
  show "ownedBegin n opts = (m, Inr l) \<Longrightarrow> n < MAX_BRIDGE_OWNED_BROWSERS \<and> m = Suc n \<and> \<not> ended l"
    for n opts m and l :: "'a lease"
    by (auto simp: ownedBegin_def split: if_splits sum.splits policy.splits option.splits)
  show "ownedBegin n opts = (m, Inl e) \<Longrightarrow> m = n" for n opts m e
    by (auto simp: ownedBegin_def split: if_splits sum.splits policy.splits option.splits)
  show "\<not> ended l \<Longrightarrow> ownedFinish n l r = (m, Inr l') \<Longrightarrow> m = n \<and> \<not> ended l' \<and> running l'"
    for n m r and l l' :: "'a lease"
    by (auto simp: ownedFinish_def freshSession_def split: lease.splits sum.splits thrown.splits option.splits)
  show "\<not> ended l \<Longrightarrow> ownedFinish n l r = (m, Inl e) \<Longrightarrow> m = n - 1" for n m e r and l :: "'a lease"
    by (auto simp: ownedFinish_def split: lease.splits sum.splits thrown.splits option.splits)
  show "running l \<Longrightarrow> \<not> ended l \<Longrightarrow> ownedClose ad n l = (m, l') \<Longrightarrow> m = n - 1 \<and> ended l' \<and> running l'"
    for n m and l l' :: "'a lease"
    by (cases l) (auto simp: closeEnds_def)
  show "ended l \<Longrightarrow> ownedClose ad n l = (n, l)" for n and l :: "'a lease"
    by (cases l) auto
qed

text \<open>At most one browser is starting or open at any time.\<close>

lemma owned_browser_single:
  "pool_reach ownedBegin ownedFinish (ownedClose ad) w \<Longrightarrow>
     length (w_pending w) + length (filter (\<lambda>l. \<not> ended l) (w_started w)) \<le> 1"
  using owned_pool.counter_exact [of ad w] by (simp add: MAX_BRIDGE_OWNED_BROWSERS_def)

subsection \<open>Where a credential is sent\<close>

text \<open>With the fetch-backed adapter: every request with a body is a \<open>POST\<close> to the login origin.\<close>

definition to_login_origin :: "browser_policy \<Rightarrow> fetch_call \<Rightarrow> bool" where
  "to_login_origin p c \<longleftrightarrow> fc_method c = ''POST'' \<and>
     (\<exists>u f. newURL (login_origin p) = Some u \<and> newURL (fc_url c) = Some f \<and> origin f = origin u)"

definition posts_home :: "fetch_state owned \<Rightarrow> bool" where
  "posts_home s \<longleftrightarrow> confined (to_login_origin (ow_policy s)) (ow_adapter s)"

lemma keeps_state [keeps_intros]:
  "keeps posts_home (getState f)" "keeps posts_home bumpGeneration" "keeps posts_home (fromBody b)"
  "keeps posts_home (respond v)"
  by (simp_all add: keeps_def getState_def bumpGeneration_def fromBody_def respond_def posts_home_def)

lemma keeps_put [keeps_intros]:
  "keeps posts_home (putState (\<lambda>s. s\<lparr>ow_sensitive := g s\<rparr>))"
  "keeps posts_home (putState (\<lambda>s. s\<lparr>ow_snapshot := h s\<rparr>))"
  "keeps posts_home (putState (\<lambda>s. s\<lparr>ow_authorized := k s\<rparr>))"
  "keeps posts_home (putState (\<lambda>s. s\<lparr>ow_loggedIn := l s\<rparr>))"
  by (simp_all add: keeps_def putState_def posts_home_def)

lemma keeps_adapter [keeps_intros]:
  "(\<And>Q. keeps (confined Q) m) \<Longrightarrow> keeps posts_home (onAdapter m)"
  by (auto simp: keeps_def [of posts_home] onAdapter_def posts_home_def split: prod.splits dest: keepsD)

abbreviation fetch_adapter :: "fetch \<Rightarrow> fetch_state adapter" where
  "fetch_adapter \<equiv> createFetchPageAdapter"

lemma adapter_ops [simp]:
  "ad_snapshotPage (fetch_adapter f) = snapshotPage f" "ad_submitLogin (fetch_adapter f) = submitLogin f"
  "ad_goto (fetch_adapter f) = gotoPage f" "ad_absorbCookies (fetch_adapter f) = absorbCookiesInto"
  "ad_occupied (fetch_adapter f) = Some (ret False)" "ad_currentUrl (fetch_adapter f) = fs_currentUrl"
  "ad_screenshotPage (fetch_adapter f) = Some (raise (Coded ''screenshot_unsupported''))"
  "ad_resetLoginPage (fetch_adapter f) = Some (resetLoginPage f)" "ad_close (fetch_adapter f) = closeFetchAdapter"
  by (simp_all add: createFetchPageAdapter_def)

lemma keeps_absorb [keeps_intros]: "keeps posts_home (absorbCookies (fetch_adapter f))"
  unfolding absorbCookies_def adapter_ops by (intro keeps_intros)

lemma keeps_getState:
  "(\<And>s. P s \<Longrightarrow> P (snd (f s s))) \<Longrightarrow> keeps P (andThen (getState (\<lambda>s. s)) f)"
  by (simp add: keeps_def)

lemma keeps_apply: "keeps P m \<Longrightarrow> P s \<Longrightarrow> P (snd (m s))"
  by (simp add: keeps_def)

lemma keeps_option [keeps_intros]:
  "keeps P m \<Longrightarrow> (\<And>x. keeps P (k x)) \<Longrightarrow> keeps P (case v of None \<Rightarrow> m | Some x \<Rightarrow> k x)"
  by (cases v) auto

lemma performInject_posts: "keeps posts_home (performInject (fetch_adapter f) au)"
  unfolding performInject_def adapter_ops
proof (rule keeps_andThen [OF _ keeps_getState])
  show "keeps posts_home (onAdapter (snapshotPage f))" by (intro keeps_intros)
next
  fix live and s :: "fetch_state owned"
  assume s: "posts_home s"
  let ?facts = "pg_facts live"
  have sent: "posts_home (snd (onAdapter (submitLogin f (submissionOf s au ?facts)) s))"
    if "assertInjectSafe ?facts au (ow_policy s) = Inr ()"
  proof -
    have "on_login_origin (ow_policy s) (fa_origin ?facts) (fa_form_action ?facts)"
      using assertInjectSafe_Inr [OF that] by blast
    then have "to_login_origin (ow_policy s) c" if "fc_url c = fa_form_action ?facts" "fc_method c = ''POST''" for c
      using that by (auto simp: on_login_origin_def to_login_origin_def)
    then have "confined (to_login_origin (ow_policy s)) (snd (submitLogin f (submissionOf s au ?facts) (ow_adapter s)))"
      using s by (intro submitLogin_confined) (auto simp: posts_home_def submissionOf_def)
    then show ?thesis by (auto simp: posts_home_def onAdapter_def split: prod.splits)
  qed
  have after: "posts_home (snd (andThen m g s))"
    if "posts_home (snd (m s))" "\<And>x. keeps posts_home (g x)" for m :: "(fetch_state owned, page) act" and g :: "page \<Rightarrow> (fetch_state owned, answer) act"
    using that by (cases "m s"; cases "fst (m s)") (auto simp: andThen_def intro: keeps_apply)
  show "posts_home (snd (andThen (call (assertInjectSafe ?facts au (ow_policy s))) (\<lambda>_.
     andThen (guard (fa_challenge ?facts = NoChallenge) (challengeCode (fa_challenge ?facts))) (\<lambda>_.
     andThen (onAdapter (submitLogin f (submissionOf s au ?facts))) (\<lambda>submitted.
     andThen (absorbCookies (fetch_adapter f)) (\<lambda>_.
     case (newURL (pg_url submitted), newURL (login_origin (ow_policy s))) of
       (Some landed, Some u) \<Rightarrow>
         andThen (guard (origin landed = origin u) ''origin_mismatch'') (\<lambda>_.
         andThen (guard (pathname landed = success_path (ow_policy s)) ''success_path_mismatch'') (\<lambda>_.
         andThen (putState (\<lambda>s. s\<lparr>ow_loggedIn := True\<rparr>)) (\<lambda>_.
         andThen bumpGeneration (\<lambda>_.
         respond (JObj
           [(''ok'', JBool True), (''logged_in'', JBool True), (''origin_bound'', JBool True),
            (''cookie_export_forbidden'', JBool True), (''agent_secret_visible'', JBool False)])))))
     | _ \<Rightarrow> raise Uncoded)))) s))"
  proof (cases "assertInjectSafe ?facts au (ow_policy s) = Inr () \<and> fa_challenge ?facts = NoChallenge")
    case True
    have checked: "andThen (call (assertInjectSafe ?facts au (ow_policy s))) k s = k () s"
      "andThen (guard (fa_challenge ?facts = NoChallenge) c) k s = k () s" for k c
      using True by simp_all
    show ?thesis
      unfolding prod.case checked by (intro after sent keeps_intros conjunct1 [OF True])
  qed (use s in \<open>auto split: sum.splits\<close>)
qed

lemma injecting_posts:
  assumes "posts_home s"
  shows "posts_home (snd (injecting (fetch_adapter f) au s))"
proof -
  have "posts_home t" if "performInject (fetch_adapter f) au (s\<lparr>ow_passwordEntry := True\<rparr>) = (r, t)" for r t
    using keepsD [OF performInject_posts _ that] assms by (simp add: posts_home_def)
  moreover have "posts_home (resetAfter (fetch_adapter f) t)" if "posts_home t" for t
    using that keeps_apply [OF adapter_reads_keep(3)] by (simp add: posts_home_def resetAfter_def)
  ultimately show ?thesis
    by (auto simp: injecting_def posts_home_def split: prod.splits sum.splits)
qed

lemma dispatch_posts: "keeps posts_home (dispatch (fetch_adapter f) op meth body)"
proof -
  have "keeps posts_home (injecting (fetch_adapter f) au)" for au
    using injecting_posts by (auto simp: keeps_def)
  note h = this keeps_intros
  have "keeps posts_home (handleSnapshot (fetch_adapter f))" unfolding handleSnapshot_def Let_def adapter_ops
    by (intro h)
  moreover have "keeps posts_home (handleSelect body)" unfolding handleSelect_def by (intro h)
  moreover have "keeps posts_home (handleInject (fetch_adapter f) body)" unfolding handleInject_def Let_def
    by (intro h) (auto intro!: h split: option.splits)
  moreover have "keeps posts_home (handleGoto (fetch_adapter f) body)" unfolding handleGoto_def adapter_ops
    by (intro h)
  moreover have "keeps posts_home (handleScreenshot (fetch_adapter f))" unfolding handleScreenshot_def adapter_ops option.case
    by (intro h)
  moreover have "keeps posts_home (andThen (getState g) respond)" for g by (intro h)
  moreover have "keeps posts_home (ret (JsonAnswer x))" for x by (intro h)
  ultimately show ?thesis by (simp add: dispatch_def)
qed

lemma owned_step_posts:
  assumes "owned_step (fetch_adapter f) s t" "owned_inv s" "posts_home s"
  shows "posts_home t"
  using assms
proof (induction rule: owned_step.induct)
  case (Request s q)
  show ?case
  proof (cases rule: handleAgentRequest_cases [of "fetch_adapter f" s q])
    case (answered op body x t)
    have "posts_home (s\<lparr>ow_lastUsed := q_now q\<rparr>)" using Request(2) by (simp add: posts_home_def)
    from keepsD [OF dispatch_posts this answered(2)] show ?thesis using answered(3) by simp
  next
    case (failed op body e t)
    have "posts_home (s\<lparr>ow_lastUsed := q_now q\<rparr>)" using Request(2) by (simp add: posts_home_def)
    from keepsD [OF dispatch_posts this failed(2)] show ?thesis
      using failed(3) by (simp add: posts_home_def ownedLog_def)
  qed (use Request in \<open>auto simp: posts_home_def\<close>)
next
  case (CloseBegins s)
  then show ?case by (simp add: posts_home_def closeBegins_def)
next
  case (CloseEnds s)
  then show ?case
    using keeps_apply [OF adapter_reads_keep(5)] by (simp add: posts_home_def closeEnds_def)
qed

subsection \<open>A sample run\<close>

definition sample_page :: string where
  "sample_page = ''<form><input name=user><input name=pass type=password><button>go</button></form>''"

definition sample_site :: fetch where
  "sample_site calls =
     (if fc_url (last calls) = ''http://127.0.0.1:4444/login'' then
        (if fc_method (last calls) = ''POST''
         then Some \<lparr>fa_status = 302, fa_location = Some ''/home'', fa_setCookie = [''sid=abcdefgh; Path=/''], fa_body = Some []\<rparr>
         else Some \<lparr>fa_status = 200, fa_location = None, fa_setCookie = [], fa_body = Some sample_page\<rparr>)
      else Some \<lparr>fa_status = 200, fa_location = None, fa_setCookie = [], fa_body = Some ''<h1>home</h1>''\<rparr>)"

abbreviation sample_adapter :: "fetch_state adapter" where
  "sample_adapter \<equiv> createFetchPageAdapter sample_site"

definition sample_browser_policy :: browser_policy where
  "sample_browser_policy =
     \<lparr>bp_service = ''site'', bp_bind = ''http://127.0.0.1:0'', login_origin = ''http://127.0.0.1:4444'',
      login_path = ''/login'', form_action = ''/login'', username_field = ''user'', password_field = ''pass'',
      hidden_fields = [], success_path = ''/home'', bp_allowed_paths = [''/home'', ''/api/me''],
      replay_method = ''GET'', replay_path = ''/api/me'', max_redirect_hops = 2,
      bp_session_ttl_ms = 60000, bp_idle_ttl_ms = 30000\<rparr>"

definition sample_credentials :: basic_credentials where
  "sample_credentials = \<lparr>username = ''operator'', password = ''pass word''\<rparr>"

definition sample_state :: fetch_state where
  "sample_state = \<lparr>fs_origin = ''http://127.0.0.1:4444'', fs_loginPage = ''http://127.0.0.1:4444/login'', fs_jar = [],
     fs_currentUrl = ''http://127.0.0.1:4444/login'', fs_calls = []\<rparr>"

definition sample_owned :: "fetch_state owned" where
  "sample_owned = freshSession sample_browser_policy sample_credentials Fetch True sample_state ''abcd'' 1000"

definition agent_request :: "string \<Rightarrow> string \<Rightarrow> string \<Rightarrow> session_request" where
  "agent_request meth target body =
     \<lparr>q_method = meth, q_url = target, q_events = [ReadData body, ReadEnd], q_now = 2000\<rparr>"

definition after_request :: "fetch_state owned \<Rightarrow> session_request \<Rightarrow> fetch_state owned" where
  "after_request s q = snd (handleAgentRequest sample_adapter s q)"

definition snapshot_request :: session_request where
  "snapshot_request = agent_request ''GET'' ''/snapshot'' []"

definition select_request :: session_request where
  "select_request = agent_request ''POST'' ''/select_targets''
     (stringify (JObj [(''generation'', JNum 1), (''username_index'', JNum 0), (''password_index'', JNum 1),
                       (''submit_index'', JNum 2)]))"

definition inject_request :: session_request where
  "inject_request = agent_request ''POST'' ''/inject_login'' []"

text \<open>The sessions after the snapshot and the choice, and after the injection, written out.\<close>

definition login_call :: "string \<Rightarrow> string option \<Rightarrow> fetch_call" where
  "login_call meth body =
     \<lparr>fc_url = ''http://127.0.0.1:4444/login'', fc_method = meth,
      fc_headers = (if body = None then [] else [(''content-type'', ''application/x-www-form-urlencoded'')]) @ [(''cookie'', [])],
      fc_body = body\<rparr>"

definition username_candidate :: candidate where
  "username_candidate = \<lparr>ca_index = 0, ca_kind = KUsername, ca_name = ''user''\<rparr>"

definition password_candidate :: candidate where
  "password_candidate = \<lparr>ca_index = 1, ca_kind = KPassword, ca_name = ''pass''\<rparr>"

definition submit_candidate :: candidate where
  "submit_candidate = \<lparr>ca_index = 2, ca_kind = KSubmit, ca_name = ''go''\<rparr>"

definition sample_chosen :: "fetch_state owned" where
  "sample_chosen = sample_owned
     \<lparr>ow_adapter := sample_state\<lparr>fs_calls := [login_call ''GET'' None]\<rparr>, ow_lastUsed := 2000, ow_generation := 1,
      ow_snapshot := Some \<lparr>sn_generation = 1, sn_origin = ''http://127.0.0.1:4444'',
        sn_candidates = [username_candidate, password_candidate, submit_candidate],
        sn_form_action = ''http://127.0.0.1:4444/login''\<rparr>,
      ow_authorized := Some \<lparr>au_username = username_candidate, au_password = password_candidate,
        au_submit = submit_candidate\<rparr>\<rparr>"

definition sample_loggedIn :: "fetch_state owned" where
  "sample_loggedIn = sample_owned
     \<lparr>ow_adapter := sample_state
        \<lparr>fs_jar := [(''sid'', ''abcdefgh'')], fs_currentUrl := ''http://127.0.0.1:4444/home'',
         fs_calls := [login_call ''GET'' None, login_call ''GET'' None, login_call ''GET'' None,
           login_call ''POST'' (Some ''user=operator&pass=pass+word''),
           \<lparr>fc_url = ''http://127.0.0.1:4444/home'', fc_method = ''GET'',
            fc_headers = [(''cookie'', ''sid=abcdefgh'')], fc_body = None\<rparr>]\<rparr>,
      ow_sensitive := ow_sensitive sample_owned @ [''abcdefgh''], ow_lastUsed := 2000, ow_generation := 2,
      ow_loggedIn := True\<rparr>"

lemma sample_choosing:
  "after_request (after_request sample_owned snapshot_request) select_request = sample_chosen"
  by code_simp

lemma sample_injecting: "after_request sample_chosen inject_request = sample_loggedIn"
  by code_simp

lemma sample_initial: "initialFetchState (login_origin sample_browser_policy) (login_path sample_browser_policy) = Some sample_state"
  by code_simp

lemma reach_request: "owned_reach ad s0 s \<Longrightarrow> owned_reach ad s0 (snd (handleAgentRequest ad s q))"
  unfolding owned_reach_def by (erule rtranclp.rtrancl_into_rtrancl) (rule owned_step.Request)

lemma sample_reach:
  "owned_reach sample_adapter
     (freshSession sample_browser_policy sample_credentials Fetch True sample_state ''abcd'' 1000) sample_chosen"
  "owned_reach sample_adapter
     (freshSession sample_browser_policy sample_credentials Fetch True sample_state ''abcd'' 1000) sample_loggedIn"
proof -
  have "owned_reach sample_adapter sample_owned sample_owned" by (simp add: owned_reach_def)
  note r = reach_request [OF reach_request [OF this]]
  show c: "owned_reach sample_adapter
     (freshSession sample_browser_policy sample_credentials Fetch True sample_state ''abcd'' 1000) sample_chosen"
    using r [of snapshot_request select_request] sample_choosing by (simp only: after_request_def sample_owned_def)
  show "owned_reach sample_adapter
     (freshSession sample_browser_policy sample_credentials Fetch True sample_state ''abcd'' 1000) sample_loggedIn"
    using reach_request [OF c, of inject_request] sample_injecting by (simp only: after_request_def)
qed

lemma sample_choice: "ow_authorized sample_chosen \<noteq> None"
  by (simp add: sample_chosen_def)

lemma sample_login: "ow_loggedIn sample_loggedIn"
  by (simp add: sample_loggedIn_def)

subsection \<open>Properties\<close>

text \<open>C5: the request handler refines the abstract login, for every adapter: whatever request comes
  to a reachable session, its login only stays, forgets the page, lists an unchallenged page
  under the next generation, records an authorized choice, or logs in from one.\<close>

theorem requests_refine_login:
  assumes "owned_reach ad (freshSession p c d headless a random now) s"
  shows "core_step p (core s) (core (snd (handleAgentRequest ad s q)))"
  using owned_inv_reach [OF assms] handleAgentRequest_step [of s ad q]
  by (auto simp: owned_inv_def session_step_def)

theorem requests_refine_login_witness:
  "core_step sample_browser_policy (core sample_chosen) (core sample_loggedIn) \<and> ow_loggedIn sample_loggedIn"
  using requests_refine_login [OF sample_reach(1), of inject_request] sample_login
  using sample_injecting unfolding after_request_def by simp

text \<open>C11: in every reachable session a recorded choice belongs to the list of the current
  generation: its three candidates are candidates of one unchallenged page that was on the
  login origin and posted to it, of the right kinds, and with the policy's field names.\<close>

theorem chosen_targets_listed:
  assumes "owned_reach ad (freshSession p c d headless a random now) s" "ow_authorized s = Some au"
  shows "\<exists>facts. fa_challenge facts = NoChallenge \<and> ow_snapshot s = Some (snapshotOf (ow_generation s) facts) \<and>
    on_login_origin p (fa_origin facts) (fa_form_action facts) \<and>
    {au_username au, au_password au, au_submit au} \<subseteq> set (enumerateAgentCandidates facts) \<and>
    ca_kind (au_username au) = KUsername \<and> ca_name (au_username au) = username_field p \<and>
    ca_kind (au_password au) = KPassword \<and> ca_name (au_password au) = password_field p \<and>
    ca_kind (au_submit au) = KSubmit"
proof -
  have i: "core_inv p (core s)" using owned_inv_reach [OF assms(1)] by (auto simp: owned_inv_def)
  then obtain snap where s: "ow_snapshot s = Some snap" "on_login_origin p (sn_origin snap) (sn_form_action snap)"
      "{au_username au, au_password au, au_submit au} \<subseteq> set (sn_candidates snap)"
      "ca_kind (au_username au) = KUsername" "ca_name (au_username au) = username_field p"
      "ca_kind (au_password au) = KPassword" "ca_name (au_password au) = password_field p"
      "ca_kind (au_submit au) = KSubmit"
    using assms(2) by (auto simp: core_inv_def core_def)
  moreover obtain facts where "fa_challenge facts = NoChallenge" "snap = snapshotOf (ow_generation s) facts"
    using i s(1) by (auto simp: core_inv_def core_def)
  ultimately show ?thesis by (intro exI [of _ facts]) (simp add: snapshotOf_def)
qed

theorem chosen_targets_listed_witness:
  "\<exists>au (facts :: page_facts). ow_authorized sample_chosen = Some au \<and> fa_challenge facts = NoChallenge \<and>
     ca_name (au_password au) = ''pass''"
proof -
  obtain au where au: "ow_authorized sample_chosen = Some au" using sample_choice by blast
  from chosen_targets_listed [OF sample_reach(1) au]
  have "\<exists>facts :: page_facts. fa_challenge facts = NoChallenge \<and>
      ca_name (au_password au) = password_field sample_browser_policy"
    by (rule ex_forward) (elim conjE, intro conjI)
  moreover have "password_field sample_browser_policy = ''pass''" by (simp add: sample_browser_policy_def)
  ultimately show ?thesis using au by (intro exI [of _ au]) simp
qed



text \<open>C4: with the fetch-backed adapter, in every run of a session, whatever the sites answer: a
  request that carries a body, and so a credential, is a \<open>POST\<close> to the login origin.\<close>

theorem credentials_posted_to_login_origin:
  assumes "owned_reach (createFetchPageAdapter fetch) (freshSession p c d headless st random now) s"
    "initialFetchState (login_origin p) (login_path p) = Some st"
    "k \<in> set (fs_calls (ow_adapter s))" "fc_body k \<noteq> None"
  shows "fc_method k = ''POST'' \<and>
    (\<exists>u f. newURL (login_origin p) = Some u \<and> newURL (fc_url k) = Some f \<and> origin f = origin u)"
proof -
  have "posts_home s \<and> owned_inv s \<and> ow_policy s = p"
    using assms(1) unfolding owned_reach_def
  proof (induction rule: rtranclp_induct)
    case base
    have "fs_calls st = []" using assms(2) by (auto simp: initialFetchState_def split: option.splits)
    then have "posts_home (freshSession p c d headless st random now)"
      by (simp add: posts_home_def confined_def freshSession_def)
    then show ?case using owned_inv_fresh by (simp add: freshSession_def)
  next
    case (step t u)
    with owned_step_posts [OF step(2)] owned_inv_step [OF step(2)] show ?case by simp
  qed
  then show ?thesis using assms(3,4) by (auto simp: posts_home_def confined_def to_login_origin_def)
qed

theorem credentials_posted_to_login_origin_witness:
  "\<exists>k \<in> set (fs_calls (ow_adapter sample_loggedIn)). fc_body k = Some ''user=operator&pass=pass+word'' \<and>
     (\<exists>u f. newURL ''http://127.0.0.1:4444'' = Some u \<and> newURL (fc_url k) = Some f \<and> origin f = origin u)"
proof -
  have "list_ex (\<lambda>k. fc_body k = Some ''user=operator&pass=pass+word'') (fs_calls (ow_adapter sample_loggedIn))"
    by code_simp
  then obtain k where k: "k \<in> set (fs_calls (ow_adapter sample_loggedIn))" "fc_body k = Some ''user=operator&pass=pass+word''"
    by (auto simp: list_ex_iff)
  then have "fc_body k \<noteq> None" by simp
  from credentials_posted_to_login_origin [OF sample_reach(2) sample_initial k(1) this] k show ?thesis
    by (auto simp: sample_browser_policy_def)
qed

lemma adapter_runs:
  "m (ow_adapter s) = (Inr x, a) \<Longrightarrow> andThen (onAdapter m) f s = f x (s\<lparr>ow_adapter := a\<rparr>)"
  by (simp add: andThen_def onAdapter_def)

lemma absorb_runs:
  "ad_absorbCookies ad (ow_adapter s) = (Inr vs, a) \<Longrightarrow>
     andThen (absorbCookies ad) f s = f () (s\<lparr>ow_adapter := a, ow_sensitive := jsSetFrom (ow_sensitive s) vs\<rparr>)"
  by (simp add: andThen_def absorbCookies_def onAdapter_def putState_def)

text \<open>C16: a login completes: on an open, unexpired session with a recorded choice, when the live
  page passes the check and the adapter's submission lands on the success page of the login
  origin, one \<open>/inject_login\<close> request logs in and starts the next generation.\<close>

theorem login_completes:
  assumes "ow_authorized s = Some au" "ow_snapshot s = Some snap" "\<not> ow_loggedIn s" "\<not> ow_closed s"
    "q_now q - ow_created s \<le> bp_session_ttl_ms (ow_policy s)" "q_now q - ow_lastUsed s \<le> bp_idle_ttl_ms (ow_policy s)"
    "q_method q = ''POST''" "q_url q = ''/inject_login''" "readOwnedBody 4096 [] (q_events q) = Some (Inr [])"
    "ad_snapshotPage ad (ow_adapter s) = (Inr live, a1)" "assertInjectSafe (pg_facts live) au (ow_policy s) = Inr ()"
    "ad_submitLogin ad (submissionOf s au (pg_facts live)) a1 = (Inr landed, a2)"
    "ad_absorbCookies ad a2 = (Inr vs, a3)" "newURL (pg_url landed) = Some l" "newURL (login_origin (ow_policy s)) = Some u"
    "origin l = origin u" "pathname l = success_path (ow_policy s)"
  shows "ow_loggedIn (snd (handleAgentRequest ad s q)) \<and>
    ow_generation (snd (handleAgentRequest ad s q)) = ow_generation s + 1 \<and>
    ow_adapter (snd (handleAgentRequest ad s q)) = a3"
proof -
  have url: "newURL_at (q_url q) ''http://127.0.0.1'' \<noteq> None \<and>
      pathname (the (newURL_at (q_url q) ''http://127.0.0.1'')) = ''/inject_login''"
    unfolding assms(8) by code_simp
  then obtain w where w: "newURL_at (q_url q) ''http://127.0.0.1'' = Some w" "pathname w = ''/inject_login''" by auto
  have op: "opFromPath ''POST'' ''/inject_login'' = ''inject_login''" "denyAgentOp ''inject_login'' = None"
    "needsBody ''inject_login''" by code_simp+
  have sub: "submissionOf (s\<lparr>ow_lastUsed := n, ow_passwordEntry := b, ow_adapter := x\<rparr>) au facts = submissionOf s au facts"
    for n b x facts by (simp add: submissionOf_def)
  have ch: "fa_challenge (pg_facts live) = NoChallenge" using assertInjectSafe_Inr [OF assms(11)] by blast
  have inject: "\<exists>x t. performInject ad au (s\<lparr>ow_lastUsed := n, ow_passwordEntry := True\<rparr>) = (Inr x, t) \<and>
      ow_loggedIn t \<and> ow_generation t = ow_generation s + 1 \<and> ow_adapter t = a3" for n
    unfolding performInject_def
    by (subst adapter_runs [where x = live and a = a1], simp add: assms(10))
       (simp add: assms(11) ch, subst adapter_runs [where x = landed and a = a2], simp add: assms(12) sub,
        subst absorb_runs [where vs = vs and a = a3], simp add: assms(13), simp add: assms(14-17) respond_def)
  have d: "\<exists>x t. dispatch ad ''inject_login'' ''POST'' (Inr []) (s\<lparr>ow_lastUsed := n\<rparr>) = (Inr x, t) \<and>
      ow_loggedIn t \<and> ow_generation t = ow_generation s + 1 \<and> ow_adapter t = a3" for n
    using inject [of n] assms(1-3)
    by (auto simp: dispatch_def handleInject_def parseJsonObject_def Let_def injecting_def)
  have e: "handleAgentRequest ad s q = (case dispatch ad ''inject_login'' ''POST'' (Inr []) (s\<lparr>ow_lastUsed := q_now q\<rparr>) of
      (Inr x, t) \<Rightarrow> (Answered x, t)
    | (Inl e, t) \<Rightarrow> (Answered (JsonAnswer (writeFixed (statusFor (codeOf e)) (codeOf e))),
                      ownedLog ''error'' ''bridge-owned browser op failed'' t))"
    using assms(4-7,9) by (simp add: handleAgentRequest_def Let_def w op)
  from d [of "q_now q"] show ?thesis unfolding e by auto
qed

definition sample_facts :: page_facts where
  "sample_facts =
     \<lparr>fa_origin = ''http://127.0.0.1:4444'', fa_path = ''/login'', fa_form_action = ''http://127.0.0.1:4444/login'',
      fa_challenge = NoChallenge,
      fa_fields = [\<lparr>pf_name = ''user'', pf_type = ''text'', pf_hidden = False\<rparr>,
                   \<lparr>pf_name = ''pass'', pf_type = ''password'', pf_hidden = False\<rparr>],
      fa_buttons = [\<lparr>pb_type = ''submit'', pb_label = ''go''\<rparr>]\<rparr>"

definition sample_choice_of :: authorized where
  "sample_choice_of = \<lparr>au_username = username_candidate, au_password = password_candidate, au_submit = submit_candidate\<rparr>"

definition sample_live :: page where
  "sample_live = \<lparr>pg_html = sample_page, pg_url = ''http://127.0.0.1:4444/login'', pg_facts = sample_facts\<rparr>"

definition sample_landed :: page where
  "sample_landed = \<lparr>pg_html = ''<h1>home</h1>'', pg_url = ''http://127.0.0.1:4444/home'',
     pg_facts = \<lparr>fa_origin = ''http://127.0.0.1:4444'', fa_path = ''/home'',
       fa_form_action = ''http://127.0.0.1:4444/home'', fa_challenge = NoChallenge, fa_fields = [], fa_buttons = []\<rparr>\<rparr>"

lemma sample_login_run:
  "ad_snapshotPage sample_adapter (ow_adapter sample_chosen) =
     (Inr sample_live, sample_state\<lparr>fs_calls := [login_call ''GET'' None, login_call ''GET'' None]\<rparr>)"
  "assertInjectSafe (pg_facts sample_live) sample_choice_of (ow_policy sample_chosen) = Inr ()"
  "ad_submitLogin sample_adapter (submissionOf sample_chosen sample_choice_of (pg_facts sample_live))
       (sample_state\<lparr>fs_calls := [login_call ''GET'' None, login_call ''GET'' None]\<rparr>) =
     (Inr sample_landed, ow_adapter sample_loggedIn)"
  "ad_absorbCookies sample_adapter (ow_adapter sample_loggedIn) = (Inr [''abcdefgh''], ow_adapter sample_loggedIn)"
  by code_simp+

lemma sample_landing:
  "newURL (pg_url sample_landed) = Some ((loopback_url ''127.0.0.1'' 4444 None None)\<lparr>u_path := [''home'']\<rparr>)"
  "newURL (login_origin (ow_policy sample_chosen)) = Some (loopback_url ''127.0.0.1'' 4444 None None)"
  "origin ((loopback_url ''127.0.0.1'' 4444 None None)\<lparr>u_path := [''home'']\<rparr>) = origin (loopback_url ''127.0.0.1'' 4444 None None)"
  "pathname ((loopback_url ''127.0.0.1'' 4444 None None)\<lparr>u_path := [''home'']\<rparr>) = success_path (ow_policy sample_chosen)"
  by code_simp+

lemma sample_ready:
  "ow_snapshot sample_chosen \<noteq> None" "\<not> ow_loggedIn sample_chosen" "\<not> ow_closed sample_chosen"
  "q_now inject_request - ow_created sample_chosen \<le> bp_session_ttl_ms (ow_policy sample_chosen)"
  "q_now inject_request - ow_lastUsed sample_chosen \<le> bp_idle_ttl_ms (ow_policy sample_chosen)"
  by code_simp+

lemma inject_request_fields:
  "q_method inject_request = ''POST''" "q_url inject_request = ''/inject_login''"
  "readOwnedBody 4096 [] (q_events inject_request) = Some (Inr [])"
  by code_simp+

theorem login_completes_witness:
  "ow_loggedIn (snd (handleAgentRequest sample_adapter sample_chosen inject_request))"
proof -
  have a: "ow_authorized sample_chosen = Some sample_choice_of"
    by (simp add: sample_chosen_def sample_choice_of_def)
  obtain snap where "ow_snapshot sample_chosen = Some snap" using sample_ready(1) by blast
  note c = a this
  from login_completes [OF c sample_ready(2-5) inject_request_fields sample_login_run sample_landing] show ?thesis
    by (rule conjunct1)
qed

end
