(* ===== verification/Spec2Isabelle.thy ===== *)
theory Spec2Isabelle
  imports BrokerFacts SshBroker FtpBroker RuntimeFrame OwnedFacts
begin

text \<open>
  The agent credential bridge, verified at its core.

  The bridge lets an agent use a credential it never sees. A policy, a JSON object with
  placeholders where the secrets go, says what may be done; a broker on a loopback port does it,
  puts the credential in, and checks everything that comes back. The parts modelled here, in
  the order of their theories; paths are relative to the package's \<open>src/\<close>.

  \<^item> \<open>Prelude\<close>, \<open>Encoding\<close>, \<open>JsValue\<close>, \<open>JsonRoundtrip\<close>, \<open>Url\<close>: the parts of the JavaScript
    platform the code computes with. Strings are their UTF-8 bytes. \<open>JsValue\<close> has values as
    \<open>JSON.parse\<close> returns them, with own properties in property order, \<open>__proto__\<close> assignment,
    \<open>JSON.stringify\<close> and \<open>JSON.parse\<close>; \<open>JsonRoundtrip\<close> proves that parsing undoes printing. \<open>Url\<close>
    is an executable model of the URL parser for http and https.
  \<^item> \<open>CredentialClasses\<close>, \<open>BasicCredentials\<close>, \<open>LiveGate\<close>: the tables of \<open>credential-classes.js\<close> and
    \<open>constants.js\<close>, the credential shapes of \<open>basic-credentials.js\<close> and \<open>agent-token.js\<close>, and the
    branded gate of \<open>browser-form-login-live-gate.mjs\<close>. Lemmas: which values are accepted, exactly;
    an authorization value decodes to the credential and determines it.
  \<^item> \<open>Policy\<close>, \<open>PolicyFacts\<close>: the validator of \<open>policy.js\<close> for all eight policy versions, one
    definition per function or block of it, errors as the values of a datatype. Lemmas: every
    accepted policy is well formed (\<open>wf_policy\<close>), holds placeholders only, and survives being
    written as JSON and loaded again; the rewriting operations change one origin.
  \<^item> \<open>Redaction\<close>: the credential forms \<open>broker.js\<close> looks for, its redaction of log values and its
    detection in responses. The index loop is proved equal to a scan over the text and a
    canonical copy of it, and redaction is proved complete for the forms the scan's result
    cannot recreate; the locale \<open>text_redactor\<close> carries the argument from one text to a list of
    forms, and both redactors of the code interpret it.
  \<^item> \<open>Broker\<close>, \<open>BrokerFacts\<close>: \<open>startBroker\<close> and \<open>handleBrokerRequest\<close> of \<open>broker.js\<close>: guards on the
    request target, method and path, header copying, injection, body limits, the relay of the
    response. \<open>handle_cases\<close> splits every run of the handler; the properties are read off it.
  \<^item> \<open>SessionPool\<close>: the counter of live sessions each session broker keeps, as a step relation on
    worlds of pending and started sessions. The locale \<open>session_pool\<close> states what start, finish
    and close promise; its theorem that the counter is exact holds for the SSH broker, the FTP
    broker and the bridge-owned browser, which interpret it.
  \<^item> \<open>SessionProtocol\<close>, \<open>SessionCore\<close>, \<open>SshBroker\<close>, \<open>FtpBroker\<close>: the JSON-lines client of
    \<open>fake-session-protocol.mjs\<close> as a function of socket events, what \<open>ssh-session-broker.mjs\<close> and
    \<open>ftp-session-broker.mjs\<close> share word for word, and the two brokers. Handlers are split at their
    \<open>await\<close>s, so that a close can come between an operation and its answer.
  \<^item> \<open>RuntimeFrame\<close>: \<open>onecli-proxy-runtime-frame.js\<close>: the frames that carry a token and a policy
    over inherited descriptors, the descriptor checks (file modes as 32-bit words) and the
    parent lease.
  \<^item> \<open>Targeting\<close>, \<open>PageAdapter\<close>, \<open>OwnedBrowser\<close>, \<open>OwnedFacts\<close>: the bridge-owned browser.
    \<open>Targeting\<close> is \<open>bridge-browser-targeting.mjs\<close>, its regular expressions written out as
    scanners. \<open>PageAdapter\<close> has computations that throw over a state, the interface of a page
    adapter as a record of such computations, and the adapter of \<open>bridge-browser-fake-adapter.mjs\<close>,
    whose \<open>fetch\<close> is any function of the requests made so far. \<open>OwnedBrowser\<close> is
    \<open>bridge-owned-browser.mjs\<close> over any adapter. \<open>OwnedFacts\<close> has the abstract login, a step
    relation on generation, list, choice and login flag; the request handler refines it for
    every adapter, the invariant of a choice is proved on the abstract steps, and with the
    fetch-backed adapter every request that carries a credential goes to the login origin.

  How the model stands to the code. A \<open>throw\<close> or rejected promise is an \<open>Inl\<close>, or \<open>None\<close> where the
  code does not look at the exception. Event streams (request bodies, sockets, descriptors) are
  lists of events; a list that ends without settling is a timeout where the code has one, and
  otherwise a value of its own (\<open>Waiting\<close>, \<open>Stalled\<close>, \<open>None\<close>). The clock, random bytes, \<open>listen\<close>,
  \<open>fetch\<close>, the network and \<open>fstat\<close> are arguments, and no property assumes anything of them.
  Every function is total: recursion over texts, events and redirects has a measure, so there is
  no fuel in the model, and the redirect loop's bound is a property.

  Limits. A length counts bytes, where the code counts UTF-16 units; the two agree on ASCII, which
  the code demands of nearly everything whose length it bounds. White space and letter case are
  ASCII. Integers are not rounded to 53 bits. Values have no accessors, symbols or foreign
  prototypes, so the code's guards against those hold and are not written out. Hosts that are
  IPv6 literals or not ASCII are rejected, and URLs of other schemes keep their scheme only. A
  close of the bridge-owned browser does not interleave with a running request.

  Not modelled. The browser form-login broker (\<open>browser-session-broker.mjs\<close>), the OneCLI proxy
  (\<open>onecli-proxy-broker.js\<close>), the operational bridge, the helper protocol and the authorization
  evidence are not modelled yet. The platform lifecycle and packaging modules, the vault
  resolvers and the collectors are glue around operating-system commands, key stores and dialogs;
  the Playwright adapter drives an external browser and enters as an adapter; the fakes are the
  peers that the network and fetch arguments stand for.
\<close>

end
